(* ===== verification/Rust_Std.thy ===== *)
theory Rust_Std
  imports
    Main
    "HOL-Library.List_Lexorder"
    "HOL-Library.Char_ord"
    "HOL-Library.AList"
    "HOL-Library.Multiset"
begin

text \<open>
  The prelude of the development: the part of Rust and of its standard library that the
  modelled sources use, and the lemmas the components share.

  \<^item> \<open>result\<close> is Rust's \<^verbatim>\<open>Result\<close> with a third constructor for a panic (an arithmetic
    underflow, an \<^verbatim>\<open>unwrap\<close> of nothing), so that every panic of the source is a value of
    the model; \<open>and_then\<close> is the \<^verbatim>\<open>?\<close> operator and \<open>try_fold\<close> a \<^verbatim>\<open>for\<close> loop that may
    return early.
  \<^item> A Rust string is the list of its UTF-8 bytes (HOL's \<^typ>\<open>string\<close>); the order of
    \<open>List_Lexorder\<close> over \<open>Char_ord\<close> is the byte order of \<^verbatim>\<open>str: Ord\<close>.
  \<^item> A \<^verbatim>\<open>HashMap\<close> is an association list with distinct keys whose list order stands for
    the unspecified iteration order: a theorem about every list is a theorem about every
    iteration order. A \<^verbatim>\<open>BTreeMap\<close> is an association list sorted by key.
\<close>

section \<open>Results, the question-mark operator and fallible loops\<close>

datatype ('a, 'e) result = Ok 'a | Err 'e | Panic

primrec and_then :: "('a, 'e) result \<Rightarrow> ('a \<Rightarrow> ('b, 'e) result) \<Rightarrow> ('b, 'e) result" where
  "and_then (Ok x) f = f x"
| "and_then (Err e) f = Err e"
| "and_then Panic f = Panic"

primrec map_ok :: "('a \<Rightarrow> 'b) \<Rightarrow> ('a, 'e) result \<Rightarrow> ('b, 'e) result" where
  "map_ok f (Ok x) = Ok (f x)"
| "map_ok f (Err e) = Err e"
| "map_ok f Panic = Panic"

primrec map_err :: "('e \<Rightarrow> 'f) \<Rightarrow> ('a, 'e) result \<Rightarrow> ('a, 'f) result" where
  "map_err f (Ok x) = Ok x"
| "map_err f (Err e) = Err (f e)"
| "map_err f Panic = Panic"

primrec ok_or :: "'e \<Rightarrow> 'a option \<Rightarrow> ('a, 'e) result" where
  "ok_or e None = Err e"
| "ok_or e (Some x) = Ok x"

text \<open>\<^verbatim>\<open>Option::unwrap\<close> and \<^verbatim>\<open>Option::expect\<close>: nothing is a panic.\<close>

primrec unwrap :: "'a option \<Rightarrow> ('a, 'e) result" where
  "unwrap None = Panic"
| "unwrap (Some x) = Ok x"

primrec unwrap_or :: "'a \<Rightarrow> 'a option \<Rightarrow> 'a" where
  "unwrap_or d None = d"
| "unwrap_or d (Some x) = x"

primrec or_else :: "'a option \<Rightarrow> 'a option \<Rightarrow> 'a option" where
  "or_else None y = y"
| "or_else (Some x) y = Some x"

text \<open>A \<^verbatim>\<open>for\<close> loop over \<open>xs\<close> with loop state \<open>s\<close> whose body may return an error early.\<close>

fun try_fold :: "('s \<Rightarrow> 'x \<Rightarrow> ('s, 'e) result) \<Rightarrow> 's \<Rightarrow> 'x list \<Rightarrow> ('s, 'e) result" where
  "try_fold f s [] = Ok s"
| "try_fold f s (x # xs) = and_then (f s x) (\<lambda>s'. try_fold f s' xs)"

text \<open>A loop that pushes one fallible result per element, or a \<^verbatim>\<open>collect\<close> into a \<^verbatim>\<open>Result\<close>.\<close>

fun try_map :: "('x \<Rightarrow> ('y, 'e) result) \<Rightarrow> 'x list \<Rightarrow> ('y list, 'e) result" where
  "try_map f [] = Ok []"
| "try_map f (x # xs) = and_then (f x) (\<lambda>y. map_ok (\<lambda>ys. y # ys) (try_map f xs))"

lemma and_then_Ok_iff [simp]: "and_then r f = Ok y \<longleftrightarrow> (\<exists>x. r = Ok x \<and> f x = Ok y)"
  by (cases r) auto

lemma and_then_Err_iff:
  "and_then r f = Err e \<longleftrightarrow> r = Err e \<or> (\<exists>x. r = Ok x \<and> f x = Err e)"
  by (cases r) auto

lemma and_then_Panic_iff:
  "and_then r f = Panic \<longleftrightarrow> r = Panic \<or> (\<exists>x. r = Ok x \<and> f x = Panic)"
  by (cases r) auto

lemma and_then_assoc:
  "and_then (and_then r f) g = and_then r (\<lambda>x. and_then (f x) g)"
  by (cases r) auto

lemma map_ok_iffs [simp]:
  "map_ok f r = Ok y \<longleftrightarrow> (\<exists>x. r = Ok x \<and> y = f x)"
  "map_ok f r = Err e \<longleftrightarrow> r = Err e"
  "map_ok f r = Panic \<longleftrightarrow> r = Panic"
  by (cases r; auto)+

lemma map_err_iffs [simp]:
  "map_err f r = Ok y \<longleftrightarrow> r = Ok y"
  "map_err f r = Err e' \<longleftrightarrow> (\<exists>e. r = Err e \<and> e' = f e)"
  "map_err f r = Panic \<longleftrightarrow> r = Panic"
  by (cases r; auto)+

lemma ok_or_iffs [simp]:
  "ok_or e x = Ok y \<longleftrightarrow> x = Some y"
  "ok_or e x = Err e' \<longleftrightarrow> x = None \<and> e' = e"
  "ok_or e x \<noteq> Panic"
  by (cases x; auto)+

lemma unwrap_iffs [simp]:
  "unwrap x = Ok y \<longleftrightarrow> x = Some y"
  "unwrap x = Panic \<longleftrightarrow> x = None"
  "unwrap x \<noteq> Err e"
  by (cases x; auto)+

lemma or_else_None_iff [simp]: "or_else x y = None \<longleftrightarrow> x = None \<and> y = None"
  by (cases x) auto

lemma try_fold_append:
  "try_fold f s (xs @ ys) = and_then (try_fold f s xs) (\<lambda>s'. try_fold f s' ys)"
  by (induction xs arbitrary: s) (auto simp: and_then_assoc)

text \<open>The loop rule: an invariant of the processed prefix holds for the final state.\<close>

lemma try_fold_invariant:
  assumes run: "try_fold f s0 xs = Ok s"
    and start: "I [] s0"
    and step: "\<And>prior x s s'. \<lbrakk>I prior s; x \<in> set xs; f s x = Ok s'\<rbrakk> \<Longrightarrow> I (prior @ [x]) s'"
  shows "I xs s"
  using run step
proof (induction xs arbitrary: s rule: rev_induct)
  case Nil
  then show ?case using start by simp
next
  case (snoc x xs)
  from snoc.prems(1) obtain t where t: "try_fold f s0 xs = Ok t" and x: "f t x = Ok s"
    by (auto simp: try_fold_append)
  have "I xs t" using t snoc.prems(2) by (intro snoc.IH) auto
  then show ?case using x snoc.prems(2) by simp
qed

text \<open>A loop whose body never panics does not panic.\<close>

lemma try_fold_no_panic:
  assumes "\<And>s x. x \<in> set xs \<Longrightarrow> f s x \<noteq> Panic"
  shows "try_fold f s xs \<noteq> Panic"
  using assms by (induction xs arbitrary: s) (auto simp: and_then_Panic_iff)

text \<open>An error of a loop is an error of one of its rounds.\<close>

lemma try_fold_Err_body: "try_fold f s xs = Err e \<Longrightarrow> \<exists>s' x. x \<in> set xs \<and> f s' x = Err e"
  by (induction xs arbitrary: s) (auto simp: and_then_Err_iff, blast)

lemma try_map_Ok_iff: "try_map f xs = Ok ys \<longleftrightarrow> list_all2 (\<lambda>x y. f x = Ok y) xs ys"
  by (induction xs arbitrary: ys) (auto simp: list_all2_Cons1)

lemma try_map_Ok_set: "try_map f xs = Ok ys \<Longrightarrow> y \<in> set ys \<Longrightarrow> \<exists>x \<in> set xs. f x = Ok y"
  by (induction xs arbitrary: ys) auto

lemma try_map_Ok_mem: "try_map f xs = Ok ys \<Longrightarrow> x \<in> set xs \<Longrightarrow> \<exists>y \<in> set ys. f x = Ok y"
  by (induction xs arbitrary: ys) auto

lemma try_map_Err: "try_map f xs = Err e \<Longrightarrow> \<exists>x \<in> set xs. f x = Err e"
  by (induction xs) (auto simp: and_then_Err_iff)

lemma try_map_no_panic: "\<forall>x \<in> set xs. f x \<noteq> Panic \<Longrightarrow> try_map f xs \<noteq> Panic"
  by (induction xs) (auto simp: and_then_Panic_iff)

lemma try_map_total: "\<forall>x \<in> set xs. \<exists>y. f x = Ok y \<Longrightarrow> \<exists>ys. try_map f xs = Ok ys"
  by (induction xs) auto

text \<open>A check loop: the body looks at the element only and keeps no state.\<close>

lemma try_fold_check:
  assumes "\<And>s x. f s x = and_then (c x) (\<lambda>_. Ok (g s x))"
  shows "(\<exists>t. try_fold f s xs = Ok t) \<longleftrightarrow> (\<forall>x \<in> set xs. \<exists>u. c x = Ok u)"
proof (induction xs arbitrary: s)
  case (Cons x xs)
  then show ?case by (cases "c x") (auto simp: assms)
qed simp

lemma try_fold_check_Ok:
  assumes "\<And>s x. f s x = and_then (c x) (\<lambda>_. Ok (g s x))"
  shows "try_fold f s xs = Ok t \<Longrightarrow> t = foldl g s xs"
proof (induction xs arbitrary: s)
  case (Cons x xs)
  then show ?case by (cases "c x") (auto simp: assms)
qed simp

text \<open>Two accumulators that do not look at each other are two loops.\<close>

lemma all_nth_Cons:
  "(\<forall>i < length (x # xs). P (n + i) ((x # xs) ! i)) \<longleftrightarrow> P n x \<and> (\<forall>i < length xs. P (Suc n + i) (xs ! i))"
  by (auto simp: less_Suc_eq_0_disj)

lemma foldl_pair:
  "foldl (\<lambda>(a, b) x. (f a x, h b x)) (a, b) xs = (foldl f a xs, foldl h b xs)"
  by (induction xs arbitrary: a b) auto

lemma foldl_concat_map:
  "foldl (\<lambda>s x. foldl f s (h x)) s xs = foldl f s (concat (map h xs))"
  by (induction xs arbitrary: s) auto

lemma map_of_find: "map_of (map (\<lambda>e. (f e, e)) xs) k = find (\<lambda>e. f e = k) xs"
  by (induction xs) auto

section \<open>Strings\<close>

definition starts_with :: "string \<Rightarrow> string \<Rightarrow> bool" where
  "starts_with p s \<longleftrightarrow> take (length p) s = p"

definition ends_with :: "string \<Rightarrow> string \<Rightarrow> bool" where
  "ends_with p s \<longleftrightarrow> starts_with (rev p) (rev s)"

definition strip_prefix :: "string \<Rightarrow> string \<Rightarrow> string option" where
  "strip_prefix p s = (if starts_with p s then Some (drop (length p) s) else None)"

fun str_contains :: "string \<Rightarrow> string \<Rightarrow> bool" where
  "str_contains p [] = (p = [])"
| "str_contains p (c # s) = (starts_with p (c # s) \<or> str_contains p s)"

text \<open>\<^verbatim>\<open>str::split\<close> with a predicate on characters; there is always a first piece.\<close>

fun split_by :: "(char \<Rightarrow> bool) \<Rightarrow> string \<Rightarrow> string list" where
  "split_by P [] = [[]]"
| "split_by P (c # s) =
     (if P c then [] # split_by P s
      else case split_by P s of [] \<Rightarrow> [[c]] | w # ws \<Rightarrow> (c # w) # ws)"

definition split_on :: "char \<Rightarrow> string \<Rightarrow> string list" where
  "split_on d = split_by (\<lambda>c. c = d)"

text \<open>\<^verbatim>\<open>str::split_once\<close>: the parts before and after the first occurrence of a pattern.\<close>

fun split_once :: "string \<Rightarrow> string \<Rightarrow> (string \<times> string) option" where
  "split_once p [] = (if p = [] then Some ([], []) else None)"
| "split_once p (c # s) =
     (if starts_with p (c # s) then Some ([], drop (length p) (c # s))
      else map_option (\<lambda>(a, b). (c # a, b)) (split_once p s))"

fun join_strs :: "string \<Rightarrow> string list \<Rightarrow> string" where
  "join_strs sep [] = []"
| "join_strs sep [w] = w"
| "join_strs sep (w # v # ws) = w @ sep @ join_strs sep (v # ws)"

text \<open>
  The UTF-8 encodings of the characters with the Unicode property \<^verbatim>\<open>White_Space\<close>, which is
  what \<^verbatim>\<open>str::trim\<close> removes.
\<close>

definition ws_encodings :: "string list" where
  "ws_encodings =
     [[CHR 0x09], [CHR 0x0A], [CHR 0x0B], [CHR 0x0C], [CHR 0x0D], [CHR 0x20],
      [CHR 0xC2, CHR 0x85], [CHR 0xC2, CHR 0xA0], [CHR 0xE1, CHR 0x9A, CHR 0x80],
      [CHR 0xE2, CHR 0x80, CHR 0x80], [CHR 0xE2, CHR 0x80, CHR 0x81],
      [CHR 0xE2, CHR 0x80, CHR 0x82], [CHR 0xE2, CHR 0x80, CHR 0x83],
      [CHR 0xE2, CHR 0x80, CHR 0x84], [CHR 0xE2, CHR 0x80, CHR 0x85],
      [CHR 0xE2, CHR 0x80, CHR 0x86], [CHR 0xE2, CHR 0x80, CHR 0x87],
      [CHR 0xE2, CHR 0x80, CHR 0x88], [CHR 0xE2, CHR 0x80, CHR 0x89],
      [CHR 0xE2, CHR 0x80, CHR 0x8A], [CHR 0xE2, CHR 0x80, CHR 0xA8],
      [CHR 0xE2, CHR 0x80, CHR 0xA9], [CHR 0xE2, CHR 0x80, CHR 0xAF],
      [CHR 0xE2, CHR 0x81, CHR 0x9F], [CHR 0xE3, CHR 0x80, CHR 0x80]]"

text \<open>Strip one pattern of the list from the front as long as there is one.\<close>

function strip_all :: "string list \<Rightarrow> string \<Rightarrow> string" where
  "strip_all ps s =
     (case find (\<lambda>p. p \<noteq> [] \<and> starts_with p s) ps of
        None \<Rightarrow> s
      | Some p \<Rightarrow> strip_all ps (drop (length p) s))"
  by pat_completeness auto
termination
proof (relation "measure (\<lambda>(ps, s). length s)")
  fix ps s p
  assume "find (\<lambda>p. p \<noteq> [] \<and> starts_with p s) ps = Some p"
  then have "p \<noteq> []" and "take (length p) s = p"
    by (auto simp: find_Some_iff starts_with_def)
  then have "0 < length p" and "length p \<le> length s"
    by (auto dest: arg_cong [of _ _ length])
  then show "((ps, drop (length p) s), (ps, s)) \<in> measure (\<lambda>(ps, s). length s)"
    by (simp del: length_greater_0_conv)
qed simp

declare strip_all.simps [simp del]

definition trim_start :: "string \<Rightarrow> string" where
  "trim_start s = strip_all ws_encodings s"

definition trim_end :: "string \<Rightarrow> string" where
  "trim_end s = rev (strip_all (map rev ws_encodings) (rev s))"

definition trim :: "string \<Rightarrow> string" where
  "trim s = trim_end (trim_start s)"

definition trim_start_matches :: "(char \<Rightarrow> bool) \<Rightarrow> string \<Rightarrow> string" where
  "trim_start_matches P s = dropWhile P s"

definition trim_end_matches :: "(char \<Rightarrow> bool) \<Rightarrow> string \<Rightarrow> string" where
  "trim_end_matches P s = rev (dropWhile P (rev s))"

definition is_ascii_digit :: "char \<Rightarrow> bool" where
  "is_ascii_digit c \<longleftrightarrow> c \<in> set ''0123456789''"

definition to_ascii_lowercase :: "string \<Rightarrow> string" where
  "to_ascii_lowercase s =
     map (\<lambda>c. if CHR ''A'' \<le> c \<and> c \<le> CHR ''Z'' then char_of (of_char c + (32 :: nat)) else c) s"

definition eq_ignore_ascii_case :: "string \<Rightarrow> string \<Rightarrow> bool" where
  "eq_ignore_ascii_case a b \<longleftrightarrow> to_ascii_lowercase a = to_ascii_lowercase b"

definition is_ascii_lowercase :: "char \<Rightarrow> bool" where
  "is_ascii_lowercase c \<longleftrightarrow> CHR ''a'' \<le> c \<and> c \<le> CHR ''z''"

definition is_ascii_uppercase :: "char \<Rightarrow> bool" where
  "is_ascii_uppercase c \<longleftrightarrow> CHR ''A'' \<le> c \<and> c \<le> CHR ''Z''"

definition is_ascii_alphabetic :: "char \<Rightarrow> bool" where
  "is_ascii_alphabetic c \<longleftrightarrow> is_ascii_lowercase c \<or> is_ascii_uppercase c"

definition is_ascii_alphanumeric :: "char \<Rightarrow> bool" where
  "is_ascii_alphanumeric c \<longleftrightarrow> is_ascii_alphabetic c \<or> is_ascii_digit c"

definition trim_matches :: "(char \<Rightarrow> bool) \<Rightarrow> string \<Rightarrow> string" where
  "trim_matches P s = trim_end_matches P (trim_start_matches P s)"

text \<open>\<^verbatim>\<open>str::split_whitespace\<close>: the nonempty pieces between the encodings of white space; the
  first argument of the loop is the piece read so far.\<close>

fun split_ws :: "string \<Rightarrow> string \<Rightarrow> string list" where
  "split_ws w [] = [w]"
| "split_ws w (c # s) =
     (case find (\<lambda>p. starts_with p (c # s)) ws_encodings of
        Some p \<Rightarrow> w # split_ws [] (drop (length p - 1) s)
      | None \<Rightarrow> split_ws (w @ [c]) s)"

definition split_whitespace :: "string \<Rightarrow> string list" where
  "split_whitespace s = filter (\<lambda>w. w \<noteq> []) (split_ws [] s)"

text \<open>\<^verbatim>\<open>str::lines\<close>: the pieces between newlines, without a final empty one, each without a
  carriage return that stands before its newline.\<close>

definition strip_cr :: "string \<Rightarrow> string" where
  "strip_cr l = (if l \<noteq> [] \<and> last l = CHR 0x0D then butlast l else l)"

definition str_lines :: "string \<Rightarrow> string list" where
  "str_lines s =
     (let ps = split_on (CHR 0x0A) s
      in map strip_cr (butlast ps) @ (if last ps = [] then [] else [last ps]))"

text \<open>
  \<^verbatim>\<open>&s[..n]\<close> for \<^verbatim>\<open>n <= s.len()\<close>: a panic when \<open>n\<close> is inside a character, that is when the
  byte at \<open>n\<close> is a continuation byte.
\<close>

definition is_char_boundary :: "string \<Rightarrow> nat \<Rightarrow> bool" where
  "is_char_boundary s n \<longleftrightarrow>
     n = length s \<or> (n < length s \<and> \<not> ((128 :: nat) \<le> of_char (s ! n) \<and> of_char (s ! n) < (192 :: nat)))"

definition slice_to :: "string \<Rightarrow> nat \<Rightarrow> (string, 'e) result" where
  "slice_to s n = (if is_char_boundary s n then Ok (take n s) else Panic)"

text \<open>Decimal output of an unsigned integer, and the value of a string of digits.\<close>

fun digit_char :: "nat \<Rightarrow> char" where
  "digit_char d = char_of (48 + d)"

fun show_nat :: "nat \<Rightarrow> string" where
  "show_nat n = (if n < 10 then [digit_char n] else show_nat (n div 10) @ [digit_char (n mod 10)])"

declare show_nat.simps [simp del]

definition show_int :: "int \<Rightarrow> string" where
  "show_int i = (if i < 0 then ''-'' @ show_nat (nat (- i)) else show_nat (nat i))"

definition digits_value :: "string \<Rightarrow> nat" where
  "digits_value s = foldl (\<lambda>acc c. 10 * acc + (of_char c - 48)) 0 s"

text \<open>\<^verbatim>\<open>{n:0w}\<close>: zero-padded to width \<open>w\<close>.\<close>

definition pad_zero :: "nat \<Rightarrow> string \<Rightarrow> string" where
  "pad_zero w s = replicate (w - length s) CHR ''0'' @ s"

text \<open>\<^verbatim>\<open>Path::join\<close> on a Unix path: an absolute path replaces the base.\<close>

definition path_join :: "string \<Rightarrow> string \<Rightarrow> string" where
  "path_join a b =
     (if starts_with ''/'' b then b
      else if a = [] \<or> last a = CHR ''/'' then a @ b
      else a @ ''/'' @ b)"

subsection \<open>Lemmas on strings\<close>

lemma starts_with_Nil [simp]: "starts_with [] s"
  by (simp add: starts_with_def)

lemma starts_with_Cons [simp]:
  "starts_with (p # ps) (c # s) \<longleftrightarrow> p = c \<and> starts_with ps s"
  "\<not> starts_with (p # ps) []"
  by (auto simp: starts_with_def)

lemma starts_with_iff: "starts_with p s \<longleftrightarrow> (\<exists>r. s = p @ r)"
  by (metis append_eq_conv_conj append_take_drop_id starts_with_def)

lemma starts_with_append [simp]: "starts_with p (p @ r)"
  by (simp add: starts_with_def)

lemma strip_prefix_iff: "strip_prefix p s = Some r \<longleftrightarrow> s = p @ r"
  by (auto simp: strip_prefix_def starts_with_iff)

lemma str_contains_iff: "str_contains p s \<longleftrightarrow> (\<exists>a b. s = a @ p @ b)"
proof (induction s)
  case (Cons c s)
  note IH = Cons.IH
  show ?case
  proof
    assume "str_contains p (c # s)"
    then consider r where "c # s = p @ r" | a b where "s = a @ p @ b"
      using Cons.IH by (auto simp: starts_with_iff)
    then show "\<exists>a b. c # s = a @ p @ b"
      by cases (metis append_Nil, metis append_Cons)
  next
    assume "\<exists>a b. c # s = a @ p @ b"
    then obtain a b where ab: "c # s = a @ p @ b" by blast
    show "str_contains p (c # s)"
    proof (cases a)
      case Nil
      then have "starts_with p (c # s)" unfolding ab by simp
      then show ?thesis by simp
    next
      case (Cons a0 a')
      then have "s = a' @ p @ b" using ab by simp
      then show ?thesis using IH by auto
    qed
  qed
qed auto

lemma split_by_not_Nil [simp]: "split_by P s \<noteq> []"
  by (cases s) (auto split: list.splits)

lemma split_by_pieces: "w \<in> set (split_by P s) \<Longrightarrow> c \<in> set w \<Longrightarrow> \<not> P c"
proof (induction s arbitrary: w)
  case (Cons a s)
  then show ?case by (cases "split_by P s") (fastforce split: if_splits)+
qed simp

lemma split_by_append:
  assumes "\<forall>c \<in> set w. \<not> P c" and "P d"
  shows "split_by P (w @ d # s) = w # split_by P s"
  using assms by (induction w) auto

lemma split_by_none: "\<forall>c \<in> set w. \<not> P c \<Longrightarrow> split_by P w = [w]"
  by (induction w) auto

lemma split_by_split: "P d \<Longrightarrow> split_by P (xs @ d # ys) = split_by P xs @ split_by P ys"
  by (induction xs) (auto split: list.splits)

text \<open>Splitting at a character undoes joining with it.\<close>

lemma split_on_join:
  assumes "ws \<noteq> []" and "\<forall>w \<in> set ws. d \<notin> set w"
  shows "split_on d (join_strs [d] ws) = ws"
  using assms
proof (induction "[d]" ws rule: join_strs.induct)
  case (2 w)
  then show ?case by (auto simp: split_on_def intro: split_by_none)
next
  case (3 w v ws)
  then have "\<forall>c \<in> set w. c \<noteq> d" by auto
  with 3 show ?case
    using split_by_append [of w "\<lambda>c. c = d" d] by (simp add: split_on_def)
qed simp

lemma join_split_on: "join_strs [d] (split_on d s) = s"
proof (induction s)
  case (Cons c s)
  then obtain w ws where "split_on d s = w # ws"
    by (cases "split_on d s") (auto simp: split_on_def)
  then show ?case using Cons by (cases ws) (auto simp: split_on_def)
qed (simp add: split_on_def)

lemma split_once_iff_Some:
  "split_once p s = Some (a, b) \<Longrightarrow> s = a @ p @ b"
proof (induction s arbitrary: a)
  case (Cons c s)
  show ?case
  proof (cases "starts_with p (c # s)")
    case True
    then have "a = []" and "b = drop (length p) (c # s)" using Cons.prems by auto
    moreover have "take (length p) (c # s) = p" using True by (simp add: starts_with_def)
    ultimately show ?thesis by (metis append_Nil append_take_drop_id)
  next
    case False
    then obtain a' where "split_once p s = Some (a', b)" and "a = c # a'"
      using Cons.prems by auto
    then show ?thesis using Cons.IH by simp
  qed
qed (auto split: if_splits)

lemma split_once_first:
  "p \<noteq> [] \<Longrightarrow> hd p \<notin> set a \<Longrightarrow> split_once p (a @ p @ b) = Some (a, b)"
proof (induction a)
  case Nil
  then show ?case by (cases p) auto
next
  case (Cons c a)
  then have "\<not> starts_with p (c # a @ p @ b)" by (cases p) auto
  with Cons show ?case by simp
qed

lemma split_once_char_iff:
  "split_once [d] s = Some (a, b) \<longleftrightarrow> s = a @ d # b \<and> d \<notin> set a"
proof
  assume *: "split_once [d] s = Some (a, b)"
  then have "d \<notin> set a"
    by (induction s arbitrary: a) (auto split: if_splits)
  with split_once_iff_Some [OF *] show "s = a @ d # b \<and> d \<notin> set a" by simp
qed (use split_once_first [of "[d]" a b] in simp)

lemma split_once_None_iff: "split_once p s = None \<longleftrightarrow> \<not> str_contains p s"
  by (induction s) auto

lemma digit_char_digit: "d < 10 \<Longrightarrow> is_ascii_digit (digit_char d)"
proof -
  have "list_all (\<lambda>d. is_ascii_digit (digit_char d)) [0..<10]" by code_simp
  then show "d < 10 \<Longrightarrow> is_ascii_digit (digit_char d)" by (simp add: list_all_iff)
qed

lemma digit_char_value: "d < 10 \<Longrightarrow> of_char (digit_char d) - 48 = (d :: nat)"
  by simp

lemma show_nat_digits: "c \<in> set (show_nat n) \<Longrightarrow> is_ascii_digit c"
proof (induction n rule: show_nat.induct)
  case (1 n)
  then show ?case
    by (subst (asm) (2) show_nat.simps)
       (auto split: if_splits simp del: digit_char.simps intro: digit_char_digit)
qed

lemma show_nat_not_Nil [simp]: "show_nat n \<noteq> []"
  by (subst show_nat.simps) simp

text \<open>Reading back what \<^const>\<open>show_nat\<close> wrote.\<close>

lemma digits_value_show_nat [simp]: "digits_value (show_nat n) = n"
proof (induction n rule: show_nat.induct)
  case (1 n)
  show ?case
  proof (cases "n < 10")
    case True
    then show ?thesis by (subst show_nat.simps) (simp add: digits_value_def)
  next
    case False
    then have "digits_value (show_nat (n div 10)) = n div 10" using 1 by simp
    with False show ?thesis
      by (subst show_nat.simps) (simp add: digits_value_def)
  qed
qed

lemma show_nat_inject [simp]: "show_nat m = show_nat n \<longleftrightarrow> m = n"
  by (metis digits_value_show_nat)

lemma digits_value_replicate_zero [simp]:
  "digits_value (replicate k CHR ''0'' @ s) = digits_value s"
  by (induction k) (simp_all add: digits_value_def)

text \<open>Decimal numbers without leading zeros are exactly what \<^const>\<open>show_nat\<close> writes.\<close>

lemma is_ascii_digit_iff: "is_ascii_digit c \<longleftrightarrow> (\<exists>d < 10. c = digit_char d)"
proof
  have "list_all (\<lambda>c. c = digit_char (of_char c - 48) \<and> of_char c - 48 < (10 :: nat)) ''0123456789''"
    by code_simp
  then show "is_ascii_digit c \<Longrightarrow> \<exists>d < 10. c = digit_char d"
    unfolding is_ascii_digit_def list_all_iff by blast
qed (auto simp del: digit_char.simps intro: digit_char_digit)

lemma show_nat_step: "10 \<le> n \<Longrightarrow> show_nat n = show_nat (n div 10) @ [digit_char (n mod 10)]"
  by (subst show_nat.simps) simp

lemma show_nat_small: "n < 10 \<Longrightarrow> show_nat n = [digit_char n]"
  by (subst show_nat.simps) simp

lemma show_nat_no_leading_zero: "starts_with ''0'' (show_nat n) \<Longrightarrow> n = 0"
proof (induction n rule: show_nat.induct)
  case (1 n)
  show ?case
  proof (cases "n < 10")
    case True
    have "list_all (\<lambda>d. digit_char d = CHR ''0'' \<longrightarrow> d = 0) [0..<10]" by code_simp
    then have "digit_char n = CHR ''0'' \<longrightarrow> n = 0"
      using True unfolding list_all_iff by (simp del: digit_char.simps)
    then show ?thesis
      using True 1(2) by (simp only: show_nat_small starts_with_Cons simp_thms)
  next
    case False
    then obtain c cs where c: "show_nat (n div 10) = c # cs" by (cases "show_nat (n div 10)") auto
    have "show_nat n = show_nat (n div 10) @ [digit_char (n mod 10)]"
      using False by (intro show_nat_step) simp
    then have "starts_with ''0'' (show_nat (n div 10))"
      using 1(2) by (simp only: c append_Cons starts_with_Cons starts_with_Nil)
    then have "n div 10 = 0" using 1(1) False by blast
    with False show ?thesis by simp
  qed
qed

lemma show_nat_digits_value:
  assumes "p \<noteq> []" and "\<forall>c \<in> set p. is_ascii_digit c" and "length p > 1 \<longrightarrow> \<not> starts_with ''0'' p"
  shows "show_nat (digits_value p) = p"
  using assms
proof (induction p rule: rev_induct)
  case (snoc c q)
  then obtain d where d: "d < 10" "c = digit_char d" by (auto simp: is_ascii_digit_iff)
  show ?case
  proof (cases "q = []")
    case True
    with d show ?thesis by (simp add: digits_value_def show_nat_small)
  next
    case False
    then have nz: "\<not> starts_with ''0'' q" using snoc.prems(3) by (cases q) (auto simp: starts_with_def)
    with False snoc have q: "show_nat (digits_value q) = q" by auto
    have "digits_value q \<noteq> 0"
    proof
      assume "digits_value q = 0"
      with q have "q = show_nat 0" by simp
      also have "show_nat 0 = ''0''" by code_simp
      finally show False using nz by simp
    qed
    moreover have "digits_value (q @ [c]) = 10 * digits_value q + d"
      using d by (simp add: digits_value_def)
    ultimately show ?thesis using q d by (simp add: show_nat_step)
  qed
qed simp

text \<open>Trimming removes nothing from a string that neither starts nor ends with a byte of a
  white-space character, and never touches such a byte.\<close>

definition ws_byte :: "char \<Rightarrow> bool" where
  "ws_byte c \<longleftrightarrow> list_ex (\<lambda>e. c \<in> set e) ws_encodings"

lemma strip_all_keep: "\<forall>p \<in> set ps. hd s \<notin> set p \<Longrightarrow> s \<noteq> [] \<Longrightarrow> strip_all ps s = s"
proof (subst strip_all.simps)
  assume ps: "\<forall>p \<in> set ps. hd s \<notin> set p" and "s \<noteq> []"
  then have "\<not> (p \<noteq> [] \<and> starts_with p s)" if "p \<in> set ps" for p
    using that by (cases p; cases s) auto
  then have "find (\<lambda>p. p \<noteq> [] \<and> starts_with p s) ps = None" by (simp add: find_None_iff)
  then show "(case find (\<lambda>p. p \<noteq> [] \<and> starts_with p s) ps of
      None \<Rightarrow> s | Some p \<Rightarrow> strip_all ps (drop (length p) s)) = s" by simp
qed

lemma starts_with_snoc: "c \<notin> set p \<Longrightarrow> starts_with p (s @ [c]) \<longleftrightarrow> starts_with p s"
proof (induction p arbitrary: s)
  case (Cons a p)
  then show ?case by (cases s) auto
qed simp

lemma strip_all_snoc: "\<forall>p \<in> set ps. c \<notin> set p \<Longrightarrow> strip_all ps (s @ [c]) = strip_all ps s @ [c]"
proof (induction ps s rule: strip_all.induct)
  case (1 ps s)
  then have eq: "find (\<lambda>p. p \<noteq> [] \<and> starts_with p (s @ [c])) ps =
      find (\<lambda>p. p \<noteq> [] \<and> starts_with p s) ps"
    by (intro find_cong) (auto simp: starts_with_snoc)
  show ?case
  proof (cases "find (\<lambda>p. p \<noteq> [] \<and> starts_with p s) ps")
    case None
    then show ?thesis using eq by (subst (1 2) strip_all.simps) simp
  next
    case (Some p)
    then have "starts_with p s" by (auto simp: find_Some_iff)
    then have "drop (length p) (s @ [c]) = drop (length p) s @ [c]"
      by (auto simp: starts_with_iff)
    then show ?thesis
      using Some eq 1 by (subst (1 2) strip_all.simps) simp
  qed
qed

lemma trim_start_keep: "\<not> ws_byte c \<Longrightarrow> trim_start (c # s) = c # s"
  unfolding trim_start_def by (rule strip_all_keep) (auto simp: ws_byte_def list_ex_iff)

lemma trim_end_Cons: "\<not> ws_byte c \<Longrightarrow> trim_end (c # s) = c # trim_end s"
  unfolding trim_end_def by (simp add: strip_all_snoc ws_byte_def list_ex_iff)

lemma trim_end_keep: "s \<noteq> [] \<Longrightarrow> \<not> ws_byte (last s) \<Longrightarrow> trim_end s = s"
  unfolding trim_end_def
  by (subst strip_all_keep) (auto simp: ws_byte_def list_ex_iff hd_rev)

lemma trim_Cons: "\<not> ws_byte c \<Longrightarrow> trim (c # s) = c # trim_end s"
  by (simp add: trim_def trim_start_keep trim_end_Cons)

lemma trim_id: "s \<noteq> [] \<Longrightarrow> \<not> ws_byte (hd s) \<Longrightarrow> \<not> ws_byte (last s) \<Longrightarrow> trim s = s"
  by (cases s) (simp_all add: trim_def trim_start_keep trim_end_keep)

section \<open>Maps\<close>

text \<open>
  The contract the clients of \<^verbatim>\<open>HashMap\<close> and \<^verbatim>\<open>BTreeMap\<close> rely on: a lookup after an insert,
  and entries that list every key once.
\<close>

locale key_value_map =
  fixes empty :: 'm
    and insert :: "'k \<Rightarrow> 'v \<Rightarrow> 'm \<Rightarrow> 'm"
    and lookup :: "'m \<Rightarrow> 'k \<Rightarrow> 'v option"
    and entries :: "'m \<Rightarrow> ('k \<times> 'v) list"
    and wf :: "'m \<Rightarrow> bool"
  assumes wf_empty: "wf empty"
    and wf_insert: "wf m \<Longrightarrow> wf (insert k v m)"
    and lookup_empty: "lookup empty k = None"
    and lookup_insert: "wf m \<Longrightarrow> lookup (insert k v m) k' = (if k' = k then Some v else lookup m k')"
    and lookup_entries: "wf m \<Longrightarrow> lookup m k = map_of (entries m) k"
    and distinct_entries: "wf m \<Longrightarrow> distinct (map fst (entries m))"
begin

definition collect :: "('k \<times> 'v) list \<Rightarrow> 'm" where
  "collect xs = foldl (\<lambda>m kv. insert (fst kv) (snd kv) m) empty xs"

lemma wf_foldl: "wf m \<Longrightarrow> wf (foldl (\<lambda>m kv. insert (fst kv) (snd kv) m) m xs)"
  by (induction xs arbitrary: m) (auto intro: wf_insert)

lemma wf_collect: "wf (collect xs)"
  by (simp add: collect_def wf_foldl wf_empty)

lemma lookup_foldl:
  "wf m \<Longrightarrow> lookup (foldl (\<lambda>m kv. insert (fst kv) (snd kv) m) m xs) k =
     (case map_of (rev xs) k of None \<Rightarrow> lookup m k | Some v \<Rightarrow> Some v)"
proof (induction xs arbitrary: m)
  case (Cons x xs)
  then show ?case
    by (auto simp: wf_insert lookup_insert map_add_def split: option.splits)
qed simp

text \<open>Collecting pairs keeps the last value of every key.\<close>

lemma lookup_collect: "lookup (collect xs) k = map_of (rev xs) k"
  by (simp add: collect_def lookup_foldl wf_empty lookup_empty split: option.splits)

lemma dom_lookup_collect: "dom (lookup (collect xs)) = fst ` set xs"
proof -
  have "lookup (collect xs) = map_of (rev xs)" by (simp add: lookup_collect fun_eq_iff)
  then show ?thesis by (simp add: dom_map_of_conv_image_fst)
qed

lemma lookup_collect_distinct:
  "distinct (map fst xs) \<Longrightarrow> lookup (collect xs) k = map_of xs k"
proof -
  assume d: "distinct (map fst xs)"
  then have "distinct (map fst (rev xs))" by (simp flip: rev_map)
  with d have "map_of (rev xs) = map_of xs" by (simp add: map_of_inject_set)
  then show ?thesis by (simp add: lookup_collect)
qed

lemma entries_collect: "set (entries (collect xs)) \<subseteq> set xs"
proof
  fix kv
  assume "kv \<in> set (entries (collect xs))"
  then have "map_of (entries (collect xs)) (fst kv) = Some (snd kv)"
    using distinct_entries [OF wf_collect, of xs] by (metis map_of_eq_Some_iff prod.collapse)
  then have "map_of (rev xs) (fst kv) = Some (snd kv)"
    by (simp flip: lookup_entries [OF wf_collect] add: lookup_collect)
  then show "kv \<in> set xs" by (auto dest: map_of_SomeD)
qed

lemma in_entries_iff: "wf m \<Longrightarrow> (k, v) \<in> set (entries m) \<longleftrightarrow> lookup m k = Some v"
  by (simp add: lookup_entries distinct_entries)

end

subsection \<open>HashMap\<close>

type_synonym ('k, 'v) hash_map = "('k \<times> 'v) list"

definition hm_wf :: "('k, 'v) hash_map \<Rightarrow> bool" where
  "hm_wf m \<longleftrightarrow> distinct (map fst m)"

definition hm_get :: "('k, 'v) hash_map \<Rightarrow> 'k \<Rightarrow> 'v option" where
  "hm_get m k = map_of m k"

definition hm_keys :: "('k, 'v) hash_map \<Rightarrow> 'k list" where
  "hm_keys m = map fst m"

definition hm_contains_key :: "('k, 'v) hash_map \<Rightarrow> 'k \<Rightarrow> bool" where
  "hm_contains_key m k \<longleftrightarrow> k \<in> set (map fst m)"

definition hm_insert :: "'k \<Rightarrow> 'v \<Rightarrow> ('k, 'v) hash_map \<Rightarrow> ('k, 'v) hash_map" where
  "hm_insert k v m = AList.update k v m"

definition hm_remove :: "'k \<Rightarrow> ('k, 'v) hash_map \<Rightarrow> ('k, 'v) hash_map" where
  "hm_remove k m = AList.delete k m"

text \<open>\<^verbatim>\<open>map.entry(k).or_insert(d)\<close> followed by an update of the value in place.\<close>

definition hm_entry :: "'k \<Rightarrow> 'v \<Rightarrow> ('v \<Rightarrow> 'v) \<Rightarrow> ('k, 'v) hash_map \<Rightarrow> ('k, 'v) hash_map" where
  "hm_entry k d f m = hm_insert k (f (unwrap_or d (hm_get m k))) m"

definition hm_collect :: "('k \<times> 'v) list \<Rightarrow> ('k, 'v) hash_map" where
  "hm_collect xs = foldl (\<lambda>m kv. hm_insert (fst kv) (snd kv) m) [] xs"

lemma hm_key_value_map: "key_value_map [] hm_insert hm_get (\<lambda>m. m) hm_wf"
proof unfold_locales
  fix m :: "('a \<times> 'b) list" and k :: 'a and v :: 'b and k' :: 'a
  show "hm_wf ([] :: ('a \<times> 'b) list)" by (simp add: hm_wf_def)
  show "hm_wf m \<Longrightarrow> hm_wf (hm_insert k v m)"
    by (simp add: hm_wf_def hm_insert_def distinct_update)
  show "hm_get ([] :: ('a \<times> 'b) list) k = None" by (simp add: hm_get_def)
  show "hm_get (hm_insert k v m) k' = (if k' = k then Some v else hm_get m k')"
    by (simp add: hm_get_def hm_insert_def update_conv')
  show "hm_get m k = map_of m k" by (simp add: hm_get_def)
  show "hm_wf m \<Longrightarrow> distinct (map fst m)" by (simp add: hm_wf_def)
qed

interpretation hm: key_value_map "[]" hm_insert hm_get "\<lambda>m. m" hm_wf
  rewrites "key_value_map.collect [] hm_insert = hm_collect"
proof -
  show kv: "key_value_map [] hm_insert hm_get (\<lambda>m. m) hm_wf" by (rule hm_key_value_map)
  show "key_value_map.collect [] hm_insert = hm_collect"
    by (intro ext) (simp add: key_value_map.collect_def [OF kv] hm_collect_def)
qed

lemma hm_get_insert [simp]: "hm_get (hm_insert k v m) k' = (if k' = k then Some v else hm_get m k')"
  by (simp add: hm_get_def hm_insert_def update_conv')

lemma hm_get_remove [simp]: "hm_get (hm_remove k m) k' = (if k' = k then None else hm_get m k')"
  by (simp add: hm_get_def hm_remove_def delete_conv')

lemma hm_get_Nil [simp]: "hm_get [] k = None"
  by (simp add: hm_get_def)

lemma hm_wf_insert [simp]: "hm_wf m \<Longrightarrow> hm_wf (hm_insert k v m)"
  by (rule hm.wf_insert)

lemma hm_wf_remove [simp]: "hm_wf m \<Longrightarrow> hm_wf (hm_remove k m)"
  by (simp add: hm_wf_def hm_remove_def distinct_delete)

lemma hm_wf_entry [simp]: "hm_wf m \<Longrightarrow> hm_wf (hm_entry k d f m)"
  by (simp add: hm_entry_def)

lemma hm_get_entry [simp]:
  "hm_get (hm_entry k d f m) k' = (if k' = k then Some (f (unwrap_or d (hm_get m k))) else hm_get m k')"
  by (simp add: hm_entry_def)

lemma hm_contains_key_get: "hm_contains_key m k \<longleftrightarrow> hm_get m k \<noteq> None"
  by (auto simp: hm_contains_key_def hm_get_def map_of_eq_None_iff)

lemma hm_get_in_iff: "hm_wf m \<Longrightarrow> (k, v) \<in> set m \<longleftrightarrow> hm_get m k = Some v"
  by (rule hm.in_entries_iff)

lemma hm_keys_get: "k \<in> set (hm_keys m) \<longleftrightarrow> hm_get m k \<noteq> None"
  by (auto simp: hm_keys_def hm_get_def map_of_eq_None_iff)

lemma hm_distinct_keys: "hm_wf m \<Longrightarrow> distinct (hm_keys m)"
  by (simp add: hm_wf_def hm_keys_def)

text \<open>Two iteration orders of one map hold the same entries.\<close>

lemma hm_same_mset:
  assumes "hm_wf m" and "hm_wf m'" and "hm_get m = hm_get m'"
  shows "mset m = mset m'"
proof -
  have "set m = set m'" using assms by (auto simp: hm_get_in_iff)
  moreover have "distinct m" and "distinct m'"
    using assms by (auto simp: hm_wf_def distinct_map)
  ultimately show ?thesis by (simp add: set_eq_iff_mset_eq_distinct)
qed

subsection \<open>BTreeMap and BTreeSet\<close>

type_synonym ('k, 'v) btree_map = "('k \<times> 'v) list"

fun bt_insert :: "'k::linorder \<Rightarrow> 'v \<Rightarrow> ('k, 'v) btree_map \<Rightarrow> ('k, 'v) btree_map" where
  "bt_insert k v [] = [(k, v)]"
| "bt_insert k v ((k', v') # m) =
     (if k < k' then (k, v) # (k', v') # m
      else if k = k' then (k, v) # m
      else (k', v') # bt_insert k v m)"

definition bt_get :: "('k, 'v) btree_map \<Rightarrow> 'k \<Rightarrow> 'v option" where
  "bt_get m k = map_of m k"

definition bt_contains_key :: "('k, 'v) btree_map \<Rightarrow> 'k \<Rightarrow> bool" where
  "bt_contains_key m k \<longleftrightarrow> k \<in> set (map fst m)"

definition bt_wf :: "('k::linorder, 'v) btree_map \<Rightarrow> bool" where
  "bt_wf m \<longleftrightarrow> sorted_wrt (<) (map fst m)"

definition bt_collect :: "('k::linorder \<times> 'v) list \<Rightarrow> ('k, 'v) btree_map" where
  "bt_collect xs = foldl (\<lambda>m kv. bt_insert (fst kv) (snd kv) m) [] xs"

definition btree_set :: "'k::linorder list \<Rightarrow> 'k list" where
  "btree_set xs = map fst (bt_collect (map (\<lambda>x. (x, ())) xs))"

lemma keys_bt_insert [simp]: "fst ` set (bt_insert k v m) = insert k (fst ` set m)"
  by (induction k v m rule: bt_insert.induct) (simp_all add: insert_commute)

lemma bt_wf_insert [simp]: "bt_wf m \<Longrightarrow> bt_wf (bt_insert k v m)"
proof (induction m)
  case (Cons kv m)
  then show ?case
    by (cases kv) (auto simp: bt_wf_def Ball_def image_iff [symmetric] dest: order.strict_trans)
qed (simp add: bt_wf_def)

lemma bt_get_insert [simp]:
  "bt_wf m \<Longrightarrow> bt_get (bt_insert k v m) k' = (if k' = k then Some v else bt_get m k')"
  by (induction m) (auto simp: bt_get_def bt_wf_def)

interpretation bt: key_value_map "[]" bt_insert bt_get "\<lambda>m. m" bt_wf
  rewrites "key_value_map.collect [] bt_insert = bt_collect"
proof -
  show kv: "key_value_map [] bt_insert bt_get (\<lambda>m. m) bt_wf"
  proof unfold_locales
    show "bt_wf []" by (simp add: bt_wf_def)
    show "bt_get [] k = None" for k by (simp add: bt_get_def)
    show "bt_get m k = map_of m k" for m k by (simp add: bt_get_def)
    show "bt_wf m \<Longrightarrow> distinct (map fst m)" for m by (simp add: bt_wf_def strict_sorted_iff)
  qed simp_all
  show "key_value_map.collect [] bt_insert = bt_collect"
    by (intro ext) (simp add: key_value_map.collect_def [OF kv] bt_collect_def)
qed

lemma set_btree_set [simp]: "set (btree_set xs) = set xs"
proof -
  have "fst ` set (foldl (\<lambda>m kv. bt_insert (fst kv) (snd kv) m) m (map (\<lambda>x. (x, ())) xs)) =
      fst ` set m \<union> set xs" for m
    by (induction xs arbitrary: m) auto
  from this [of "[]"] show ?thesis by (simp add: btree_set_def bt_collect_def)
qed

lemma sorted_btree_set: "sorted_wrt (<) (btree_set xs)"
  using bt.wf_collect by (auto simp: btree_set_def bt_wf_def)

lemma distinct_btree_set: "distinct (btree_set xs)"
  using sorted_btree_set strict_sorted_iff by blast

lemma bt_contains_key_get: "bt_contains_key m k \<longleftrightarrow> bt_get m k \<noteq> None"
  by (auto simp: bt_contains_key_def bt_get_def map_of_eq_None_iff)

end
