(* ===== verification/Config.thy ===== *)
theory Config
  imports Rust_Std
begin

text \<open>
  The configuration records of \<^verbatim>\<open>sdkt-core/src/config.rs\<close> and the interface to the operating
  system the components run against.

  Everything outside the repository is a field of the record \<open>sys\<close>, over an arbitrary type
  \<open>'w\<close> of machine states: the file system, the \<^verbatim>\<open>git\<close> executable, SHA-256, TOML and the
  \<^verbatim>\<open>semver\<close> crate. Commands that only look (\<^verbatim>\<open>git ls-remote\<close>, \<^verbatim>\<open>git rev-parse\<close>) go through
  \<open>sys_query\<close>, commands that change a checkout (\<^verbatim>\<open>clone\<close>, \<^verbatim>\<open>fetch\<close>, \<^verbatim>\<open>checkout\<close>) through
  \<open>sys_exec\<close>. The parsing of TOML text into these records is the job of the \<^verbatim>\<open>toml\<close> crate and
  is not modelled.
\<close>

section \<open>Configuration records\<close>

record contract_config =
  cc_path :: string
  cc_deploy_after :: "string list"
  cc_depends_on :: "string list"
  cc_ctor_args :: "string list"

record package_config =
  pkg_name :: "string option"
  pkg_version :: "string option"
  pkg_description :: "string option"

record dependency =
  dep_path :: "string option"
  dep_git :: "string option"
  dep_tag :: "string option"
  dep_branch :: "string option"
  dep_rev :: "string option"
  dep_version :: "string option"

record network_config =
  nc_rpc_url :: string
  nc_passphrase :: string
  nc_timeout_secs :: "nat option"
  nc_pool_max_idle_per_host :: "nat option"

record decode_config =
  dc_max_depth :: nat
  dc_allow_fallback_hex :: bool

record storage_config =
  sc_max_entries :: nat
  sc_ttl_warning_days :: nat

record devkit_config =
  network :: network_config
  decode :: decode_config
  storage :: storage_config
  contracts :: "(string, contract_config) hash_map"
  package :: "package_config option"
  dependencies :: "(string, dependency) hash_map"

definition default_dependency :: dependency where
  "default_dependency =
     \<lparr>dep_path = None, dep_git = None, dep_tag = None, dep_branch = None, dep_rev = None,
      dep_version = None\<rparr>"

definition default_network_config :: network_config where
  "default_network_config =
     \<lparr>nc_rpc_url = ''https://soroban-testnet.stellar.org'',
      nc_passphrase = ''Test SDF Network ; September 2015'',
      nc_timeout_secs = Some 15, nc_pool_max_idle_per_host = Some 100\<rparr>"

definition default_decode_config :: decode_config where
  "default_decode_config = \<lparr>dc_max_depth = 500, dc_allow_fallback_hex = True\<rparr>"

definition default_storage_config :: storage_config where
  "default_storage_config = \<lparr>sc_max_entries = 200, sc_ttl_warning_days = 30\<rparr>"

definition default_config :: devkit_config where
  "default_config =
     \<lparr>network = default_network_config, decode = default_decode_config,
      storage = default_storage_config, contracts = [], package = None, dependencies = []\<rparr>"

text \<open>The keys of the two maps of a configuration are distinct.\<close>

definition config_wf :: "devkit_config \<Rightarrow> bool" where
  "config_wf cfg \<longleftrightarrow> hm_wf (contracts cfg) \<and> hm_wf (dependencies cfg)"

section \<open>The operating system and third-party code\<close>

record proc_output =
  po_success :: bool
  po_code :: "int option"
  po_stdout :: string
  po_stderr :: string

record ('w, 'ver, 'req) sys =
  sys_exists :: "'w \<Rightarrow> string \<Rightarrow> bool"
  sys_is_dir :: "'w \<Rightarrow> string \<Rightarrow> bool"
  sys_read_dir :: "'w \<Rightarrow> string \<Rightarrow> string list option"
  sys_is_file :: "'w \<Rightarrow> string \<Rightarrow> bool"
  sys_read :: "'w \<Rightarrow> string \<Rightarrow> string + string"
  sys_read_to_string :: "'w \<Rightarrow> string \<Rightarrow> string + string"
  sys_write :: "'w \<Rightarrow> string \<Rightarrow> string \<Rightarrow> string + 'w"
  sys_create_dir_all :: "'w \<Rightarrow> string \<Rightarrow> string + 'w"
  sys_query :: "'w \<Rightarrow> string option \<Rightarrow> string \<Rightarrow> string list \<Rightarrow> proc_output option"
  sys_exec :: "'w \<Rightarrow> string \<Rightarrow> string \<Rightarrow> string list \<Rightarrow> 'w \<times> proc_output option"
  sys_sha256_hex :: "string \<Rightarrow> string"
  sys_version_parse :: "string \<Rightarrow> 'ver option"
  sys_version_ge :: "'ver \<Rightarrow> 'ver \<Rightarrow> bool"
  sys_req_parse :: "string \<Rightarrow> 'req option"
  sys_req_matches :: "'req \<Rightarrow> 'ver \<Rightarrow> bool"

text \<open>
  The operations that may fail return a sum whose left side is the text of the I/O error. A
  computation that changes the machine is a function from the machine to the machine and a
  result; \<open>io_bind\<close> is the \<^verbatim>\<open>?\<close> operator for it, and an error keeps the changes made before it.
\<close>

type_synonym ('w, 'a, 'e) io = "'w \<Rightarrow> 'w \<times> ('a, 'e) result"

definition io_return :: "('a, 'e) result \<Rightarrow> ('w, 'a, 'e) io" where
  "io_return r = (\<lambda>w. (w, r))"

definition io_bind :: "('w, 'a, 'e) io \<Rightarrow> ('a \<Rightarrow> ('w, 'b, 'e) io) \<Rightarrow> ('w, 'b, 'e) io" where
  "io_bind m f = (\<lambda>w. case m w of
     (w', Ok x) \<Rightarrow> f x w'
   | (w', Err e) \<Rightarrow> (w', Err e)
   | (w', Panic) \<Rightarrow> (w', Panic))"

definition io_map_err :: "('e \<Rightarrow> 'f) \<Rightarrow> ('w, 'a, 'e) io \<Rightarrow> ('w, 'a, 'f) io" where
  "io_map_err f m = (\<lambda>w. map_prod id (map_err f) (m w))"

text \<open>A loop whose body changes the machine and may return early.\<close>

fun io_fold :: "('s \<Rightarrow> 'x \<Rightarrow> ('w, 's, 'e) io) \<Rightarrow> 's \<Rightarrow> 'x list \<Rightarrow> ('w, 's, 'e) io" where
  "io_fold f s [] = io_return (Ok s)"
| "io_fold f s (x # xs) = io_bind (f s x) (\<lambda>s'. io_fold f s' xs)"

lemma io_return_Ok [simp]: "io_return r w = (w, r)"
  by (simp add: io_return_def)

lemma io_bind_Ok_iff:
  "io_bind m f w = (w', Ok y) \<longleftrightarrow> (\<exists>w1 x. m w = (w1, Ok x) \<and> f x w1 = (w', Ok y))"
  by (auto simp: io_bind_def split: prod.splits result.splits)

lemma io_bind_OkE:
  assumes "io_bind m f w = (w', Ok y)"
  obtains w1 x where "m w = (w1, Ok x)" and "f x w1 = (w', Ok y)"
  using assms by (auto simp: io_bind_Ok_iff)

lemma io_map_err_Ok_iff [simp]: "io_map_err f m w = (w', Ok y) \<longleftrightarrow> m w = (w', Ok y)"
  by (cases "m w") (auto simp: io_map_err_def)

text \<open>A computation that never panics.\<close>

definition io_safe :: "('w, 'a, 'e) io \<Rightarrow> bool" where
  "io_safe m \<longleftrightarrow> (\<forall>w. snd (m w) \<noteq> Panic)"

lemma io_safe_bind:
  assumes "io_safe m" and "\<And>x. io_safe (f x)"
  shows "io_safe (io_bind m f)"
  unfolding io_safe_def
proof
  fix w
  obtain w' r where m: "m w = (w', r)" by fastforce
  then have "r \<noteq> Panic" using assms(1) unfolding io_safe_def by (metis snd_conv)
  then show "snd (io_bind m f w) \<noteq> Panic"
    using assms(2) by (cases r) (auto simp: io_bind_def m io_safe_def)
qed

lemma io_safe_return [simp]: "io_safe (io_return r) \<longleftrightarrow> r \<noteq> Panic"
  by (simp add: io_safe_def)

lemma io_safe_if: "io_safe m \<Longrightarrow> io_safe n \<Longrightarrow> io_safe (if b then m else n)"
  by simp

lemma io_safe_fold: "(\<And>s x. io_safe (f s x)) \<Longrightarrow> io_safe (io_fold f s xs)"
  by (induction xs arbitrary: s) (auto intro: io_safe_bind)

text \<open>The components of a Unix path, and \<^verbatim>\<open>Path::extension\<close>: what follows the last dot of the
  file name, unless that dot is its first character.\<close>

definition path_file_name :: "string \<Rightarrow> string" where
  "path_file_name p = last (split_on CHR ''/'' p)"

definition path_extension :: "string \<Rightarrow> string option" where
  "path_extension p =
     (let f = path_file_name p; ext = rev (takeWhile (\<lambda>c. c \<noteq> CHR ''.'') (rev f))
      in if f = ''..'' \<or> length f \<le> length ext + 1 then None else Some ext)"

lemma path_extension_eval:
  "path_extension ''/w/target/release/token.wasm'' = Some ''wasm''"
  "path_extension ''/w/.wasm'' = None"
  "path_extension ''/w/Makefile'' = None"
  by code_simp+

text \<open>The first entry of a directory with the extension \<^verbatim>\<open>wasm\<close>.\<close>

definition first_wasm :: "('w, 'ver, 'req) sys \<Rightarrow> 'w \<Rightarrow> string \<Rightarrow> string option" where
  "first_wasm S w dir =
     (if sys_exists S w dir then
        (case sys_read_dir S w dir of
           None \<Rightarrow> None
         | Some entries \<Rightarrow> find (\<lambda>p. path_extension p = Some ''wasm'') entries)
      else None)"

lemma first_wasm_Some:
  "first_wasm S w dir = Some p \<Longrightarrow>
     path_extension p = Some ''wasm'' \<and> (\<exists>es. sys_read_dir S w dir = Some es \<and> p \<in> set es)"
  by (auto simp: first_wasm_def find_Some_iff split: if_splits option.splits)

section \<open>A machine for the examples\<close>

text \<open>A concrete machine without a state: every directory holds one build artifact, versions are
  lists of numbers and the only constraints are \<^verbatim>\<open>>=\<close> constraints.\<close>

definition parse_version_list :: "string \<Rightarrow> nat list option" where
  "parse_version_list s =
     (let ps = split_on CHR ''.'' s in
      if list_all (\<lambda>p. p \<noteq> [] \<and> list_all is_ascii_digit p) ps then Some (map digits_value ps) else None)"

definition example_sys :: "(unit, nat list, nat list) sys" where
  "example_sys =
     \<lparr>sys_exists = \<lambda>_ _. True, sys_is_dir = \<lambda>_ _. True,
      sys_read_dir = \<lambda>_ d. Some [d @ ''/.cargo-lock'', d @ ''/c.wasm''], sys_is_file = \<lambda>_ _. True,
      sys_read = \<lambda>_ p. Inr p, sys_read_to_string = \<lambda>_ p. Inr p,
      sys_write = \<lambda>w _ _. Inr w, sys_create_dir_all = \<lambda>w _. Inr w, sys_query = \<lambda>_ _ _ _. None,
      sys_exec = \<lambda>w _ _ _. (w, None), sys_sha256_hex = \<lambda>s. s,
      sys_version_parse = parse_version_list, sys_version_ge = \<lambda>a b. b \<le> a,
      sys_req_parse = \<lambda>c. Option.bind (strip_prefix ''>='' c) parse_version_list,
      sys_req_matches = \<lambda>r v. r \<le> v\<rparr>"

end
