(* ===== verification/Topo_Sort.thy ===== *)
theory Topo_Sort
  imports Rust_Std
begin

text \<open>
  The shared topological sort of \<^verbatim>\<open>sdkt-core\<close> (\<^verbatim>\<open>package.rs\<close>, \<open>topo_sort\<close>): Kahn's algorithm
  over a string-keyed dependency graph, used by the deploy-order resolver and by the
  package manifest validator.

  The model keeps the three hash maps of the source. \<open>relax\<close> is the inner loop over the
  neighbours of the node just taken, with the decrement of an unsigned counter at zero as a
  panic; \<open>kahn\<close> is the outer \<^verbatim>\<open>while let\<close> loop, whose termination is proved; \<open>topo_sort\<close>
  builds the maps and decides the result. The abstract specification is the least set of
  \<open>resolvable\<close> nodes: a node all of whose dependencies are resolvable. The interface other
  components use is the locale \<open>topological_sorter\<close> at the end.
\<close>

type_synonym graph = "(string, string list) hash_map"

section \<open>The algorithm\<close>

text \<open>The two initialising loops: every node, then every edge.\<close>

definition topo_nodes :: "graph \<Rightarrow> (string, nat) hash_map \<times> graph" where
  "topo_nodes g =
     foldl (\<lambda>(deg, adj) node. (hm_entry node 0 (\<lambda>d. d) deg, hm_entry node [] (\<lambda>l. l) adj))
       ([], []) (hm_keys g)"

definition topo_edge ::
  "string \<Rightarrow> (string, nat) hash_map \<times> graph \<Rightarrow> string \<Rightarrow> (string, nat) hash_map \<times> graph" where
  "topo_edge node = (\<lambda>(deg, adj) dep.
     (hm_entry node 0 Suc deg, hm_entry dep [] (\<lambda>l. l @ [node]) adj))"

definition topo_edges ::
  "graph \<Rightarrow> (string, nat) hash_map \<times> graph \<Rightarrow> (string, nat) hash_map \<times> graph" where
  "topo_edges g s = foldl (\<lambda>s (node, deps). foldl (topo_edge node) s deps) s g"

text \<open>The inner loop: decrement each neighbour and enqueue the ones that reach zero.\<close>

fun relax ::
  "string list \<Rightarrow> (string, nat) hash_map \<Rightarrow> string list \<Rightarrow>
   ((string, nat) hash_map \<times> string list, string) result" where
  "relax [] deg queue = Ok (deg, queue)"
| "relax (nb # nbs) deg queue =
     (case hm_get deg nb of
        None \<Rightarrow> relax nbs deg queue
      | Some 0 \<Rightarrow> Panic
      | Some (Suc d) \<Rightarrow>
          relax nbs (hm_insert nb d deg) (if d = 0 then queue @ [nb] else queue))"

text \<open>Each round takes one node off the queue, and an enqueued node costs one unit of
  in-degree, so the sum of both shrinks: the loop always ends.\<close>

lemma sum_hm_insert_pred:
  "hm_get m k = Some (Suc d) \<Longrightarrow> Suc (sum_list (map snd (hm_insert k d m))) = sum_list (map snd m)"
  by (induction m) (auto simp: hm_get_def hm_insert_def split: if_splits)

lemma relax_measure:
  "relax nbs deg queue = Ok (deg', queue') \<Longrightarrow>
     sum_list (map snd deg') + length queue' \<le> sum_list (map snd deg) + length queue"
proof (induction nbs deg queue rule: relax.induct)
  case (2 nb nbs deg queue)
  show ?case
  proof (cases "hm_get deg nb")
    case None
    then show ?thesis using 2 by simp
  next
    case (Some k)
    then obtain d where d: "hm_get deg nb = Some (Suc d)"
      using "2.prems" by (cases k) auto
    then have "sum_list (map snd deg') + length queue' \<le>
        sum_list (map snd (hm_insert nb d deg)) + length (if d = 0 then queue @ [nb] else queue)"
      using 2 by simp
    then show ?thesis using sum_hm_insert_pred [OF d] by (auto split: if_splits)
  qed
qed simp

function kahn ::
  "graph \<Rightarrow> (string, nat) hash_map \<Rightarrow> string list \<Rightarrow> string list \<Rightarrow>
   ((string, nat) hash_map \<times> string list, string) result" where
  "kahn adj deg [] ordered = Ok (deg, ordered)"
| "kahn adj deg (current # queue) ordered =
     (case relax (unwrap_or [] (hm_get adj current)) deg queue of
        Ok (deg', queue') \<Rightarrow> kahn adj deg' (sort queue') (ordered @ [current])
      | Err e \<Rightarrow> Err e
      | Panic \<Rightarrow> Panic)"
  by pat_completeness auto
termination
  by (relation "measure (\<lambda>(adj, deg, queue, ordered). sum_list (map snd deg) + length queue)")
     (auto dest: relax_measure)

definition topo_sort :: "graph \<Rightarrow> (string list, string) result" where
  "topo_sort g =
     (let (deg, adj) = topo_edges g (topo_nodes g);
          queue = sort (map fst (filter (\<lambda>(n, d). d = 0) deg))
      in and_then (kahn adj deg queue []) (\<lambda>(deg', ordered).
           if length ordered \<noteq> length g then
             (case find (\<lambda>(n, d). 0 < d) deg' of
                Some (n, d) \<Rightarrow> Err n
              | None \<Rightarrow> Err ''Unknown'')
           else Ok ordered))"

section \<open>What the maps hold\<close>

definition deps_of :: "graph \<Rightarrow> string \<Rightarrow> string list" where
  "deps_of g n = unwrap_or [] (hm_get g n)"

definition node :: "graph \<Rightarrow> string \<Rightarrow> bool" where
  "node g n \<longleftrightarrow> hm_contains_key g n"

definition edges_of :: "graph \<Rightarrow> (string \<times> string) list" where
  "edges_of g = concat (map (\<lambda>(n, ds). map (\<lambda>d. (n, d)) ds) g)"

lemma topo_maps:
  "topo_edges g (topo_nodes g) =
     (foldl (\<lambda>m e. hm_entry (fst e) 0 Suc m)
        (foldl (\<lambda>m n. hm_entry n 0 (\<lambda>d. d) m) [] (hm_keys g)) (edges_of g),
      foldl (\<lambda>m e. hm_entry (snd e) [] (\<lambda>l. l @ [fst e]) m)
        (foldl (\<lambda>m n. hm_entry n [] (\<lambda>l. l) m) [] (hm_keys g)) (edges_of g))"
proof -
  have "topo_edges g s =
      foldl (\<lambda>(deg, adj) e. (hm_entry (fst e) 0 Suc deg, hm_entry (snd e) [] (\<lambda>l. l @ [fst e]) adj))
        s (edges_of g)" for s
    unfolding topo_edges_def edges_of_def
    by (subst foldl_concat_map [symmetric])
       (auto simp: topo_edge_def foldl_map case_prod_beta intro!: foldl_cong)
  then show ?thesis by (simp add: topo_nodes_def foldl_pair)
qed

lemma get_init_nodes:
  assumes "\<forall>n. unwrap_or d (hm_get m n) = d"
  shows "hm_get (foldl (\<lambda>m n. hm_entry n d (\<lambda>x. x) m) m ks) n =
    (if n \<in> set ks then Some d else hm_get m n)"
  using assms
proof (induction ks arbitrary: m)
  case (Cons k ks)
  then have "\<forall>n. unwrap_or d (hm_get (hm_entry k d (\<lambda>x. x) m) n) = d" by auto
  from Cons.IH [OF this] show ?case using Cons.prems by auto
qed simp

lemma wf_foldl_entry:
  "hm_wf m \<Longrightarrow> hm_wf (foldl (\<lambda>m x. hm_entry (k x) d (f x) m) m xs)"
  by (induction xs arbitrary: m) auto

lemma get_count_edges:
  "hm_get (foldl (\<lambda>m e. hm_entry (fst e) 0 Suc m) m es) n =
     (if n \<in> fst ` set es then Some (unwrap_or 0 (hm_get m n) + count_list (map fst es) n)
      else hm_get m n)"
  by (induction es arbitrary: m) (auto simp: image_iff)

lemma get_adj_edges:
  "unwrap_or [] (hm_get (foldl (\<lambda>m e. hm_entry (snd e) [] (\<lambda>l. l @ [fst e]) m) m es) d) =
     unwrap_or [] (hm_get m d) @ map fst (filter (\<lambda>e. snd e = d) es)"
  by (induction es arbitrary: m) auto

lemma in_edges_of: "hm_wf g \<Longrightarrow> (n, d) \<in> set (edges_of g) \<longleftrightarrow> d \<in> set (deps_of g n)"
proof -
  assume wf: "hm_wf g"
  have "(n, d) \<in> set (edges_of g) \<longleftrightarrow> (\<exists>ds. (n, ds) \<in> set g \<and> d \<in> set ds)"
    by (auto simp: edges_of_def)
  also have "\<dots> \<longleftrightarrow> d \<in> set (deps_of g n)"
    using hm_get_in_iff [OF wf] by (cases "hm_get g n") (auto simp: deps_of_def)
  finally show ?thesis .
qed

lemma count_edges_aux:
  "hm_wf g \<Longrightarrow>
     count_list (map fst (filter (\<lambda>e. snd e = d) (edges_of g))) n = count_list (deps_of g n) d \<and>
     count_list (map fst (edges_of g)) n = length (deps_of g n)"
proof (induction g)
  case (Cons kv g)
  obtain k ds where kv: "kv = (k, ds)" by (cases kv)
  have A: "count_list (map fst (filter (\<lambda>e. snd e = d) (map (Pair k) ds))) n =
      (if n = k then count_list ds d else 0)" by (induction ds) auto
  have B: "count_list (map fst (map (Pair k) ds)) n = (if n = k then length ds else 0)"
    by (induction ds) auto
  have "deps_of g k = []" using Cons.prems kv
    by (auto simp: deps_of_def hm_wf_def hm_get_def dest: map_of_eq_None_iff [THEN iffD2])
  moreover have "edges_of (kv # g) = map (Pair k) ds @ edges_of g"
    by (simp add: edges_of_def kv)
  moreover have "deps_of (kv # g) n = (if n = k then ds else deps_of g n)"
    by (simp add: deps_of_def hm_get_def kv)
  ultimately show ?case using Cons A B kv by (auto simp: hm_wf_def)
qed (simp add: edges_of_def deps_of_def)

lemmas count_edges = count_edges_aux [THEN conjunct1] count_edges_aux [THEN conjunct2]

text \<open>The maps at the start of the main loop.\<close>

lemma topo_maps_spec:
  assumes wf: "hm_wf g" and maps: "topo_edges g (topo_nodes g) = (deg, adj)"
  shows "hm_get deg n = (if node g n then Some (length (deps_of g n)) else None)"
    and "count_list (unwrap_or [] (hm_get adj d)) n = count_list (deps_of g n) d"
    and "hm_wf deg"
proof -
  have deg: "deg = foldl (\<lambda>m e. hm_entry (fst e) 0 Suc m)
        (foldl (\<lambda>m n. hm_entry n 0 (\<lambda>d. d) m) [] (hm_keys g)) (edges_of g)"
    and adj: "adj = foldl (\<lambda>m e. hm_entry (snd e) [] (\<lambda>l. l @ [fst e]) m)
        (foldl (\<lambda>m n. hm_entry n [] (\<lambda>l. l) m) [] (hm_keys g)) (edges_of g)"
    using maps unfolding topo_maps by auto
  have key: "n \<in> set (hm_keys g) \<longleftrightarrow> node g n" for n
    by (simp add: node_def hm_keys_get hm_contains_key_get)
  have src: "n \<in> fst ` set (edges_of g) \<Longrightarrow> node g n" for n
    using in_edges_of [OF wf, of n]
    by (cases "hm_get g n") (auto simp: node_def hm_contains_key_get deps_of_def)
  have "deps_of g n = []" if "n \<notin> fst ` set (edges_of g)"
  proof (rule ccontr)
    assume "deps_of g n \<noteq> []"
    then have "(n, hd (deps_of g n)) \<in> set (edges_of g)" by (simp add: in_edges_of [OF wf])
    then show False using that by (metis fst_conv image_eqI)
  qed
  then show "hm_get deg n = (if node g n then Some (length (deps_of g n)) else None)"
    using src [of n] count_edges(2) [OF wf]
    by (auto simp: deg get_count_edges get_init_nodes key)
  show "count_list (unwrap_or [] (hm_get adj d)) n = count_list (deps_of g n) d"
    by (auto simp: adj get_adj_edges get_init_nodes count_edges(1) [OF wf])
  show "hm_wf deg" unfolding deg by (intro wf_foldl_entry) (simp add: hm_wf_def)
qed


section \<open>The main loop\<close>

text \<open>One round of the inner loop, when no counter is below what will be taken off it.\<close>

lemma relax_spec:
  assumes "\<forall>n d. hm_get deg n = Some d \<longrightarrow> count_list nbs n \<le> d"
  shows "\<exists>deg' r. relax nbs deg q = Ok (deg', q @ r) \<and>
      (\<forall>n. hm_get deg' n = map_option (\<lambda>d. d - count_list nbs n) (hm_get deg n)) \<and>
      distinct r \<and>
      (\<forall>n. n \<in> set r \<longleftrightarrow> (\<exists>d. hm_get deg n = Some d \<and> 0 < d \<and> count_list nbs n = d)) \<and>
      (hm_wf deg \<longrightarrow> hm_wf deg')"
  using assms
proof (induction nbs arbitrary: deg q)
  case Nil
  have "hm_get deg n = map_option (\<lambda>d. d) (hm_get deg n)" for n by (cases "hm_get deg n") auto
  then show ?case by auto
next
  case (Cons nb nbs)
  show ?case
  proof (cases "hm_get deg nb")
    case None
    have ne: "count_list (nb # nbs) n = count_list nbs n" if "hm_get deg n = Some d" for n d
      using None that by auto
    have "\<forall>n d. hm_get deg n = Some d \<longrightarrow> count_list nbs n \<le> d"
      using Cons.prems ne by metis
    moreover have "map_option (\<lambda>d. d - count_list nbs n) (hm_get deg n) =
        map_option (\<lambda>d. d - count_list (nb # nbs) n) (hm_get deg n)" for n
      by (cases "hm_get deg n") (use ne in auto)
    moreover have "(\<exists>d. hm_get deg n = Some d \<and> 0 < d \<and> count_list nbs n = d) \<longleftrightarrow>
        (\<exists>d. hm_get deg n = Some d \<and> 0 < d \<and> count_list (nb # nbs) n = d)" for n
      using ne by metis
    moreover have "relax (nb # nbs) deg q = relax nbs deg q" using None by simp
    ultimately show ?thesis using Cons.IH [of deg q] by presburger
  next
    case (Some k)
    then obtain d where d: "hm_get deg nb = Some (Suc d)" and le: "count_list nbs nb \<le> d"
      using Cons.prems by (cases k) force+
    let ?q = "if d = 0 then q @ [nb] else q"
    have "\<forall>n e. hm_get (hm_insert nb d deg) n = Some e \<longrightarrow> count_list nbs n \<le> e"
      using Cons.prems le by (auto split: if_splits)
    from Cons.IH [OF this, of ?q] obtain deg' r where
      run: "relax nbs (hm_insert nb d deg) ?q = Ok (deg', ?q @ r)"
      and get: "\<forall>n. hm_get deg' n =
        map_option (\<lambda>e. e - count_list nbs n) (hm_get (hm_insert nb d deg) n)"
      and dist: "distinct r"
      and r: "\<forall>n. n \<in> set r \<longleftrightarrow>
        (\<exists>e. hm_get (hm_insert nb d deg) n = Some e \<and> 0 < e \<and> count_list nbs n = e)"
      and wf: "hm_wf (hm_insert nb d deg) \<longrightarrow> hm_wf deg'"
      by blast
    let ?r = "(if d = 0 then [nb] else []) @ r"
    have "relax (nb # nbs) deg q = Ok (deg', q @ ?r)" using run d by auto
    moreover have "\<forall>n. hm_get deg' n = map_option (\<lambda>e. e - count_list (nb # nbs) n) (hm_get deg n)"
      using get d by auto
    moreover have "distinct ?r" using dist r by auto
    moreover have "\<forall>n. n \<in> set ?r \<longleftrightarrow>
        (\<exists>e. hm_get deg n = Some e \<and> 0 < e \<and> count_list (nb # nbs) n = e)"
      using r d le by auto
    moreover have "hm_wf deg \<longrightarrow> hm_wf deg'" using wf by simp
    ultimately show ?thesis by blast
  qed
qed

definition deps_first :: "graph \<Rightarrow> string list \<Rightarrow> bool" where
  "deps_first g ord \<longleftrightarrow> (\<forall>i < length ord. set (deps_of g (ord ! i)) \<subseteq> set (take i ord))"

lemma deps_first_Nil [simp]: "deps_first g []"
  by (simp add: deps_first_def)

lemma deps_first_snoc [simp]:
  "deps_first g (ord @ [n]) \<longleftrightarrow> deps_first g ord \<and> set (deps_of g n) \<subseteq> set ord"
  by (auto simp: deps_first_def nth_append less_Suc_eq)

text \<open>The nodes that could come next, and orders that always take the smallest of them.\<close>

definition ready :: "graph \<Rightarrow> string list \<Rightarrow> string list" where
  "ready g prior =
     filter (\<lambda>n. n \<notin> set prior \<and> (\<forall>d \<in> set (deps_of g n). d \<in> set prior)) (hm_keys g)"

definition smallest_first :: "graph \<Rightarrow> string list \<Rightarrow> bool" where
  "smallest_first g ord \<longleftrightarrow> (\<forall>i < length ord. ord ! i = Min (set (ready g (take i ord))))"

lemma smallest_first_Nil [simp]: "smallest_first g []"
  by (simp add: smallest_first_def)

lemma smallest_first_snoc [simp]:
  "smallest_first g (ord @ [n]) \<longleftrightarrow> smallest_first g ord \<and> n = Min (set (ready g ord))"
  by (auto simp: smallest_first_def nth_append less_Suc_eq)

lemma in_ready: "n \<in> set (ready g prior) \<longleftrightarrow> node g n \<and> n \<notin> set prior \<and> set (deps_of g n) \<subseteq> set prior"
  by (auto simp: ready_def node_def hm_contains_key_def hm_keys_def)

lemma smallest_first_unique:
  assumes "smallest_first g ord" and "smallest_first g' ord'" and "length ord = length ord'"
    and "\<And>prior. set (ready g prior) = set (ready g' prior)"
  shows "ord = ord'"
  using assms
proof (induction ord arbitrary: ord' rule: rev_induct)
  case (snoc n ord)
  from snoc.prems(3) obtain m ys where ord': "ord' = ys @ [m]"
    by (cases ord' rule: rev_cases) auto
  then have "ord = ys" using snoc by simp
  then show ?case using snoc.prems ord' by simp
qed simp

definition kahn_inv ::
  "graph \<Rightarrow> (string, nat) hash_map \<Rightarrow> string list \<Rightarrow> string list \<Rightarrow> bool" where
  "kahn_inv g deg q ord \<longleftrightarrow>
     (\<forall>n. hm_get deg n =
        (if node g n then Some (length (filter (\<lambda>d. d \<notin> set ord) (deps_of g n))) else None)) \<and>
     distinct (ord @ q) \<and>
     (\<forall>n. n \<in> set ord \<union> set q \<longleftrightarrow> node g n \<and> set (deps_of g n) \<subseteq> set ord) \<and>
     deps_first g ord \<and> hm_wf deg \<and> sorted q \<and> smallest_first g ord"

definition adj_spec :: "graph \<Rightarrow> graph \<Rightarrow> bool" where
  "adj_spec g adj \<longleftrightarrow>
     (\<forall>d n. count_list (unwrap_or [] (hm_get adj d)) n = count_list (deps_of g n) d)"

lemma filter_insert_count:
  "c \<notin> S \<Longrightarrow> length (filter (\<lambda>d. d \<notin> S) ds) =
     count_list ds c + length (filter (\<lambda>d. d \<notin> insert c S) ds)"
  by (induction ds) auto

text \<open>Taking the first node of the queue keeps the invariant and does not underflow.\<close>

lemma kahn_step:
  assumes inv: "kahn_inv g deg (c # q) ord" and adj: "adj_spec g adj"
  shows "\<exists>deg' q'. relax (unwrap_or [] (hm_get adj c)) deg q = Ok (deg', q') \<and>
    kahn_inv g deg' (sort q') (ord @ [c])"
proof -
  let ?nbs = "unwrap_or [] (hm_get adj c)"
  from inv have c: "c \<notin> set ord" by (auto simp: kahn_inv_def)
  have cnt: "count_list ?nbs n = count_list (deps_of g n) c" for n
    using adj by (simp add: adj_spec_def)
  have get: "hm_get deg n =
      (if node g n then Some (count_list ?nbs n +
         length (filter (\<lambda>d. d \<notin> set (ord @ [c])) (deps_of g n))) else None)" for n
    using inv filter_insert_count [OF c, of "deps_of g n"] by (simp add: kahn_inv_def cnt)
  then have "\<forall>n d. hm_get deg n = Some d \<longrightarrow> count_list ?nbs n \<le> d" by (auto split: if_splits)
  from relax_spec [OF this, of q] obtain deg' r where
    run: "relax ?nbs deg q = Ok (deg', q @ r)"
    and get': "\<forall>n. hm_get deg' n = map_option (\<lambda>d. d - count_list ?nbs n) (hm_get deg n)"
    and dist: "distinct r"
    and r: "\<forall>n. n \<in> set r \<longleftrightarrow> (\<exists>d. hm_get deg n = Some d \<and> 0 < d \<and> count_list ?nbs n = d)"
    and wf: "hm_wf deg \<longrightarrow> hm_wf deg'" by blast
  have rset: "n \<in> set r \<longleftrightarrow> node g n \<and> c \<in> set (deps_of g n) \<and> set (deps_of g n) \<subseteq> insert c (set ord)"
    for n
  proof -
    have "n \<in> set r \<longleftrightarrow> node g n \<and> 0 < count_list (deps_of g n) c \<and>
        length (filter (\<lambda>d. d \<notin> set (ord @ [c])) (deps_of g n)) = 0"
      unfolding r [rule_format] get by (auto simp: cnt)
    then show ?thesis by (auto simp: filter_empty_conv count_list_0_iff neq0_conv [symmetric]
          simp del: neq0_conv)
  qed
  have old: "n \<in> set ord \<union> set (c # q) \<longleftrightarrow> node g n \<and> set (deps_of g n) \<subseteq> set ord" for n
    using inv unfolding kahn_inv_def by blast
  have "kahn_inv g deg' (sort (q @ r)) (ord @ [c])"
    unfolding kahn_inv_def
  proof (intro conjI allI)
    show "hm_get deg' n = (if node g n then
        Some (length (filter (\<lambda>d. d \<notin> set (ord @ [c])) (deps_of g n))) else None)" for n
      using get' get [of n] by simp
    have "set r \<inter> (set ord \<union> set (c # q)) = {}"
      using old rset c by blast
    moreover have "distinct (ord @ c # q)" using inv by (simp add: kahn_inv_def)
    ultimately show "distinct ((ord @ [c]) @ sort (q @ r))"
      using dist by auto
    show "n \<in> set (ord @ [c]) \<union> set (sort (q @ r)) \<longleftrightarrow>
        node g n \<and> set (deps_of g n) \<subseteq> set (ord @ [c])" for n
      using old [of n] rset [of n] by auto
    show "deps_first g (ord @ [c])" using inv old [of c] by (simp add: kahn_inv_def)
    show "hm_wf deg'" using inv wf by (simp add: kahn_inv_def)
    have "set ord \<inter> set (c # q) = {}" using inv by (auto simp: kahn_inv_def)
    then have "set (ready g ord) = set (c # q)" using old in_ready by blast
    moreover have "Min (set (c # q)) = c"
      using inv by (intro Min_eqI) (auto simp: kahn_inv_def)
    ultimately show "smallest_first g (ord @ [c])" using inv by (simp add: kahn_inv_def)
  qed simp
  with run show ?thesis by blast
qed

lemma kahn_run:
  assumes "kahn_inv g deg q ord" and "adj_spec g adj"
  shows "\<exists>deg' ord'. kahn adj deg q ord = Ok (deg', ord') \<and> kahn_inv g deg' [] ord'"
  using assms
proof (induction adj deg q ord rule: kahn.induct)
  case (2 adj deg c q ord)
  from kahn_step [OF 2(2,3)] obtain deg' q' where
    run: "relax (unwrap_or [] (hm_get adj c)) deg q = Ok (deg', q')"
    and inv: "kahn_inv g deg' (sort q') (ord @ [c])" by blast
  from 2(1) [OF run refl inv 2(3)] run show ?case by simp
qed auto


section \<open>The specification\<close>

text \<open>A node is resolvable when it is in the graph and all its dependencies are resolvable.\<close>

inductive resolvable :: "graph \<Rightarrow> string \<Rightarrow> bool" for g where
  resolve: "\<lbrakk>node g n; \<And>d. d \<in> set (deps_of g n) \<Longrightarrow> resolvable g d\<rbrakk> \<Longrightarrow> resolvable g n"

inductive_cases resolvable_elim: "resolvable g n"

lemma deps_first_resolvable:
  assumes "deps_first g ord" and "\<forall>n \<in> set ord. node g n" and "n \<in> set ord"
  shows "resolvable g n"
  using assms
proof (induction ord arbitrary: n rule: rev_induct)
  case (snoc m ord)
  then have IH: "resolvable g d" if "d \<in> set ord" for d using that by simp
  show ?case
  proof (cases "n = m")
    case True
    then have "node g n" and "set (deps_of g n) \<subseteq> set ord" using snoc.prems by auto
    then show ?thesis using IH by (blast intro: resolvable.resolve)
  next
    case False
    then show ?thesis using snoc.prems IH by simp
  qed
qed simp

lemma kahn_inv_resolvable:
  assumes inv: "kahn_inv g deg [] ord"
  shows "n \<in> set ord \<longleftrightarrow> resolvable g n"
proof
  assume "n \<in> set ord"
  then show "resolvable g n"
    using inv by (intro deps_first_resolvable [of g ord]) (auto simp: kahn_inv_def)
next
  assume "resolvable g n"
  then show "n \<in> set ord"
  proof (induction rule: resolvable.induct)
    case (resolve n)
    then show ?case using inv by (auto simp: kahn_inv_def)
  qed
qed

lemma kahn_inv_degree:
  assumes inv: "kahn_inv g deg [] ord" and get: "hm_get deg n = Some d"
  shows "node g n" and "0 < d \<longleftrightarrow> n \<notin> set ord"
proof -
  from inv have "hm_get deg n =
      (if node g n then Some (length (filter (\<lambda>d. d \<notin> set ord) (deps_of g n))) else None)"
    and iff: "n \<in> set ord \<union> set [] \<longleftrightarrow> node g n \<and> set (deps_of g n) \<subseteq> set ord"
    unfolding kahn_inv_def by blast+
  with get show n: "node g n" and "0 < d \<longleftrightarrow> n \<notin> set ord"
    by (auto simp: filter_empty_conv subset_eq split: if_splits)
qed

lemma kahn_inv_start:
  assumes wf: "hm_wf g" and maps: "topo_edges g (topo_nodes g) = (deg, adj)"
  shows "kahn_inv g deg (sort (map fst (filter (\<lambda>(n, d). d = 0) deg))) []"
    and "adj_spec g adj"
proof -
  note get = topo_maps_spec(1) [OF wf maps] and wfd = topo_maps_spec(3) [OF wf maps]
  have "n \<in> set (map fst (filter (\<lambda>(n, d). d = 0) deg)) \<longleftrightarrow> hm_get deg n = Some 0" for n
    by (auto simp flip: hm_get_in_iff [OF wfd] simp: image_iff)
  then have "n \<in> set (map fst (filter (\<lambda>(n, d). d = 0) deg)) \<longleftrightarrow> node g n \<and> deps_of g n = []" for n
    by (simp add: get)
  moreover have "distinct (map fst (filter (\<lambda>(n, d). d = 0) deg))"
    using wfd by (simp add: hm_wf_def distinct_map_filter)
  ultimately show "kahn_inv g deg (sort (map fst (filter (\<lambda>(n, d). d = 0) deg))) []"
    using get wfd by (simp add: kahn_inv_def)
  show "adj_spec g adj" using topo_maps_spec(2) [OF wf maps] by (simp add: adj_spec_def)
qed

lemma node_set: "{n. node g n} = set (hm_keys g)"
  by (auto simp: node_def hm_contains_key_def hm_keys_def)

text \<open>
  Everything the callers rely on: either an order of all the nodes with dependencies first,
  which exists exactly when every node is resolvable, or the name of an unresolvable node.
\<close>

lemma topo_sort_cases:
  assumes wf: "hm_wf g"
  obtains (sorted) ord where "topo_sort g = Ok ord" and "distinct ord" and "set ord = set (hm_keys g)"
      and "deps_first g ord" and "smallest_first g ord" and "\<forall>n. node g n \<longrightarrow> resolvable g n"
  | (stuck) n where "topo_sort g = Err n" and "node g n" and "\<not> resolvable g n"
proof -
  obtain deg adj where maps: "topo_edges g (topo_nodes g) = (deg, adj)"
    by (cases "topo_edges g (topo_nodes g)")
  from kahn_run [OF kahn_inv_start [OF wf maps]] obtain deg' ord where
    run: "kahn adj deg (sort (map fst (filter (\<lambda>(n, d). d = 0) deg))) [] = Ok (deg', ord)"
    and inv: "kahn_inv g deg' [] ord" by blast
  have dist: "distinct ord" and sub: "set ord \<subseteq> set (hm_keys g)" and first: "deps_first g ord"
    and small: "smallest_first g ord" using inv node_set by (auto simp: kahn_inv_def)
  have len: "length ord = length g \<longleftrightarrow> set ord = set (hm_keys g)"
  proof -
    have "length g = card (set (hm_keys g))"
      using wf distinct_card [of "hm_keys g"] by (simp add: hm_keys_def hm_wf_def)
    then show ?thesis
      using dist sub distinct_card [OF dist] by (metis List.finite_set card_subset_eq)
  qed
  show thesis
  proof (cases "length ord = length g")
    case True
    then have "topo_sort g = Ok ord" using run by (simp add: topo_sort_def maps Let_def)
    then show thesis using sorted dist len True first small kahn_inv_resolvable [OF inv] node_set by blast
  next
    case False
    then obtain n where n: "node g n" "n \<notin> set ord" using len sub node_set by auto
    then obtain d where "(n, d) \<in> set deg'" and "0 < d"
      using inv hm_get_in_iff [of deg' n] by (force simp: kahn_inv_def filter_empty_conv)
    then obtain k e where "find (\<lambda>(n, d). 0 < d) deg' = Some (k, e)"
      by (cases "find (\<lambda>(n, d). 0 < d) deg'") (auto simp: find_None_iff)
    moreover from this have "(k, e) \<in> set deg'" and "0 < e"
      by (auto simp: find_Some_iff) (metis nth_mem)
    then have "hm_get deg' k = Some e"
      using inv hm_get_in_iff [of deg' k e] by (simp add: kahn_inv_def)
    then have "node g k" and "k \<notin> set ord"
      using kahn_inv_degree [OF inv] \<open>0 < e\<close> by auto
    ultimately have "topo_sort g = Err k" using run False by (simp add: topo_sort_def maps Let_def)
    then show thesis using stuck \<open>node g k\<close> \<open>k \<notin> set ord\<close> kahn_inv_resolvable [OF inv] by blast
  qed
qed


section \<open>The interface of a topological sorter\<close>

text \<open>
  What the deploy-order resolver and the manifest validator rely on, and what they may
  conclude from it.
\<close>

locale topological_sorter =
  fixes sorter :: "graph \<Rightarrow> (string list, string) result"
  assumes sorter_ok: "\<lbrakk>hm_wf g; sorter g = Ok ord\<rbrakk> \<Longrightarrow>
      distinct ord \<and> set ord = set (hm_keys g) \<and> deps_first g ord \<and> smallest_first g ord \<and>
      (\<forall>n. node g n \<longrightarrow> resolvable g n)"
    and sorter_err: "\<lbrakk>hm_wf g; sorter g = Err n\<rbrakk> \<Longrightarrow> node g n \<and> \<not> resolvable g n"
    and sorter_total: "hm_wf g \<Longrightarrow> sorter g \<noteq> Panic"
begin

lemma succeeds_iff: "hm_wf g \<Longrightarrow> (\<exists>ord. sorter g = Ok ord) \<longleftrightarrow> (\<forall>n. node g n \<longrightarrow> resolvable g n)"
  using sorter_ok sorter_err sorter_total by (cases "sorter g") blast+

lemma length_ok: "\<lbrakk>hm_wf g; sorter g = Ok ord\<rbrakk> \<Longrightarrow> length ord = length g"
  using sorter_ok [of g ord] distinct_card [of ord] distinct_card [of "hm_keys g"]
  by (simp add: hm_wf_def hm_keys_def)

lemma same_graph:
  assumes wf: "hm_wf g" "hm_wf g'" and same: "hm_get g = hm_get g'" and ok: "sorter g = Ok ord"
  shows "sorter g' = Ok ord"
proof -
  have nd: "node g = node g'" and dp: "deps_of g = deps_of g'"
    using same by (auto simp: node_def deps_of_def hm_contains_key_get)
  have "resolvable g n \<Longrightarrow> resolvable g' n" for n
    by (induction rule: resolvable.induct) (auto intro: resolvable.resolve simp: nd dp)
  then obtain ord' where ok': "sorter g' = Ok ord'"
    using succeeds_iff [OF wf(1)] succeeds_iff [OF wf(2)] ok nd by auto
  have "length g = length g'"
    using hm_same_mset [OF wf same] by (metis size_mset)
  then have "length ord = length ord'" using length_ok wf ok ok' by metis
  moreover have "set (ready g prior) = set (ready g' prior)" for prior
    by (auto simp: in_ready nd dp)
  ultimately have "ord = ord'"
    using sorter_ok [OF wf(1) ok] sorter_ok [OF wf(2) ok'] smallest_first_unique by blast
  then show ?thesis using ok' by simp
qed

lemma no_edges:
  assumes wf: "hm_wf g" and none: "\<forall>n. deps_of g n = []"
  shows "\<exists>ord. sorter g = Ok ord"
  using none by (subst succeeds_iff [OF wf]) (auto intro: resolvable.resolve)

end

interpretation topo: topological_sorter topo_sort
proof
  show "hm_wf g \<Longrightarrow> topo_sort g \<noteq> Panic" for g
    by (erule topo_sort_cases) simp_all
  show "\<lbrakk>hm_wf g; topo_sort g = Err n\<rbrakk> \<Longrightarrow> node g n \<and> \<not> resolvable g n" for g n
    by (erule topo_sort_cases) simp_all
  show "\<lbrakk>hm_wf g; topo_sort g = Ok ord\<rbrakk> \<Longrightarrow>
      distinct ord \<and> set ord = set (hm_keys g) \<and> deps_first g ord \<and> smallest_first g ord \<and>
      (\<forall>n. node g n \<longrightarrow> resolvable g n)" for g ord
    by (erule topo_sort_cases) simp_all
qed

section \<open>Cycles\<close>

definition dep_rel :: "graph \<Rightarrow> (string \<times> string) set" where
  "dep_rel g = {(n, d). node g n \<and> d \<in> set (deps_of g n)}"

definition closed_graph :: "graph \<Rightarrow> bool" where
  "closed_graph g \<longleftrightarrow> (\<forall>n d. (n, d) \<in> dep_rel g \<longrightarrow> node g d)"

lemma finite_dep_rel: "hm_wf g \<Longrightarrow> finite (dep_rel g)"
  by (rule finite_subset [of _ "set (edges_of g)"]) (auto simp: dep_rel_def in_edges_of)

lemma resolvable_node: "resolvable g n \<Longrightarrow> node g n"
  by (auto elim: resolvable_elim)

lemma resolvable_acc: "resolvable g n \<Longrightarrow> n \<in> Wellfounded.acc ((dep_rel g)\<inverse>)"
  by (induction rule: resolvable.induct) (auto simp: dep_rel_def intro: acc.accI)

lemma all_resolvable_iff:
  assumes wf: "hm_wf g"
  shows "(\<forall>n. node g n \<longrightarrow> resolvable g n) \<longleftrightarrow> closed_graph g \<and> acyclic (dep_rel g)"
proof
  assume all: "\<forall>n. node g n \<longrightarrow> resolvable g n"
  have "closed_graph g"
    unfolding closed_graph_def dep_rel_def
    using all resolvable_node by (fast elim: resolvable_elim)
  moreover have "n \<in> Wellfounded.acc ((dep_rel g)\<inverse>)" for n
  proof (cases "node g n")
    case True
    then show ?thesis using all resolvable_acc by blast
  next
    case False
    then show ?thesis by (intro acc.accI [of n]) (simp add: dep_rel_def)
  qed
  then have "wf ((dep_rel g)\<inverse>)" by (simp add: acc_wfI)
  then have "acyclic (dep_rel g)" using wf_acyclic by fastforce
  ultimately show "closed_graph g \<and> acyclic (dep_rel g)" by blast
next
  assume cl: "closed_graph g \<and> acyclic (dep_rel g)"
  then have "wf ((dep_rel g)\<inverse>)"
    using finite_dep_rel [OF wf] by (simp add: finite_acyclic_wf_converse)
  then have "node g n \<longrightarrow> resolvable g n" for n
  proof (induction n rule: wf_induct_rule)
    case (less n)
    show ?case
    proof
      assume n: "node g n"
      then show "resolvable g n"
      proof (rule resolvable.resolve)
        fix d
        assume "d \<in> set (deps_of g n)"
        then have "(n, d) \<in> dep_rel g" using n by (simp add: dep_rel_def)
        then show "resolvable g d" using less cl by (simp add: closed_graph_def)
      qed
    qed
  qed
  then show "\<forall>n. node g n \<longrightarrow> resolvable g n" by blast
qed


section \<open>Properties\<close>

text \<open>
  C1. When \<open>topo_sort\<close> returns an order, that order lists every node of the graph exactly once
  and every dependency of a node stands at an earlier position than the node.
\<close>

theorem topo_sort_order:
  assumes "hm_wf g" and "topo_sort g = Ok ord"
  shows "distinct ord \<and> set ord = set (hm_keys g) \<and>
    (\<forall>i < length ord. \<forall>d \<in> set (deps_of g (ord ! i)). \<exists>j < i. ord ! j = d)"
proof -
  note ok = topo.sorter_ok [OF assms]
  have "\<exists>j < i. ord ! j = d" if "i < length ord" and "d \<in> set (deps_of g (ord ! i))" for i d
  proof -
    have "d \<in> set (take i ord)" using ok that by (auto simp: deps_first_def)
    then show ?thesis using that(1) by (auto simp: in_set_conv_nth)
  qed
  with ok show ?thesis by blast
qed

text \<open>
  C2. \<open>topo_sort\<close> never panics (no in-degree counter is decremented below zero), it succeeds
  exactly on the graphs whose dependencies are all nodes of the graph and form no cycle, and
  otherwise its error names a node of the graph that no order can place, never the
  \<^verbatim>\<open>Unknown\<close> placeholder.
\<close>

theorem topo_sort_succeeds_iff_acyclic:
  assumes "hm_wf g"
  shows "topo_sort g \<noteq> Panic \<and>
    ((\<exists>ord. topo_sort g = Ok ord) \<longleftrightarrow> closed_graph g \<and> acyclic (dep_rel g)) \<and>
    (\<forall>n. topo_sort g = Err n \<longrightarrow> node g n \<and> \<not> resolvable g n)"
  using topo.sorter_total [OF assms] topo.succeeds_iff [OF assms] all_resolvable_iff [OF assms]
    topo.sorter_err [OF assms] by blast

text \<open>
  The order is deterministic: it does not depend on the iteration order of the hash map
  that holds the graph, and it takes the smallest name among the nodes that are ready.
\<close>

theorem topo_sort_deterministic:
  assumes "hm_wf g" and "hm_wf g'" and "hm_get g = hm_get g'" and "topo_sort g = Ok ord"
  shows "topo_sort g' = Ok ord \<and>
    (\<forall>i < length ord. ord ! i = Min (set (ready g (take i ord))))"
  using topo.same_graph [OF assms] topo.sorter_ok [OF assms(1,4)]
  by (simp add: smallest_first_def)

text \<open>
  The node an error names need not lie on a cycle, although the documentation of
  \<open>topo_sort\<close> says it does: it may only depend on one.
\<close>

theorem topo_sort_error_off_cycle:
  "\<exists>g n. hm_wf g \<and> topo_sort g = Err n \<and> (n, n) \<notin> (dep_rel g)\<^sup>+"
proof -
  let ?g = "[(''app'', [''lib'']), (''lib'', [''lib''])]"
  have "hm_wf ?g" by code_simp
  moreover have "topo_sort ?g = Err ''app''" by code_simp
  moreover have "dep_rel ?g \<subseteq> UNIV \<times> {''lib''}"
    by (auto simp: dep_rel_def deps_of_def hm_get_def split: if_splits)
  then have "(''app'', ''app'') \<notin> (dep_rel ?g)\<^sup>+"
    by (auto dest!: tranclD2)
  ultimately show ?thesis by blast
qed

definition example_graph :: graph where
  "example_graph = [(''c'', [''a'', ''b'']), (''b'', [''a'']), (''a'', [])]"

lemma example_graph_eval:
  "hm_wf example_graph" "topo_sort example_graph = Ok [''a'', ''b'', ''c'']"
  by code_simp+

theorem topo_sort_order_witness:
  "topo_sort example_graph = Ok [''a'', ''b'', ''c''] \<and> distinct [''a'', ''b'', ''c''] \<and>
   (\<exists>j < 2. [''a'', ''b'', ''c''] ! j = ''b'')"
proof -
  have "''b'' \<in> set (deps_of example_graph ([''a'', ''b'', ''c''] ! 2))" by code_simp
  then show ?thesis
    using topo_sort_order [OF example_graph_eval] example_graph_eval(2) by fastforce
qed

theorem topo_sort_succeeds_iff_acyclic_witness:
  "closed_graph example_graph \<and> acyclic (dep_rel example_graph)"
  using topo_sort_succeeds_iff_acyclic [OF example_graph_eval(1)] example_graph_eval(2) by blast

theorem topo_sort_deterministic_witness:
  "topo_sort (rev example_graph) = Ok [''a'', ''b'', ''c'']"
proof -
  have "hm_wf (rev example_graph)" by code_simp
  moreover have "hm_get example_graph = hm_get (rev example_graph)"
    by (auto simp: example_graph_def hm_get_def fun_eq_iff)
  ultimately show ?thesis
    using topo_sort_deterministic [OF example_graph_eval(1) _ _ example_graph_eval(2)] by blast
qed

end
