(* ===== verification/Project.thy ===== *)
theory Project
  imports Config Topo_Sort
begin

text \<open>
  The workspace layer: \<^verbatim>\<open>sdkt-core/src/project.rs\<close> (\<open>resolve_deploy_order\<close>,
  \<open>validate_project\<close>, \<open>resolve_project\<close>). The dependency graph is built with the checks of the
  source in their order and handed to the shared sorter; the proofs about the order use only
  the facts of the locale \<open>topological_sorter\<close>.
\<close>

section \<open>Definitions\<close>

datatype project_error =
    MissingConfig
  | CircularDependency string
  | UnknownDependency string
  | SelfDependency string
  | DuplicateDependency string
  | MissingArtifact string
  | BuildRequired string

fun project_error_display :: "project_error \<Rightarrow> string" where
  "project_error_display MissingConfig = ''No [contracts] configured in .sdkt.toml''"
| "project_error_display (CircularDependency path) =
     ''Circular dependency detected in contract deployment graph: '' @ path"
| "project_error_display (UnknownDependency dep) =
     ''Contract specifies a dependency that is not defined in [contracts]: '' @ dep"
| "project_error_display (SelfDependency alias) =
     ''Contract '' @ [CHR 39] @ alias @ [CHR 39] @ '' lists itself as a dependency (self-dependency)''"
| "project_error_display (DuplicateDependency alias) =
     ''Contract '' @ [CHR 39] @ alias @ [CHR 39] @ '' declares the same dependency more than once''"
| "project_error_display (MissingArtifact path) = ''Expected WASM artifact not found at: '' @ path"
| "project_error_display (BuildRequired alias) =
     ''WASM artifact missing for contract '' @ [CHR 39] @ alias @ [CHR 39] @ ''. Run `sdkt build` first.''"

record resolved_contract =
  rc_alias :: string
  rc_path :: string
  rc_wasm_artifact :: string
  rc_ctor_args :: "string list"

definition WASM_BUILD_TARGET :: string where
  "WASM_BUILD_TARGET = ''wasm32v1-none''"

text \<open>One dependency of a contract: the three checks, then the push.\<close>

definition merge_dep ::
  "devkit_config \<Rightarrow> string \<Rightarrow> string list \<Rightarrow> string \<Rightarrow> (string list, project_error) result" where
  "merge_dep cfg alias merged dep =
     (if dep \<in> set merged then Err (DuplicateDependency alias)
      else if dep = alias then Err (SelfDependency alias)
      else if \<not> hm_contains_key (contracts cfg) dep then Err (UnknownDependency dep)
      else Ok (merged @ [dep]))"

definition merge_deps ::
  "devkit_config \<Rightarrow> string \<Rightarrow> contract_config \<Rightarrow> (string list, project_error) result" where
  "merge_deps cfg alias c = try_fold (merge_dep cfg alias) [] (cc_deploy_after c @ cc_depends_on c)"

text \<open>One contract: its merged dependencies are appended to its graph entry.\<close>

definition add_contract ::
  "devkit_config \<Rightarrow> graph \<Rightarrow> string \<times> contract_config \<Rightarrow> (graph, project_error) result" where
  "add_contract cfg graph = (\<lambda>(alias, c).
     and_then (merge_deps cfg alias c) (\<lambda>merged.
       case hm_get graph alias of
         None \<Rightarrow> Panic
       | Some deps \<Rightarrow> Ok (hm_insert alias (deps @ merged) graph)))"

definition build_graph :: "devkit_config \<Rightarrow> (graph, project_error) result" where
  "build_graph cfg =
     try_fold (add_contract cfg)
       (foldl (\<lambda>m alias. hm_entry alias [] (\<lambda>l. l) m) [] (hm_keys (contracts cfg)))
       (contracts cfg)"

definition resolve_deploy_order :: "devkit_config \<Rightarrow> (string list, project_error) result" where
  "resolve_deploy_order cfg =
     (if contracts cfg = [] then Err MissingConfig
      else and_then (build_graph cfg) (\<lambda>graph. map_err CircularDependency (topo_sort graph)))"

definition validate_project :: "devkit_config \<Rightarrow> (unit, project_error) result" where
  "validate_project cfg = map_ok (\<lambda>_. ()) (resolve_deploy_order cfg)"

definition release_dir :: "string \<Rightarrow> string" where
  "release_dir p = path_join (path_join (path_join p ''target'') WASM_BUILD_TARGET) ''release''"

definition resolve_contract ::
  "('w, 'ver, 'req) sys \<Rightarrow> 'w \<Rightarrow> devkit_config \<Rightarrow> string \<Rightarrow> (resolved_contract, project_error) result" where
  "resolve_contract S w cfg alias =
     and_then (unwrap (hm_get (contracts cfg) alias)) (\<lambda>c.
       and_then (ok_or (BuildRequired alias) (first_wasm S w (release_dir (cc_path c)))) (\<lambda>wasm.
         Ok \<lparr>rc_alias = alias, rc_path = cc_path c, rc_wasm_artifact = wasm,
             rc_ctor_args = cc_ctor_args c\<rparr>))"

definition resolve_project ::
  "('w, 'ver, 'req) sys \<Rightarrow> 'w \<Rightarrow> devkit_config \<Rightarrow> (resolved_contract list, project_error) result" where
  "resolve_project S w cfg =
     and_then (resolve_deploy_order cfg) (\<lambda>ordered. try_map (resolve_contract S w cfg) ordered)"

section \<open>The graph that is built\<close>

definition declared_deps :: "contract_config \<Rightarrow> string list" where
  "declared_deps c = cc_deploy_after c @ cc_depends_on c"

text \<open>The contracts whose declarations pass the three checks.\<close>

definition valid_deps :: "devkit_config \<Rightarrow> string \<Rightarrow> contract_config \<Rightarrow> bool" where
  "valid_deps cfg alias c \<longleftrightarrow>
     distinct (declared_deps c) \<and> alias \<notin> set (declared_deps c) \<and>
     (\<forall>d \<in> set (declared_deps c). hm_contains_key (contracts cfg) d)"

definition declared_graph :: "devkit_config \<Rightarrow> graph" where
  "declared_graph cfg = map (\<lambda>(alias, c). (alias, declared_deps c)) (contracts cfg)"

lemma merge_dep_Ok_iff:
  "merge_dep cfg alias merged d = Ok t \<longleftrightarrow>
     d \<notin> set merged \<and> d \<noteq> alias \<and> hm_contains_key (contracts cfg) d \<and> t = merged @ [d]"
  by (auto simp: merge_dep_def)

lemma merge_dep_fold:
  "(\<exists>t. try_fold (merge_dep cfg alias) merged ds = Ok t) \<longleftrightarrow>
     distinct ds \<and> set ds \<inter> set merged = {} \<and> alias \<notin> set ds \<and>
     (\<forall>d \<in> set ds. hm_contains_key (contracts cfg) d)"
proof (induction ds arbitrary: merged)
  case (Cons d ds)
  then show ?case by (auto simp: merge_dep_Ok_iff)
qed simp

lemma merge_dep_fold_Ok: "try_fold (merge_dep cfg alias) merged ds = Ok t \<Longrightarrow> t = merged @ ds"
proof (induction ds arbitrary: merged)
  case (Cons d ds)
  then have "try_fold (merge_dep cfg alias) (merged @ [d]) ds = Ok t"
    by (auto simp: merge_dep_Ok_iff)
  from Cons.IH [OF this] show ?case by simp
qed simp

lemma merge_deps_Ok_iff:
  "merge_deps cfg alias c = Ok t \<longleftrightarrow> valid_deps cfg alias c \<and> t = declared_deps c"
proof -
  have ex: "(\<exists>t. merge_deps cfg alias c = Ok t) \<longleftrightarrow> valid_deps cfg alias c"
    by (simp add: merge_deps_def merge_dep_fold valid_deps_def declared_deps_def)
  have eq: "merge_deps cfg alias c = Ok t \<Longrightarrow> t = declared_deps c" for t
    using merge_dep_fold_Ok [of cfg "alias" "[]"] by (simp add: merge_deps_def declared_deps_def)
  show ?thesis using ex eq by metis
qed

lemma merge_deps_Err:
  assumes "merge_deps cfg alias c = Err e"
  shows "e = DuplicateDependency alias \<and> \<not> distinct (declared_deps c) \<or>
    e = SelfDependency alias \<and> alias \<in> set (declared_deps c) \<or>
    (\<exists>d. e = UnknownDependency d \<and> d \<in> set (declared_deps c) \<and> hm_get (contracts cfg) d = None)"
proof -
  have "\<lbrakk>try_fold (merge_dep cfg alias) merged ds = Err e; distinct merged\<rbrakk> \<Longrightarrow>
      e = DuplicateDependency alias \<and> \<not> distinct (merged @ ds) \<or>
      e = SelfDependency alias \<and> alias \<in> set ds \<or>
      (\<exists>d. e = UnknownDependency d \<and> d \<in> set ds \<and> hm_get (contracts cfg) d = None)" for merged ds
  proof (induction ds arbitrary: merged)
    case (Cons d ds)
    then show ?case
      by (auto simp: merge_dep_def and_then_Err_iff hm_contains_key_get split: if_splits) fastforce+
  qed simp
  from this [of "[]" "declared_deps c"] assms show ?thesis
    by (simp add: merge_deps_def declared_deps_def)
qed

lemma merge_deps_no_panic: "merge_deps cfg alias c \<noteq> Panic"
  unfolding merge_deps_def by (rule try_fold_no_panic) (simp add: merge_dep_def)


lemma add_contract_fold:
  assumes "distinct (map fst xs)" and "\<forall>a c. (a, c) \<in> set xs \<longrightarrow> hm_get graph a = Some []"
  shows "case try_fold (add_contract cfg) graph xs of
      Ok graph' \<Rightarrow> (\<forall>(a, c) \<in> set xs. valid_deps cfg a c) \<and> (hm_wf graph \<longrightarrow> hm_wf graph') \<and>
        (\<forall>n. hm_get graph' n =
           (case map_of xs n of Some c \<Rightarrow> Some (declared_deps c) | None \<Rightarrow> hm_get graph n))
    | Err e \<Rightarrow> \<exists>(a, c) \<in> set xs. merge_deps cfg a c = Err e
    | Panic \<Rightarrow> False"
  using assms
proof (induction xs arbitrary: graph)
  case (Cons ac xs)
  obtain a c where ac: "ac = (a, c)" by (cases ac)
  show ?case
  proof (cases "merge_deps cfg a c")
    case (Ok t)
    then have t: "valid_deps cfg a c" "t = declared_deps c" by (simp_all add: merge_deps_Ok_iff)
    have "map_of xs a = None" using Cons.prems(1) ac by (auto simp: map_of_eq_None_iff)
    let ?graph = "hm_insert a t graph"
    have step: "add_contract cfg graph ac = Ok ?graph"
      using Cons.prems(2) ac Ok by (simp add: add_contract_def)
    have "\<forall>b c. (b, c) \<in> set xs \<longrightarrow> hm_get ?graph b = Some []"
      using Cons.prems ac by force
    with Cons.IH [of ?graph] Cons.prems(1) step ac t \<open>map_of xs a = None\<close> show ?thesis
      by (fastforce split: result.splits option.splits)
  next
    case (Err e)
    then show ?thesis using ac by (auto simp: add_contract_def)
  next
    case Panic
    then show ?thesis using merge_deps_no_panic by blast
  qed
qed (simp add: hm_get_def)

lemma build_graph_spec:
  assumes "config_wf cfg"
  shows "case build_graph cfg of
      Ok graph \<Rightarrow> (\<forall>(a, c) \<in> set (contracts cfg). valid_deps cfg a c) \<and> hm_wf graph \<and>
        hm_get graph = hm_get (declared_graph cfg)
    | Err e \<Rightarrow> \<exists>(a, c) \<in> set (contracts cfg). merge_deps cfg a c = Err e
    | Panic \<Rightarrow> False"
proof -
  let ?init = "foldl (\<lambda>m alias. hm_entry alias [] (\<lambda>l. l) m) [] (hm_keys (contracts cfg)) :: graph"
  have init: "hm_get ?init n = (if n \<in> set (hm_keys (contracts cfg)) then Some [] else None)" for n
    by (simp add: get_init_nodes)
  have wf: "hm_wf ?init" by (rule wf_foldl_entry) (simp add: hm_wf_def)
  have "hm_get (declared_graph cfg) n = map_option declared_deps (map_of (contracts cfg) n)" for n
    unfolding declared_graph_def hm_get_def
    by (induction "contracts cfg" arbitrary: n) (auto simp: map_of_map)
  then have get: "hm_get (declared_graph cfg) n =
      (case map_of (contracts cfg) n of Some c \<Rightarrow> Some (declared_deps c) | None \<Rightarrow> hm_get ?init n)" for n
    by (cases "map_of (contracts cfg) n")
       (simp_all add: init hm_keys_get hm_get_def [of "contracts cfg"])
  have "distinct (map fst (contracts cfg))"
    using assms by (simp add: config_wf_def hm_wf_def)
  moreover have "\<forall>a c. (a, c) \<in> set (contracts cfg) \<longrightarrow> hm_get ?init a = Some []"
    unfolding init by (force simp: hm_keys_def)
  ultimately show ?thesis
    using add_contract_fold [of "contracts cfg" ?init cfg] wf get
    unfolding build_graph_def by (auto simp: fun_eq_iff split: result.splits)
qed


lemma declared_graph_facts:
  "deps_of (declared_graph cfg) n =
     (case hm_get (contracts cfg) n of Some c \<Rightarrow> declared_deps c | None \<Rightarrow> [])"
  "node (declared_graph cfg) n \<longleftrightarrow> hm_contains_key (contracts cfg) n"
  "hm_keys (declared_graph cfg) = hm_keys (contracts cfg)"
proof -
  have "hm_get (declared_graph cfg) n = map_option declared_deps (hm_get (contracts cfg) n)" for n
    by (simp add: declared_graph_def hm_get_def map_of_map)
  then show "deps_of (declared_graph cfg) n =
      (case hm_get (contracts cfg) n of Some c \<Rightarrow> declared_deps c | None \<Rightarrow> [])"
    and "node (declared_graph cfg) n \<longleftrightarrow> hm_contains_key (contracts cfg) n"
    by (auto simp: deps_of_def node_def hm_contains_key_get split: option.splits)
  show "hm_keys (declared_graph cfg) = hm_keys (contracts cfg)"
    by (auto simp: declared_graph_def hm_keys_def)
qed

lemma declared_graph_wf: "config_wf cfg \<Longrightarrow> hm_wf (declared_graph cfg)"
  using declared_graph_facts(3) [of cfg] by (simp add: config_wf_def hm_wf_def hm_keys_def)

lemma valid_deps_closed:
  assumes "\<forall>(a, c) \<in> set (contracts cfg). valid_deps cfg a c"
  shows "closed_graph (declared_graph cfg)"
  unfolding closed_graph_def dep_rel_def
proof (intro allI impI)
  fix n d
  assume "(n, d) \<in> {(n, d). node (declared_graph cfg) n \<and> d \<in> set (deps_of (declared_graph cfg) n)}"
  then obtain c where c: "hm_get (contracts cfg) n = Some c" and d: "d \<in> set (declared_deps c)"
    by (cases "hm_get (contracts cfg) n") (auto simp: declared_graph_facts)
  then have "(n, c) \<in> set (contracts cfg)" by (simp add: hm_get_def map_of_SomeD)
  then show "node (declared_graph cfg) d"
    using assms d by (auto simp: valid_deps_def declared_graph_facts)
qed

text \<open>The outcome of \<open>resolve_deploy_order\<close>: the order of the declared graph, or an error with
  its reason.\<close>

lemma resolve_deploy_order_cases:
  assumes wf: "config_wf cfg"
  obtains (order) ord where "resolve_deploy_order cfg = Ok ord"
      and "topo_sort (declared_graph cfg) = Ok ord" and "contracts cfg \<noteq> []"
      and "\<forall>(a, c) \<in> set (contracts cfg). valid_deps cfg a c"
  | (empty) "resolve_deploy_order cfg = Err MissingConfig" and "contracts cfg = []"
  | (bad_deps) a c e where "resolve_deploy_order cfg = Err e" and "(a, c) \<in> set (contracts cfg)"
      and "merge_deps cfg a c = Err e" and "contracts cfg \<noteq> []"
  | (cycle) n where "resolve_deploy_order cfg = Err (CircularDependency n)"
      and "\<forall>(a, c) \<in> set (contracts cfg). valid_deps cfg a c"
      and "\<not> acyclic (dep_rel (declared_graph cfg))" and "hm_contains_key (contracts cfg) n"
      and "contracts cfg \<noteq> []"
proof (cases "contracts cfg = []")
  case True
  then show thesis using empty by (simp add: resolve_deploy_order_def)
next
  case False
  note spec = build_graph_spec [OF wf] and wfd = declared_graph_wf [OF wf]
  show thesis
  proof (cases "build_graph cfg")
    case (Ok graph)
    with spec have g: "\<forall>(a, c) \<in> set (contracts cfg). valid_deps cfg a c" "hm_wf graph"
      "hm_get graph = hm_get (declared_graph cfg)" by auto
    have eq: "resolve_deploy_order cfg = map_err CircularDependency (topo_sort graph)"
      using Ok False by (simp add: resolve_deploy_order_def)
    show thesis
    proof (cases "topo_sort graph")
      fix ord
      assume "topo_sort graph = Ok ord"
      then show thesis using order eq topo.same_graph [OF g(2) wfd g(3)] g(1) False by simp
    next
      fix n
      assume err: "topo_sort graph = Err n"
      then have "node graph n" and no: "\<nexists>ord. topo_sort (declared_graph cfg) = Ok ord"
        using topo.sorter_err [OF g(2)] topo.same_graph [OF wfd g(2) g(3) [symmetric]] by auto
      then have "node (declared_graph cfg) n" using g(3) by (simp add: node_def hm_contains_key_get)
      then have n: "hm_contains_key (contracts cfg) n" by (simp add: declared_graph_facts)
      have "\<not> acyclic (dep_rel (declared_graph cfg))"
        using no topo.succeeds_iff [OF wfd] all_resolvable_iff [OF wfd] valid_deps_closed [OF g(1)]
        by blast
      then show thesis using cycle [OF _ g(1) _ n False] eq err by simp
    next
      assume "topo_sort graph = Panic"
      then show thesis using topo.sorter_total [OF g(2)] by simp
    qed
  next
    case (Err e)
    then show thesis using spec bad_deps False by (auto simp: resolve_deploy_order_def)
  next
    case Panic
    then show thesis using spec by simp
  qed
qed

lemma resolve_contract_cases:
  assumes "hm_contains_key (contracts cfg) a"
  obtains (found) r c where "resolve_contract S w cfg a = Ok r" and "rc_alias r = a"
      and "hm_get (contracts cfg) a = Some c" and "rc_path r = cc_path c"
      and "rc_ctor_args r = cc_ctor_args c"
      and "first_wasm S w (release_dir (cc_path c)) = Some (rc_wasm_artifact r)"
  | (missing) c where "resolve_contract S w cfg a = Err (BuildRequired a)"
      and "hm_get (contracts cfg) a = Some c" and "first_wasm S w (release_dir (cc_path c)) = None"
proof -
  obtain c where c: "hm_get (contracts cfg) a = Some c" using assms by (auto simp: hm_contains_key_get)
  show thesis
    by (cases "first_wasm S w (release_dir (cc_path c))")
       (use missing found c in \<open>auto simp: resolve_contract_def\<close>)
qed

lemma deploy_order_known:
  assumes "config_wf cfg" and "resolve_deploy_order cfg = Ok ord" and "a \<in> set ord"
  shows "hm_contains_key (contracts cfg) a"
  using assms(1)
proof (cases rule: resolve_deploy_order_cases)
  case (order ord')
  then show ?thesis
    using topo.sorter_ok [OF declared_graph_wf [OF assms(1)] order(2)] assms(2,3)
    by (simp add: declared_graph_facts(3) hm_keys_get hm_contains_key_get)
qed (use assms(2) in auto)

section \<open>Properties\<close>

text \<open>
  C3. When \<open>resolve_deploy_order\<close> returns, the order lists every configured contract exactly
  once, and every contract stands after everything it names in \<^verbatim>\<open>deploy_after\<close> or
  \<^verbatim>\<open>depends_on\<close>.
\<close>

theorem deploy_order_respects_dependencies:
  assumes "config_wf cfg" and "resolve_deploy_order cfg = Ok ord"
  shows "distinct ord \<and> set ord = set (hm_keys (contracts cfg)) \<and>
    (\<forall>i < length ord. \<forall>c. hm_get (contracts cfg) (ord ! i) = Some c \<longrightarrow>
       set (cc_deploy_after c) \<union> set (cc_depends_on c) \<subseteq> set (take i ord))"
  using assms(1)
proof (cases rule: resolve_deploy_order_cases)
  case (order ord')
  note ok = topo.sorter_ok [OF declared_graph_wf [OF assms(1)] order(2)]
  have "set (declared_deps c) \<subseteq> set (take i ord')"
    if "i < length ord'" and "hm_get (contracts cfg) (ord' ! i) = Some c" for i c
  proof -
    have "deps_of (declared_graph cfg) (ord' ! i) = declared_deps c"
      using that(2) by (simp add: declared_graph_facts)
    then show ?thesis using ok that(1) unfolding deps_first_def by metis
  qed
  then show ?thesis
    using ok order(1) assms(2) by (simp add: declared_deps_def declared_graph_facts(3))
qed (use assms(2) in auto)

text \<open>
  C4. \<open>resolve_deploy_order\<close> never panics. It succeeds exactly when some contract is
  configured, every declared dependency is a configured contract other than the declaring one
  and declared once, and the declared dependencies form no cycle. Each error says what is
  wrong: a duplicate, self or unknown dependency that some contract really declares, or a
  cycle.
\<close>

theorem deploy_order_succeeds_iff:
  assumes "config_wf cfg"
  shows "resolve_deploy_order cfg \<noteq> Panic \<and>
    ((\<exists>ord. resolve_deploy_order cfg = Ok ord) \<longleftrightarrow>
       contracts cfg \<noteq> [] \<and> (\<forall>(a, c) \<in> set (contracts cfg). valid_deps cfg a c) \<and>
       acyclic (dep_rel (declared_graph cfg))) \<and>
    (\<forall>e. resolve_deploy_order cfg = Err e \<longrightarrow>
       (case e of
          MissingConfig \<Rightarrow> contracts cfg = []
        | CircularDependency n \<Rightarrow>
            hm_contains_key (contracts cfg) n \<and> \<not> acyclic (dep_rel (declared_graph cfg))
        | DuplicateDependency a \<Rightarrow>
            \<exists>c. (a, c) \<in> set (contracts cfg) \<and> \<not> distinct (declared_deps c)
        | SelfDependency a \<Rightarrow>
            \<exists>c. (a, c) \<in> set (contracts cfg) \<and> a \<in> set (declared_deps c)
        | UnknownDependency d \<Rightarrow> hm_get (contracts cfg) d = None \<and>
            (\<exists>a c. (a, c) \<in> set (contracts cfg) \<and> d \<in> set (declared_deps c))
        | _ \<Rightarrow> False))"
  using assms
proof (cases rule: resolve_deploy_order_cases)
  case (order ord)
  then have "acyclic (dep_rel (declared_graph cfg))"
    using topo.succeeds_iff [OF declared_graph_wf [OF assms]]
      all_resolvable_iff [OF declared_graph_wf [OF assms]] by blast
  then show ?thesis using order by auto
next
  case (bad_deps a c e)
  then have "\<not> valid_deps cfg a c" using merge_deps_Ok_iff [of cfg a c "declared_deps c"] by auto
  moreover from merge_deps_Err [OF bad_deps(3)]
  consider "e = DuplicateDependency a" "\<not> distinct (declared_deps c)"
    | "e = SelfDependency a" "a \<in> set (declared_deps c)"
    | d where "e = UnknownDependency d" "d \<in> set (declared_deps c)"
        "hm_get (contracts cfg) d = None" by blast
  then show ?thesis by cases (use bad_deps calculation in auto)
qed auto

text \<open>
  \<open>resolve_project\<close> never panics on a well-formed configuration. On success it lists the
  contracts in deployment order, each with its configured path and constructor arguments and
  with a \<^verbatim>\<open>.wasm\<close> file of its release directory; an error that is not one of the order is
  \<open>BuildRequired\<close> for a configured contract whose release directory holds no such file.
\<close>

theorem resolve_project_correct:
  assumes "config_wf cfg"
  shows "case resolve_project S w cfg of
      Ok rs \<Rightarrow> resolve_deploy_order cfg = Ok (map rc_alias rs) \<and>
        (\<forall>r \<in> set rs. \<exists>c. hm_get (contracts cfg) (rc_alias r) = Some c \<and>
           rc_path r = cc_path c \<and> rc_ctor_args r = cc_ctor_args c \<and>
           path_extension (rc_wasm_artifact r) = Some ''wasm'' \<and>
           (\<exists>es. sys_read_dir S w (release_dir (cc_path c)) = Some es \<and> rc_wasm_artifact r \<in> set es))
    | Err e \<Rightarrow> resolve_deploy_order cfg = Err e \<or>
        (\<exists>a c. e = BuildRequired a \<and> hm_get (contracts cfg) a = Some c \<and>
           first_wasm S w (release_dir (cc_path c)) = None)
    | Panic \<Rightarrow> False"
proof (cases "resolve_deploy_order cfg")
  case (Ok ord)
  let ?r = "resolve_contract S w cfg"
  have eq: "resolve_project S w cfg = try_map ?r ord" using Ok by (simp add: resolve_project_def)
  have known: "a \<in> set ord \<Longrightarrow> hm_contains_key (contracts cfg) a" for a
    using deploy_order_known [OF assms Ok] .
  show ?thesis
  proof (cases "try_map ?r ord")
    fix rs
    assume rs: "try_map ?r ord = Ok rs"
    have "list_all2 (\<lambda>a r. a = rc_alias r) ord rs"
      using rs by (auto simp: try_map_Ok_iff resolve_contract_def elim: list_all2_mono)
    then have "ord = map rc_alias rs"
      by (simp add: list_all2_conv_all_nth list_eq_iff_nth_eq)
    moreover have "\<exists>c. hm_get (contracts cfg) (rc_alias r) = Some c \<and> rc_path r = cc_path c \<and>
        rc_ctor_args r = cc_ctor_args c \<and> path_extension (rc_wasm_artifact r) = Some ''wasm'' \<and>
        (\<exists>es. sys_read_dir S w (release_dir (cc_path c)) = Some es \<and> rc_wasm_artifact r \<in> set es)"
      if "r \<in> set rs" for r
    proof -
      from try_map_Ok_set [OF rs that] obtain a where a: "a \<in> set ord" "?r a = Ok r" by blast
      from known [OF a(1)] show ?thesis
        by (cases rule: resolve_contract_cases [where S = S and w = w]) (use a(2) first_wasm_Some in fastforce)+
    qed
    ultimately show ?thesis using Ok eq rs by auto
  next
    fix e
    assume e: "try_map ?r ord = Err e"
    from try_map_Err [OF e] obtain a where a: "a \<in> set ord" "?r a = Err e" by blast
    from known [OF a(1)] show ?thesis
      by (cases rule: resolve_contract_cases [where S = S and w = w]) (use a(2) eq e in auto)
  next
    assume "try_map ?r ord = Panic"
    moreover have "?r a \<noteq> Panic" if "a \<in> set ord" for a
      using known [OF that] by (cases rule: resolve_contract_cases [where S = S and w = w]) auto
    ultimately show ?thesis using try_map_no_panic [of ord ?r] by simp
  qed
next
  case Panic
  with assms show ?thesis by (cases rule: resolve_deploy_order_cases) auto
qed (simp add: resolve_project_def)

section \<open>Witnesses\<close>

definition example_contract :: "string \<Rightarrow> string list \<Rightarrow> string list \<Rightarrow> contract_config" where
  "example_contract p after deps =
     \<lparr>cc_path = p, cc_deploy_after = after, cc_depends_on = deps, cc_ctor_args = []\<rparr>"

definition example_project :: devkit_config where
  "example_project = default_config \<lparr>contracts :=
     [(''router'', example_contract ''contracts/router'' [''token''] [''pool'']),
      (''pool'', example_contract ''contracts/pool'' [] [''token'']),
      (''token'', example_contract ''contracts/token'' [] [])]\<rparr>"

lemma example_project_eval:
  "config_wf example_project"
  "resolve_deploy_order example_project = Ok [''token'', ''pool'', ''router'']"
  by code_simp+

theorem deploy_order_respects_dependencies_witness:
  "resolve_deploy_order example_project = Ok [''token'', ''pool'', ''router''] \<and>
   set [''token'', ''pool'', ''router''] = set (hm_keys (contracts example_project))"
  using deploy_order_respects_dependencies [OF example_project_eval] example_project_eval(2) by blast

theorem deploy_order_succeeds_iff_witness:
  "acyclic (dep_rel (declared_graph example_project))"
  using deploy_order_succeeds_iff [OF example_project_eval(1)] example_project_eval(2) by blast

lemma example_project_resolves:
  "map_ok (map rc_wasm_artifact) (resolve_project example_sys () example_project) =
     Ok [''contracts/token/target/wasm32v1-none/release/c.wasm'',
         ''contracts/pool/target/wasm32v1-none/release/c.wasm'',
         ''contracts/router/target/wasm32v1-none/release/c.wasm'']"
  by code_simp

theorem resolve_project_correct_witness:
  "\<exists>rs. resolve_project example_sys () example_project = Ok rs \<and>
     resolve_deploy_order example_project = Ok (map rc_alias rs)"
proof -
  obtain rs where "resolve_project example_sys () example_project = Ok rs"
    using example_project_resolves by auto
  then show ?thesis
    using resolve_project_correct [OF example_project_eval(1), of example_sys "()"] by simp
qed

end
