(* ===== verification/Package.thy ===== *)
theory Package
  imports Config Topo_Sort
begin

text \<open>
  The package manifest of \<^verbatim>\<open>sdkt-core/src/package.rs\<close>: validation of the \<^verbatim>\<open>[package]\<close> section
  (\<open>validate_package\<close>, \<open>validate_version_format\<close>), of the \<^verbatim>\<open>[dependencies]\<close> table
  (\<open>validate_dependencies\<close>, \<open>validate_git_url\<close>) and the choice of a release tag for a version
  constraint (\<open>best_version_match\<close>). The \<^verbatim>\<open>semver\<close> crate is reached through the record \<open>sys\<close>.
\<close>

section \<open>Definitions\<close>

datatype package_error =
    MissingPackage
  | MissingName
  | MissingVersion
  | InvalidVersion string
  | MissingPath string
  | UnsupportedSource string
  | SelfDependency string
  | CircularDependency string
  | DuplicateDependency string
  | PathNotFound string
  | MixedSources string
  | MissingGitUrl string
  | InvalidGitUrl string
  | UnsupportedUrlScheme string
  | MultipleGitRefs string
  | MissingGitRef string
  | EmptyGitRef string
  | DependencyNotCached string
  | OtherError string

definition quoted :: "string \<Rightarrow> string" where
  "quoted s = [CHR 39] @ s @ [CHR 39]"

fun package_error_display :: "package_error \<Rightarrow> string" where
  "package_error_display MissingPackage = ''missing [package] section in manifest''"
| "package_error_display MissingName = ''[package] is missing a `name`''"
| "package_error_display MissingVersion = ''[package] is missing a `version`''"
| "package_error_display (InvalidVersion v) =
     ''invalid [package] version '' @ quoted v @ '' (expected MAJOR.MINOR.PATCH)''"
| "package_error_display (MissingPath n) = ''dependency '' @ quoted n @ '' is missing a `path`''"
| "package_error_display (UnsupportedSource n) =
     ''dependency '' @ quoted n @ '' uses an unsupported source (only local `path` is allowed)''"
| "package_error_display (SelfDependency n) = ''package '' @ quoted n @ '' depends on itself''"
| "package_error_display (CircularDependency n) =
     ''circular local dependency detected involving '' @ quoted n"
| "package_error_display (DuplicateDependency n) =
     ''package '' @ quoted n @ '' declares the same dependency more than once''"
| "package_error_display (PathNotFound p) = ''dependency path does not exist: '' @ p"
| "package_error_display (MixedSources n) =
     ''dependency '' @ quoted n @ '' declares both `path` and `git`''"
| "package_error_display (MissingGitUrl n) =
     ''git dependency '' @ quoted n @ '' is missing a `git` URL''"
| "package_error_display (InvalidGitUrl n) =
     ''git dependency '' @ quoted n @ '' has an invalid URL''"
| "package_error_display (UnsupportedUrlScheme u) =
     ''git dependency URL uses an unsupported scheme: '' @ u @ '' (only https/http/git/ssh allowed)''"
| "package_error_display (MultipleGitRefs n) =
     ''git dependency '' @ quoted n @ '' specifies more than one of `branch`/`tag`/`rev`''"
| "package_error_display (MissingGitRef n) =
     ''git dependency '' @ quoted n @ '' must specify exactly one of `branch`/`tag`/`rev`''"
| "package_error_display (EmptyGitRef n) =
     ''git dependency '' @ quoted n @ '' has an empty `branch`/`tag`/`rev`''"
| "package_error_display (DependencyNotCached n) =
     ''git dependency '' @ quoted n @ '' is declared but its checkout is not '' @
     ''cached under .sdkt-cache/git; fetch it before packing '' @
     ''(run `sdkt fetch` or clone the repo into the cache)''"
| "package_error_display (OtherError m) = m"

subsection \<open>Package metadata\<close>

definition validate_version_part :: "string \<Rightarrow> string \<Rightarrow> (unit, package_error) result" where
  "validate_version_part version p =
     (if p = [] \<or> \<not> list_all is_ascii_digit p then Err (InvalidVersion version)
      else if length p > 1 \<and> starts_with ''0'' p then Err (InvalidVersion version)
      else Ok ())"

definition validate_version_format :: "string \<Rightarrow> (unit, package_error) result" where
  "validate_version_format version =
     (let v = trim version in
      if v = [] then Err (InvalidVersion version)
      else
        let core = hd (split_by (\<lambda>c. c = CHR ''+'' \<or> c = CHR ''-'') v);
            parts = split_on CHR ''.'' core
        in if length parts \<noteq> 3 then Err (InvalidVersion version)
           else try_fold (\<lambda>_. validate_version_part version) () parts)"

definition validate_package :: "devkit_config \<Rightarrow> (package_config, package_error) result" where
  "validate_package cfg =
     and_then (ok_or MissingPackage (package cfg)) (\<lambda>pkg.
     and_then (ok_or MissingName (pkg_name pkg)) (\<lambda>name.
       if trim name = [] then Err MissingName
       else
         and_then (ok_or MissingVersion (pkg_version pkg)) (\<lambda>version.
           if trim version = [] then Err MissingVersion
           else and_then (validate_version_format version) (\<lambda>_. Ok pkg))))"

subsection \<open>Version constraints\<close>

definition bare_version :: "string \<Rightarrow> string" where
  "bare_version tag = unwrap_or tag (strip_prefix ''v'' tag)"

definition better_match ::
  "('w, 'ver, 'req) sys \<Rightarrow> 'req \<Rightarrow> ('ver \<times> string \<times> string) option \<Rightarrow> string \<times> string \<Rightarrow>
   ('ver \<times> string \<times> string) option" where
  "better_match S req best = (\<lambda>(tag, commit).
     case sys_version_parse S (bare_version tag) of
       None \<Rightarrow> best
     | Some ver \<Rightarrow>
         if \<not> sys_req_matches S req ver then best
         else case best of
           Some (bv, _) \<Rightarrow> if sys_version_ge S bv ver then best else Some (ver, tag, commit)
         | None \<Rightarrow> Some (ver, tag, commit))"

definition best_version_match ::
  "('w, 'ver, 'req) sys \<Rightarrow> (string \<times> string) list \<Rightarrow> string \<Rightarrow> (string \<times> string) option" where
  "best_version_match S tags constraint =
     (case sys_req_parse S constraint of
        None \<Rightarrow> None
      | Some req \<Rightarrow> map_option snd (foldl (better_match S req) None tags))"

subsection \<open>Dependencies\<close>

definition validate_git_url :: "string \<Rightarrow> (unit, package_error) result" where
  "validate_git_url url =
     (let trimmed = trim url in
      if trimmed = [] then Err (InvalidGitUrl url)
      else case strip_prefix ''git@'' trimmed of
        Some rest \<Rightarrow>
          (case split_once '':'' rest of
             None \<Rightarrow> Err (InvalidGitUrl url)
           | Some (host, _) \<Rightarrow> if host = [] then Err (InvalidGitUrl url) else Ok ())
      | None \<Rightarrow>
          (case split_once ''://'' trimmed of
             Some (scheme, rest) \<Rightarrow>
               if scheme \<notin> {''https'', ''http'', ''git'', ''ssh''} then Err (UnsupportedUrlScheme scheme)
               else if hd (split_by (\<lambda>c. c \<in> set ''/:?#'') rest) = [] then Err (InvalidGitUrl url)
               else Ok ()
           | None \<Rightarrow>
               if starts_with ''/'' trimmed \<or> starts_with ''.'' trimmed \<or> starts_with ''~'' trimmed
               then Ok () else Err (InvalidGitUrl url)))"

definition opt_list :: "'a option list \<Rightarrow> 'a list" where
  "opt_list xs = concat (map (\<lambda>x. case x of None \<Rightarrow> [] | Some v \<Rightarrow> [v]) xs)"

definition git_refs :: "dependency \<Rightarrow> string list" where
  "git_refs dep = opt_list [dep_branch dep, dep_tag dep, dep_rev dep]"

definition validate_git_ref ::
  "('w, 'ver, 'req) sys \<Rightarrow> string \<Rightarrow> dependency \<Rightarrow> (unit, package_error) result" where
  "validate_git_ref S name dep =
     (if dep_branch dep = None \<and> dep_tag dep = None \<and> dep_rev dep = None then
        (case dep_version dep of
           Some ver \<Rightarrow>
             if sys_req_parse S ver = None then Err (InvalidVersion ver) else Ok ()
         | None \<Rightarrow> Err (MissingGitRef name))
      else if length (git_refs dep) > 1 then Err (MultipleGitRefs name)
      else try_fold (\<lambda>_ v. if trim v = [] then Err (EmptyGitRef name) else Ok ()) () (git_refs dep))"

definition validate_source ::
  "('w, 'ver, 'req) sys \<Rightarrow> 'w \<Rightarrow> string \<Rightarrow> string \<Rightarrow> dependency \<Rightarrow> (unit, package_error) result" where
  "validate_source S w base_dir name dep =
     (case (dep_path dep, dep_git dep) of
        (Some _, Some _) \<Rightarrow> Err (MixedSources name)
      | (Some p, None) \<Rightarrow>
          if trim p = [] then Err (MissingPath name)
          else if \<not> sys_exists S w (path_join base_dir p) then Err (PathNotFound (path_join base_dir p))
          else Ok ()
      | (None, Some url) \<Rightarrow>
          if trim url = [] then Err (MissingGitUrl name)
          else and_then (validate_git_url url) (\<lambda>_. validate_git_ref S name dep)
      | (None, None) \<Rightarrow> Err (MissingPath name))"

definition validate_dependency ::
  "('w, 'ver, 'req) sys \<Rightarrow> 'w \<Rightarrow> string \<Rightarrow> string \<Rightarrow> graph \<Rightarrow> string \<times> dependency \<Rightarrow>
   (graph, package_error) result" where
  "validate_dependency S w base_dir pkg graph = (\<lambda>(name, dep).
     if name = pkg then Err (SelfDependency name)
     else if hm_contains_key graph name then Err (DuplicateDependency name)
     else and_then (validate_source S w base_dir name dep) (\<lambda>_. Ok (hm_insert name [] graph)))"

definition validate_dependencies ::
  "('w, 'ver, 'req) sys \<Rightarrow> 'w \<Rightarrow> string \<Rightarrow> devkit_config \<Rightarrow> (unit, package_error) result" where
  "validate_dependencies S w base_dir cfg =
     (let pkg = unwrap_or [] (Option.bind (package cfg) pkg_name) in
      and_then (try_fold (validate_dependency S w base_dir pkg) [] (dependencies cfg)) (\<lambda>graph.
        if graph = [] then Ok ()
        else map_ok (\<lambda>_. ()) (map_err CircularDependency (topo_sort graph))))"

definition validate_manifest ::
  "('w, 'ver, 'req) sys \<Rightarrow> 'w \<Rightarrow> string \<Rightarrow> devkit_config \<Rightarrow> (unit, package_error) result" where
  "validate_manifest S w base_dir cfg =
     and_then (validate_package cfg) (\<lambda>_. validate_dependencies S w base_dir cfg)"

section \<open>Version strings\<close>

lemma validate_version_part_iff:
  "validate_version_part version p = Ok () \<longleftrightarrow> p = show_nat (digits_value p)"
proof
  assume "validate_version_part version p = Ok ()"
  then show "p = show_nat (digits_value p)"
    by (intro show_nat_digits_value [symmetric])
       (auto simp: validate_version_part_def list_all_iff split: if_splits)
next
  assume p: "p = show_nat (digits_value p)"
  have "length p = 1" if "starts_with ''0'' p"
  proof -
    have "digits_value p = 0" using that p show_nat_no_leading_zero by metis
    with p have "p = show_nat 0" by simp
    also have "show_nat 0 = ''0''" by code_simp
    finally show ?thesis by simp
  qed
  moreover have "\<forall>c \<in> set p. is_ascii_digit c" using p show_nat_digits by metis
  moreover have "p \<noteq> []" using p show_nat_not_Nil by metis
  ultimately show "validate_version_part version p = Ok ()"
    unfolding validate_version_part_def list_all_iff by fastforce
qed

lemma validate_version_parts:
  "try_fold (\<lambda>_. validate_version_part version) () ps = Ok () \<longleftrightarrow>
     (\<forall>p \<in> set ps. p = show_nat (digits_value p))"
  by (induction ps) (simp_all add: validate_version_part_iff)

lemma show_nat_separators: "c \<in> set (show_nat n) \<Longrightarrow> c \<noteq> CHR ''.'' \<and> c \<noteq> CHR ''+'' \<and> c \<noteq> CHR ''-''"
  using show_nat_digits [of c n] by (auto simp: is_ascii_digit_def)

lemma hd_split_by: "\<exists>r. s = hd (split_by P s) @ r \<and> (r = [] \<or> P (hd r))"
proof (induction s)
  case (Cons c s)
  then show ?case by (cases "split_by P s") auto
qed simp

lemma hd_split_by_unique:
  "\<forall>c \<in> set w. \<not> P c \<Longrightarrow> r = [] \<or> P (hd r) \<Longrightarrow> hd (split_by P (w @ r)) = w"
  by (cases r) (auto simp: split_by_append split_by_none)

text \<open>The dotted triples of decimal numbers.\<close>

definition version_triple :: "nat \<Rightarrow> nat \<Rightarrow> nat \<Rightarrow> string" where
  "version_triple a b c = show_nat a @ ''.'' @ show_nat b @ ''.'' @ show_nat c"

lemma split_version_triple: "split_on CHR ''.'' (version_triple a b c) = [show_nat a, show_nat b, show_nat c]"
  using split_on_join [of "[show_nat a, show_nat b, show_nat c]" "CHR ''.''"] show_nat_separators
  by (auto simp: version_triple_def)

lemma version_core_iff:
  "length (split_on CHR ''.'' core) = 3 \<and> (\<forall>p \<in> set (split_on CHR ''.'' core). p = show_nat (digits_value p)) \<longleftrightarrow>
     (\<exists>a b c. core = version_triple a b c)"
proof
  assume *: "length (split_on CHR ''.'' core) = 3 \<and>
    (\<forall>p \<in> set (split_on CHR ''.'' core). p = show_nat (digits_value p))"
  then obtain x y z where xyz: "split_on CHR ''.'' core = [x, y, z]"
    by (auto simp: numeral_3_eq_3 length_Suc_conv)
  with * have "x = show_nat (digits_value x)" "y = show_nat (digits_value y)"
    "z = show_nat (digits_value z)" by auto
  moreover have "core = x @ ''.'' @ y @ ''.'' @ z"
    using join_split_on [of "CHR ''.''" core] xyz by simp
  ultimately show "\<exists>a b c. core = version_triple a b c" unfolding version_triple_def by metis
qed (auto simp: split_version_triple)

text \<open>
  \<open>validate_version_format\<close> accepts exactly the strings that are, without surrounding white
  space, three decimal numbers without leading zeros separated by dots, followed by nothing or
  by a suffix that starts with \<^verbatim>\<open>-\<close> or \<^verbatim>\<open>+\<close>; every other string is refused as \<open>InvalidVersion\<close>
  with the string itself.
\<close>

theorem version_format_iff:
  "(validate_version_format version = Ok () \<longleftrightarrow>
     (\<exists>major minor patch suffix. trim version = version_triple major minor patch @ suffix \<and>
        (suffix = [] \<or> hd suffix = CHR ''+'' \<or> hd suffix = CHR ''-''))) \<and>
   (validate_version_format version = Ok () \<or>
    validate_version_format version = Err (InvalidVersion version))"
proof -
  let ?P = "\<lambda>c. c = CHR ''+'' \<or> c = CHR ''-''"
  define core where "core = hd (split_by ?P (trim version))"
  have empty: "trim version = [] \<Longrightarrow> core = []" by (simp add: core_def)
  have "validate_version_format version = Ok () \<longleftrightarrow> (\<exists>a b c. core = version_triple a b c)"
    unfolding version_core_iff [of core, symmetric] validate_version_format_def Let_def
      core_def [symmetric] using empty
    by (simp add: validate_version_parts split_on_def)
  also have "\<dots> \<longleftrightarrow> (\<exists>a b c suffix. trim version = version_triple a b c @ suffix \<and>
      (suffix = [] \<or> ?P (hd suffix)))"
  proof
    assume "\<exists>a b c. core = version_triple a b c"
    then show "\<exists>a b c suffix. trim version = version_triple a b c @ suffix \<and> (suffix = [] \<or> ?P (hd suffix))"
      using hd_split_by [of "trim version" ?P] unfolding core_def by metis
  next
    assume "\<exists>a b c suffix. trim version = version_triple a b c @ suffix \<and> (suffix = [] \<or> ?P (hd suffix))"
    then obtain a b c suffix where t: "trim version = version_triple a b c @ suffix"
      and "suffix = [] \<or> ?P (hd suffix)" by blast
    moreover have "\<forall>x \<in> set (version_triple a b c). \<not> ?P x"
      using show_nat_separators by (auto simp: version_triple_def)
    ultimately have "core = version_triple a b c"
      unfolding core_def t by (intro hd_split_by_unique) auto
    then show "\<exists>a b c. core = version_triple a b c" by blast
  qed
  moreover have "try_fold (\<lambda>_. validate_version_part version) () ps \<in> {Ok (), Err (InvalidVersion version)}" for ps
    by (induction ps) (auto simp: validate_version_part_def)
  then have "validate_version_format version \<in> {Ok (), Err (InvalidVersion version)}"
    by (auto simp: validate_version_format_def Let_def)
  ultimately show ?thesis by simp
qed

section \<open>The choice of a release tag\<close>

text \<open>The documented order of the \<^verbatim>\<open>semver\<close> crate: versions are totally ordered.\<close>

definition semver_ordered :: "('w, 'ver, 'req) sys \<Rightarrow> bool" where
  "semver_ordered S \<longleftrightarrow>
     (\<forall>a b. sys_version_ge S a b \<or> sys_version_ge S b a) \<and>
     (\<forall>a b c. sys_version_ge S a b \<longrightarrow> sys_version_ge S b c \<longrightarrow> sys_version_ge S a c)"

definition candidate ::
  "('w, 'ver, 'req) sys \<Rightarrow> 'req \<Rightarrow> string \<Rightarrow> 'ver \<Rightarrow> bool" where
  "candidate S req tag ver \<longleftrightarrow>
     sys_version_parse S (bare_version tag) = Some ver \<and> sys_req_matches S req ver"

lemma better_match_fold:
  assumes "semver_ordered S"
  shows "case foldl (better_match S req) None tags of
      Some (ver, tag, commit) \<Rightarrow> (tag, commit) \<in> set tags \<and> candidate S req tag ver \<and>
        (\<forall>(t, c) \<in> set tags. \<forall>v. candidate S req t v \<longrightarrow> sys_version_ge S ver v)
    | None \<Rightarrow> \<forall>(t, c) \<in> set tags. \<forall>v. \<not> candidate S req t v"
proof (induction tags rule: rev_induct)
  case (snoc tc tags)
  obtain t c where tc: "tc = (t, c)" by (cases tc)
  have refl: "sys_version_ge S v v" for v using assms by (auto simp: semver_ordered_def)
  have trans: "sys_version_ge S u v \<Longrightarrow> sys_version_ge S v x \<Longrightarrow> sys_version_ge S u x" for u v x
    using assms unfolding semver_ordered_def by blast
  have linear: "\<not> sys_version_ge S u v \<Longrightarrow> sys_version_ge S v u" for u v
    using assms unfolding semver_ordered_def by blast
  show ?case
  proof (cases "\<exists>v. candidate S req t v")
    case False
    then have "better_match S req b tc = b" for b
      using tc by (auto simp: better_match_def candidate_def split: option.splits)
    with snoc False tc show ?thesis by (auto split: option.splits)
  next
    case True
    then obtain v where v: "candidate S req t v" by blast
    then have step: "better_match S req b tc =
        (case b of Some (bv, _) \<Rightarrow> if sys_version_ge S bv v then b else Some (v, t, c)
         | None \<Rightarrow> Some (v, t, c))" for b
      using tc by (auto simp: better_match_def candidate_def)
    have only: "candidate S req t u \<longleftrightarrow> u = v" for u using v by (auto simp: candidate_def)
    show ?thesis
    proof (cases "foldl (better_match S req) None tags")
      case None
      with snoc have "\<forall>(t, c) \<in> set tags. \<forall>v. \<not> candidate S req t v" by simp
      moreover have "foldl (better_match S req) None (tags @ [tc]) = Some (v, t, c)"
        using None step by simp
      ultimately show ?thesis using only refl tc by auto
    next
      case (Some b)
      obtain bv bt bc where b: "b = (bv, bt, bc)" by (cases b)
      with Some snoc have old: "(bt, bc) \<in> set tags" "candidate S req bt bv"
        and max: "\<And>t c v. (t, c) \<in> set tags \<Longrightarrow> candidate S req t v \<Longrightarrow> sys_version_ge S bv v" by auto
      show ?thesis
      proof (cases "sys_version_ge S bv v")
        case True
        then have "foldl (better_match S req) None (tags @ [tc]) = Some (bv, bt, bc)"
          using Some b step by simp
        with True old max only tc show ?thesis by auto
      next
        case False
        then have "foldl (better_match S req) None (tags @ [tc]) = Some (v, t, c)"
          using Some b step by simp
        moreover have "sys_version_ge S v u" if "(t', c') \<in> set tags" "candidate S req t' u" for t' c' u
          using trans [OF linear [OF False] max [OF that]] .
        ultimately show ?thesis using only refl tc by auto
      qed
    qed
  qed
qed simp

lemma best_version_match_spec:
  assumes "semver_ordered S"
  shows "case best_version_match S tags constraint of
      Some (tag, commit) \<Rightarrow> \<exists>req ver. sys_req_parse S constraint = Some req \<and>
        (tag, commit) \<in> set tags \<and> candidate S req tag ver \<and>
        (\<forall>(t, c) \<in> set tags. \<forall>v. candidate S req t v \<longrightarrow> sys_version_ge S ver v)
    | None \<Rightarrow> \<forall>req. sys_req_parse S constraint = Some req \<longrightarrow>
        (\<forall>(t, c) \<in> set tags. \<forall>v. \<not> candidate S req t v)"
proof (cases "sys_req_parse S constraint")
  case (Some req)
  with better_match_fold [OF assms, where req = req and tags = tags] show ?thesis
    by (cases "foldl (better_match S req) None tags") (auto simp: best_version_match_def)
qed (simp add: best_version_match_def)

text \<open>
  C14. \<open>best_version_match\<close> returns a tag of the list that satisfies the constraint and whose
  version is at least that of every other satisfying tag; it returns nothing exactly when the
  constraint does not parse or no tag satisfies it. The hypothesis is the documented total
  order of semver versions.
\<close>

theorem best_version_match_is_highest:
  assumes "semver_ordered S"
  shows "case best_version_match S tags constraint of
      Some (tag, commit) \<Rightarrow> \<exists>req ver. sys_req_parse S constraint = Some req \<and>
        (tag, commit) \<in> set tags \<and> candidate S req tag ver \<and>
        (\<forall>(t, c) \<in> set tags. \<forall>v. candidate S req t v \<longrightarrow> sys_version_ge S ver v)
    | None \<Rightarrow> \<forall>req. sys_req_parse S constraint = Some req \<longrightarrow>
        (\<forall>(t, c) \<in> set tags. \<forall>v. \<not> candidate S req t v)"
  by (rule best_version_match_spec [OF assms])

section \<open>Git URLs\<close>

definition git_url_ok :: "string \<Rightarrow> bool" where
  "git_url_ok t \<longleftrightarrow>
     (\<exists>host rest. t = ''git@'' @ host @ '':'' @ rest \<and> host \<noteq> [] \<and> CHR '':'' \<notin> set host) \<or>
     (\<exists>scheme \<in> {''https'', ''http'', ''git'', ''ssh''}. \<exists>rest. t = scheme @ ''://'' @ rest \<and>
        rest \<noteq> [] \<and> hd rest \<notin> set ''/:?#'') \<or>
     (\<not> str_contains ''://'' t \<and> t \<noteq> [] \<and> hd t \<in> set ''/.~'')"

lemma split_scheme:
  assumes "scheme \<in> {''https'', ''http'', ''git'', ''ssh''}"
  shows "split_once ''://'' t = Some (scheme, rest) \<longleftrightarrow> t = scheme @ ''://'' @ rest"
  using assms split_once_iff_Some [of "''://''" t scheme rest] split_once_first [of "''://''" scheme rest]
  by auto

lemma hd_split_empty: "hd (split_by P s) = [] \<longleftrightarrow> s = [] \<or> P (hd s)"
  by (cases s) (auto split: list.splits)

lemma starts_with_singleton: "starts_with [c] s \<longleftrightarrow> s \<noteq> [] \<and> hd s = c"
  by (cases s) auto

lemma validate_git_url_iff: "validate_git_url url = Ok () \<longleftrightarrow> git_url_ok (trim url)"
proof (cases "strip_prefix ''git@'' (trim url)")
  case (Some rest)
  then have t: "trim url = ''git@'' @ rest" by (simp add: strip_prefix_iff)
  have "validate_git_url url = Ok () \<longleftrightarrow> (\<exists>host r. rest = host @ '':'' @ r \<and> host \<noteq> [] \<and> CHR '':'' \<notin> set host)"
  proof (cases "split_once '':'' rest")
    case None
    then have "rest \<noteq> host @ '':'' @ r" for host r
      by (metis split_once_None_iff str_contains_iff)
    then show ?thesis using Some t None by (simp add: validate_git_url_def)
  next
    case (Some hr)
    obtain host r where hr: "hr = (host, r)" by (cases hr)
    have "rest = h @ '':'' @ r' \<and> CHR '':'' \<notin> set h \<longleftrightarrow> h = host \<and> r' = r" for h r'
      using split_once_char_iff [of "CHR '':''" rest h r'] Some hr by auto
    then have "(\<exists>h r'. rest = h @ '':'' @ r' \<and> h \<noteq> [] \<and> CHR '':'' \<notin> set h) \<longleftrightarrow> host \<noteq> []" by blast
    then show ?thesis
      using \<open>strip_prefix ''git@'' (trim url) = Some rest\<close> t Some hr by (simp add: validate_git_url_def)
  qed
  also have "\<dots> \<longleftrightarrow> git_url_ok (trim url)"
    by (auto simp: git_url_ok_def t)
  finally show ?thesis .
next
  case None
  then have no: "trim url \<noteq> ''git@'' @ rest" for rest
    using strip_prefix_iff [of "''git@''" "trim url" rest] by auto
  show ?thesis
  proof (cases "split_once ''://'' (trim url)")
    case sn: None
    then have "\<not> str_contains ''://'' (trim url)" by (simp add: split_once_None_iff)
    moreover have "trim url \<noteq> a @ ''://'' @ r" for a r
      using calculation unfolding str_contains_iff by metis
    ultimately show ?thesis
      using None sn no by (auto simp: validate_git_url_def git_url_ok_def Let_def starts_with_singleton)
  next
    case (Some sr)
    obtain scheme rest where sr: "sr = (scheme, rest)" by (cases sr)
    have ne: "trim url \<noteq> []" and "str_contains ''://'' (trim url)"
      using Some split_once_None_iff [of "''://''" "trim url"] by auto
    moreover have "(\<exists>scheme \<in> {''https'', ''http'', ''git'', ''ssh''}. \<exists>rest. trim url = scheme @ ''://'' @ rest \<and>
        rest \<noteq> [] \<and> hd rest \<notin> set ''/:?#'') \<longleftrightarrow>
        scheme \<in> {''https'', ''http'', ''git'', ''ssh''} \<and> rest \<noteq> [] \<and> hd rest \<notin> set ''/:?#''"
    proof -
      have "trim url = s @ ''://'' @ r \<longleftrightarrow> s = scheme \<and> r = rest"
        if "s \<in> {''https'', ''http'', ''git'', ''ssh''}" for s r
        unfolding split_scheme [OF that, symmetric] using Some sr by auto
      then show ?thesis by (metis (no_types))
    qed
    ultimately have "git_url_ok (trim url) \<longleftrightarrow>
        scheme \<in> {''https'', ''http'', ''git'', ''ssh''} \<and> rest \<noteq> [] \<and> hd rest \<notin> set ''/:?#''"
      using no unfolding git_url_ok_def by blast
    also have "\<dots> \<longleftrightarrow> validate_git_url url = Ok ()"
      unfolding validate_git_url_def Let_def using None Some sr ne by (simp add: hd_split_empty)
    finally show ?thesis by blast
  qed
qed

text \<open>
  \<open>validate_git_url\<close> accepts exactly the three documented shapes of the trimmed URL: an
  SCP-like \<^verbatim>\<open>git@host:path\<close> with a host, a URL with one of the four schemes and a host, or a
  path that starts with \<^verbatim>\<open>/\<close>, \<^verbatim>\<open>.\<close> or \<^verbatim>\<open>~\<close> and holds no \<^verbatim>\<open>://\<close>. In particular the text handed to
  \<^verbatim>\<open>git clone\<close> is never an option: an accepted URL does not start with a dash.
\<close>

theorem git_url_accepted_iff:
  "(validate_git_url url = Ok () \<longleftrightarrow> git_url_ok (trim url)) \<and>
   (starts_with ''-'' url \<longrightarrow> validate_git_url url \<noteq> Ok ())"
proof -
  have "\<not> git_url_ok (trim url)" if "starts_with ''-'' url"
  proof -
    have "\<not> ws_byte (CHR ''-'')" by code_simp
    with that obtain s where "trim url = CHR ''-'' # s"
      by (cases url) (auto simp: trim_Cons)
    then show ?thesis by (auto simp: git_url_ok_def)
  qed
  then show ?thesis using validate_git_url_iff by blast
qed

section \<open>The dependency table\<close>

definition valid_git_ref :: "('w, 'ver, 'req) sys \<Rightarrow> dependency \<Rightarrow> bool" where
  "valid_git_ref S dep \<longleftrightarrow>
     (\<exists>r. git_refs dep = [r] \<and> trim r \<noteq> []) \<or>
     (git_refs dep = [] \<and> (\<exists>v. dep_version dep = Some v \<and> sys_req_parse S v \<noteq> None))"

definition valid_source :: "('w, 'ver, 'req) sys \<Rightarrow> 'w \<Rightarrow> string \<Rightarrow> dependency \<Rightarrow> bool" where
  "valid_source S w base_dir dep \<longleftrightarrow>
     (\<exists>p. dep_path dep = Some p \<and> dep_git dep = None \<and> trim p \<noteq> [] \<and>
        sys_exists S w (path_join base_dir p)) \<or>
     (\<exists>url. dep_git dep = Some url \<and> dep_path dep = None \<and> git_url_ok (trim url) \<and>
        valid_git_ref S dep)"

lemma git_refs_Nil: "git_refs dep = [] \<longleftrightarrow> dep_branch dep = None \<and> dep_tag dep = None \<and> dep_rev dep = None"
  by (auto simp: git_refs_def opt_list_def split: option.splits)

lemma validate_git_ref_iff: "validate_git_ref S name dep = Ok () \<longleftrightarrow> valid_git_ref S dep"
  unfolding validate_git_ref_def valid_git_ref_def git_refs_Nil [symmetric]
  by (cases "git_refs dep") (auto split: option.splits list.splits)

lemma validate_git_ref_no_panic: "validate_git_ref S name dep \<noteq> Panic"
proof -
  have "try_fold (\<lambda>_ v. if trim v = [] then Err (EmptyGitRef name) else Ok ()) () refs \<noteq> Panic" for refs
    by (rule try_fold_no_panic) simp
  then show ?thesis by (auto simp: validate_git_ref_def split: option.splits)
qed

lemma validate_git_url_no_panic: "validate_git_url url \<noteq> Panic"
  by (auto simp: validate_git_url_def Let_def split: option.splits)

lemma git_url_ok_Nil [simp]: "\<not> git_url_ok []"
  by (auto simp: git_url_ok_def)

lemma validate_source_iff: "validate_source S w base_dir name dep = Ok () \<longleftrightarrow> valid_source S w base_dir dep"
  by (auto simp: validate_source_def valid_source_def validate_git_ref_iff
      validate_git_url_iff split: option.splits)

lemma validate_source_no_panic: "validate_source S w base_dir name dep \<noteq> Panic"
  using validate_git_ref_no_panic [of S name dep] validate_git_url_no_panic
  by (auto simp: validate_source_def and_then_Panic_iff split: option.splits)

text \<open>The keys of the table are distinct, so the graph the loop builds has every name once and
  no edge.\<close>

lemma validate_dependency_fold:
  assumes "distinct (map fst deps)" and "\<forall>n \<in> set (map fst deps). hm_get graph n = None"
    and "hm_wf graph" and "\<forall>n. deps_of graph n = []"
  shows "case try_fold (validate_dependency S w base_dir pkg) graph deps of
      Ok graph' \<Rightarrow> hm_wf graph' \<and> (\<forall>n. deps_of graph' n = []) \<and>
        (\<forall>(n, d) \<in> set deps. n \<noteq> pkg \<and> valid_source S w base_dir d)
    | Err e \<Rightarrow> \<exists>(n, d) \<in> set deps. (n = pkg \<and> e = SelfDependency n) \<or>
        (n \<noteq> pkg \<and> validate_source S w base_dir n d = Err e)
    | Panic \<Rightarrow> False"
  using assms
proof (induction deps arbitrary: graph)
  case (Cons nd deps)
  obtain n d where nd: "nd = (n, d)" by (cases nd)
  have new: "\<not> hm_contains_key graph n" using Cons.prems(2) nd by (simp add: hm_contains_key_get)
  show ?case
  proof (cases "n \<noteq> pkg \<and> validate_source S w base_dir n d = Ok ()")
    case True
    then have "validate_dependency S w base_dir pkg graph nd = Ok (hm_insert n [] graph)"
      using nd new by (simp add: validate_dependency_def)
    moreover have "\<forall>m. deps_of (hm_insert n [] graph) m = []"
      using Cons.prems(4) by (simp add: deps_of_def split: option.splits)
    moreover have "\<forall>m \<in> set (map fst deps). hm_get (hm_insert n [] graph) m = None"
      using Cons.prems(1,2) nd by force
    ultimately show ?thesis
      using Cons.IH [of "hm_insert n [] graph"] Cons.prems nd True validate_source_iff
      by (fastforce split: result.splits)
  next
    case False
    then show ?thesis
      using new nd validate_source_no_panic [of S w base_dir n d]
      by (cases "validate_source S w base_dir n d") (auto simp: validate_dependency_def)
  qed
qed simp

lemma validate_dependencies_spec:
  assumes "config_wf cfg"
  shows "case validate_dependencies S w base_dir cfg of
      Ok _ \<Rightarrow> \<forall>(n, d) \<in> set (dependencies cfg).
        n \<noteq> unwrap_or [] (Option.bind (package cfg) pkg_name) \<and> valid_source S w base_dir d
    | Err e \<Rightarrow> \<exists>(n, d) \<in> set (dependencies cfg).
        (n = unwrap_or [] (Option.bind (package cfg) pkg_name) \<and> e = SelfDependency n) \<or>
        (\<not> valid_source S w base_dir d \<and> validate_source S w base_dir n d = Err e)
    | Panic \<Rightarrow> False"
proof -
  let ?pkg = "unwrap_or [] (Option.bind (package cfg) pkg_name)"
  have "distinct (map fst (dependencies cfg))" using assms by (simp add: config_wf_def hm_wf_def)
  then have fold: "case try_fold (validate_dependency S w base_dir ?pkg) [] (dependencies cfg) of
      Ok graph' \<Rightarrow> hm_wf graph' \<and> (\<forall>n. deps_of graph' n = []) \<and>
        (\<forall>(n, d) \<in> set (dependencies cfg). n \<noteq> ?pkg \<and> valid_source S w base_dir d)
    | Err e \<Rightarrow> \<exists>(n, d) \<in> set (dependencies cfg). (n = ?pkg \<and> e = SelfDependency n) \<or>
        (n \<noteq> ?pkg \<and> validate_source S w base_dir n d = Err e)
    | Panic \<Rightarrow> False"
    by (intro validate_dependency_fold) (simp_all add: hm_wf_def deps_of_def)
  show ?thesis
  proof (cases "try_fold (validate_dependency S w base_dir ?pkg) [] (dependencies cfg)")
    case (Ok graph)
    with fold have g: "hm_wf graph" "\<forall>n. deps_of graph n = []" and
      v: "\<forall>(n, d) \<in> set (dependencies cfg). n \<noteq> ?pkg \<and> valid_source S w base_dir d" by auto
    then have "validate_dependencies S w base_dir cfg = Ok ()"
      using Ok topo.no_edges [OF g] by (auto simp: validate_dependencies_def Let_def)
    with v show ?thesis by simp
  next
    case (Err e)
    with fold obtain n d where nd: "(n, d) \<in> set (dependencies cfg)"
      and e: "(n = ?pkg \<and> e = SelfDependency n) \<or>
        (n \<noteq> ?pkg \<and> validate_source S w base_dir n d = Err e)" by auto
    have "validate_source S w base_dir n d = Err e \<Longrightarrow> \<not> valid_source S w base_dir d"
      using validate_source_iff [of S w base_dir n d] by auto
    with e have "(n = ?pkg \<and> e = SelfDependency n) \<or>
        (\<not> valid_source S w base_dir d \<and> validate_source S w base_dir n d = Err e)" by blast
    with nd have "\<exists>(n, d) \<in> set (dependencies cfg). (n = ?pkg \<and> e = SelfDependency n) \<or>
        (\<not> valid_source S w base_dir d \<and> validate_source S w base_dir n d = Err e)" by blast
    then show ?thesis using Err by (simp add: validate_dependencies_def)
  next
    case Panic
    with fold show ?thesis by simp
  qed
qed


section \<open>Witnesses\<close>

lemma example_semver_ordered: "semver_ordered example_sys"
  by (auto simp: semver_ordered_def example_sys_def)

definition example_tags :: "(string \<times> string) list" where
  "example_tags = [(''v1.9'', ''c9''), (''nightly'', ''cn''), (''v1.10'', ''c10''), (''v0.9'', ''c0'')]"

theorem best_version_match_is_highest_witness:
  "best_version_match example_sys example_tags ''>=1.0'' = Some (''v1.10'', ''c10'') \<and>
   candidate example_sys [1, 0] ''v1.9'' [1, 9] \<and> sys_version_ge example_sys [1, 10] [1, 9]"
proof -
  have best: "best_version_match example_sys example_tags ''>=1.0'' = Some (''v1.10'', ''c10'')"
    and req: "sys_req_parse example_sys ''>=1.0'' = Some [1, 0]"
    and ver: "sys_version_parse example_sys (bare_version ''v1.10'') = Some [1, 10]"
    and other: "candidate example_sys [1, 0] ''v1.9'' [1, 9]" by code_simp+
  from best_version_match_is_highest [OF example_semver_ordered, where tags = example_tags
      and constraint = "''>=1.0''", unfolded best option.case prod.case]
  obtain r u where r: "sys_req_parse example_sys ''>=1.0'' = Some r" "candidate example_sys r ''v1.10'' u"
    and max: "\<forall>(t, c) \<in> set example_tags. \<forall>v. candidate example_sys r t v \<longrightarrow> sys_version_ge example_sys u v"
    by blast
  from r req ver have "r = [1, 0]" "u = [1, 10]" by (auto simp: candidate_def)
  moreover have "(''v1.9'', ''c9'') \<in> set example_tags" by (simp add: example_tags_def)
  ultimately show ?thesis using max best other by blast
qed

definition example_manifest :: devkit_config where
  "example_manifest = default_config
     \<lparr>package := Some \<lparr>pkg_name = Some ''app'', pkg_version = Some ''0.1.0'', pkg_description = None\<rparr>,
      dependencies :=
        [(''lib'', default_dependency \<lparr>dep_path := Some ''../lib''\<rparr>),
         (''token'', default_dependency
            \<lparr>dep_git := Some ''https://example.com/token'', dep_tag := Some ''v1.2.0''\<rparr>)]\<rparr>"

lemma example_manifest_eval:
  "config_wf example_manifest" "validate_dependencies example_sys () ''.'' example_manifest = Ok ()"
  by code_simp+


theorem git_url_accepted_iff_witness:
  "git_url_ok (trim ''https://github.com/org/repo'') \<and> validate_git_url ''--upload-pack=x'' \<noteq> Ok ()"
proof -
  have "validate_git_url ''https://github.com/org/repo'' = Ok ()" by code_simp
  moreover have "starts_with ''-'' ''--upload-pack=x''" by simp
  ultimately show ?thesis
    using git_url_accepted_iff [of "''https://github.com/org/repo''"]
      git_url_accepted_iff [of "''--upload-pack=x''"] by blast
qed

theorem version_format_iff_witness:
  "validate_version_format '' 1.20.3-rc.1'' = Ok () \<and>
   (\<exists>major minor patch suffix. trim '' 1.20.3-rc.1'' = version_triple major minor patch @ suffix)"
proof -
  have "validate_version_format '' 1.20.3-rc.1'' = Ok ()" by code_simp
  with version_format_iff [of "'' 1.20.3-rc.1''"] show ?thesis by blast
qed

end
