(* ===== verification/Fetch.thy ===== *)
theory Fetch
  imports Package "HOL-Library.Word"
begin

unbundle bit_operations_syntax

text \<open>
  Acquisition of dependencies: \<^verbatim>\<open>sdkt-core/src/fetch.rs\<close> and the two functions of
  \<^verbatim>\<open>sdkt-core/src/sync.rs\<close> it calls (\<open>list_remote_tags\<close>, \<open>resolve_version_constraint\<close>). Every \<^verbatim>\<open>git\<close>
  command is a call of the record \<open>sys\<close> with the arguments of the source; the 64-bit FNV-1a hash
  of the cache key is kept at its width.
\<close>

section \<open>Errors\<close>

datatype fetch_error =
    GitUnavailable
  | GitFailed string "int option" string
  | NoSource string
  | MissingUrl string
  | FetchIo string string

definition show_exit :: "int option \<Rightarrow> string" where
  "show_exit st = (case st of None \<Rightarrow> ''None'' | Some i \<Rightarrow> ''Some('' @ show_int i @ '')'')"

fun fetch_error_display :: "fetch_error \<Rightarrow> string" where
  "fetch_error_display GitUnavailable = ''the `git` executable is required but was not found on PATH''"
| "fetch_error_display (GitFailed args status stderr) =
     ''git '' @ args @ '' failed (exit '' @ show_exit status @ ''): '' @ trim stderr"
| "fetch_error_display (NoSource name) =
     ''dependency '' @ quoted name @ '' declares neither `path` nor `git`''"
| "fetch_error_display (MissingUrl name) =
     ''git dependency '' @ quoted name @ '' is missing a `git` URL''"
| "fetch_error_display (FetchIo context source) = ''I/O error '' @ context @ '': '' @ source"

datatype sync_error =
    InvalidManifest string
  | MissingLock
  | SyncGitUnavailable
  | SyncGit string "int option" string
  | UnknownReference string
  | NetworkFailure string
  | DetachedBranch string
  | SyncIo string string

fun sync_error_display :: "sync_error \<Rightarrow> string" where
  "sync_error_display (InvalidManifest m) = ''invalid manifest: '' @ m"
| "sync_error_display MissingLock = ''no sdkt.lock found; run `sdkt package fetch` first''"
| "sync_error_display SyncGitUnavailable = ''the `git` executable is required but was not found on PATH''"
| "sync_error_display (SyncGit args status stderr) =
     ''git '' @ args @ '' failed (exit '' @ show_exit status @ ''): '' @ trim stderr"
| "sync_error_display (UnknownReference r) = ''unknown git reference: '' @ r"
| "sync_error_display (NetworkFailure m) = ''network failure contacting git remote: '' @ m"
| "sync_error_display (DetachedBranch n) =
     ''dependency '' @ quoted n @ '' cache is detached (not on its declared branch)''"
| "sync_error_display (SyncIo context source) = ''I/O error '' @ context @ '': '' @ source"

definition is_network_failure :: "string \<Rightarrow> bool" where
  "is_network_failure stderr \<longleftrightarrow>
     str_contains ''Could not resolve host'' stderr \<or> str_contains ''timed out'' stderr \<or>
     str_contains ''Connection refused'' stderr \<or> str_contains ''unable to access'' stderr"

fun sync_error_from :: "fetch_error \<Rightarrow> sync_error" where
  "sync_error_from GitUnavailable = SyncGitUnavailable"
| "sync_error_from (GitFailed args status stderr) =
     (if is_network_failure stderr
      then NetworkFailure (''git '' @ args @ '' failed: '' @ trim stderr)
      else SyncGit args status stderr)"
| "sync_error_from other = SyncGit [] None (fetch_error_display other)"

section \<open>Running git\<close>

definition git_works :: "('w, 'ver, 'req) sys \<Rightarrow> 'w \<Rightarrow> string \<Rightarrow> bool" where
  "git_works S w bin \<longleftrightarrow>
     (case sys_query S w None bin [''--version''] of None \<Rightarrow> False | Some out \<Rightarrow> po_success out)"

definition git_bin :: "('w, 'ver, 'req) sys \<Rightarrow> 'w \<Rightarrow> string" where
  "git_bin S w =
     unwrap_or ''git''
       (find (git_works S w) [''git'', ''/usr/bin/git'', ''/usr/local/bin/git'', ''/bin/git''])"

definition git_query ::
  "('w, 'ver, 'req) sys \<Rightarrow> 'w \<Rightarrow> string option \<Rightarrow> string list \<Rightarrow> proc_output option" where
  "git_query S w dir args = sys_query S w dir (git_bin S w) args"

text \<open>The trimmed standard output of a query that succeeded, the empty string otherwise.\<close>

definition git_stdout :: "('w, 'ver, 'req) sys \<Rightarrow> 'w \<Rightarrow> string \<Rightarrow> string list \<Rightarrow> string" where
  "git_stdout S w dir args =
     (case git_query S w (Some dir) args of
        Some out \<Rightarrow> if po_success out then trim (po_stdout out) else []
      | None \<Rightarrow> [])"

definition git_available :: "('w, 'ver, 'req) sys \<Rightarrow> 'w \<Rightarrow> (unit, fetch_error) result" where
  "git_available S w =
     (case git_query S w None [''--version''] of None \<Rightarrow> Err GitUnavailable | Some _ \<Rightarrow> Ok ())"

definition head_rev :: "('w, 'ver, 'req) sys \<Rightarrow> 'w \<Rightarrow> string \<Rightarrow> string" where
  "head_rev S w checkout = git_stdout S w checkout [''rev-parse'', ''HEAD'']"

definition resolved_rev_for :: "('w, 'ver, 'req) sys \<Rightarrow> 'w \<Rightarrow> dependency \<Rightarrow> string \<Rightarrow> string" where
  "resolved_rev_for S w dep checkout =
     (case dep_rev dep of
        Some r \<Rightarrow> r
      | None \<Rightarrow>
          let refspec = unwrap_or []
                (or_else (map_option (\<lambda>t. ''refs/tags/'' @ t) (dep_tag dep))
                  (map_option (\<lambda>b. ''refs/remotes/origin/'' @ b) (dep_branch dep)))
          in if refspec = [] then head_rev S w checkout
             else git_stdout S w checkout [''rev-parse'', refspec])"

definition run_git ::
  "('w, 'ver, 'req) sys \<Rightarrow> string \<Rightarrow> string list \<Rightarrow> ('w, unit, fetch_error) io" where
  "run_git S dir args = (\<lambda>w.
     case sys_exec S w dir (git_bin S w) args of
       (w', None) \<Rightarrow> (w', Err GitUnavailable)
     | (w', Some out) \<Rightarrow>
         (w', if po_success out then Ok ()
              else Err (GitFailed (join_strs '' '' args) (po_code out) (po_stderr out))))"

section \<open>Remote tags and version constraints\<close>

definition remote_tag :: "string \<Rightarrow> (string \<times> string) option" where
  "remote_tag line =
     (case split_once [CHR 0x09] line of
        None \<Rightarrow> None
      | Some (sha, ref) \<Rightarrow>
          if ends_with ''^{}'' ref then None
          else (case strip_prefix ''refs/tags/'' ref of
                  None \<Rightarrow> None
                | Some t \<Rightarrow> if trim sha = [] then None else Some (t, trim sha)))"

definition git_probe :: "('w, 'ver, 'req) sys \<Rightarrow> 'w \<Rightarrow> (unit, sync_error) result" where
  "git_probe S w =
     (case git_query S w None [''--version''] of
        None \<Rightarrow> Err SyncGitUnavailable
      | Some out \<Rightarrow> if po_success out then Ok () else Err SyncGitUnavailable)"

definition ls_remote_failed :: "string \<Rightarrow> proc_output \<Rightarrow> sync_error" where
  "ls_remote_failed args out =
     (if is_network_failure (po_stderr out) then NetworkFailure (po_stderr out)
      else SyncGit args (po_code out) (po_stderr out))"

definition list_remote_tags ::
  "('w, 'ver, 'req) sys \<Rightarrow> 'w \<Rightarrow> string \<Rightarrow> ((string \<times> string) list, sync_error) result" where
  "list_remote_tags S w url =
     and_then (git_probe S w) (\<lambda>_.
       case git_query S w None [''ls-remote'', ''--tags'', url] of
         None \<Rightarrow> Err SyncGitUnavailable
       | Some out \<Rightarrow>
           if po_success out then Ok (List.map_filter remote_tag (str_lines (po_stdout out)))
           else Err (ls_remote_failed (''ls-remote --tags '' @ url) out))"

definition resolve_version_constraint ::
  "('w, 'ver, 'req) sys \<Rightarrow> 'w \<Rightarrow> string \<Rightarrow> string \<Rightarrow> ((string \<times> string) option, sync_error) result" where
  "resolve_version_constraint S w url constraint =
     map_ok (\<lambda>tags. best_version_match S tags constraint) (list_remote_tags S w url)"

section \<open>The cache\<close>

definition hex_digit :: "nat \<Rightarrow> char" where
  "hex_digit n = ''0123456789abcdef'' ! n"

text \<open>\<^verbatim>\<open>{:016x}\<close> of a 64-bit value.\<close>

definition hex16 :: "64 word \<Rightarrow> string" where
  "hex16 h = map (\<lambda>i. hex_digit (unat (drop_bit (4 * i) h AND 15))) (rev [0..<16])"

definition fnv1a_step :: "64 word \<Rightarrow> char \<Rightarrow> 64 word" where
  "fnv1a_step h b = (h XOR of_char b) * 0x100000001b3"

definition git_ref_of :: "dependency \<Rightarrow> string option" where
  "git_ref_of dep = or_else (dep_tag dep) (or_else (dep_branch dep) (dep_rev dep))"

definition git_cache_key :: "dependency \<Rightarrow> string" where
  "git_cache_key dep =
     hex16 (foldl fnv1a_step 0xcbf29ce484222325
       (unwrap_or [] (dep_git dep) @ unwrap_or ''head'' (git_ref_of dep)))"

record fetch_outcome =
  fo_name :: string
  fo_local_path :: string
  fo_resolved_rev :: string
  fo_already_present :: bool

text \<open>The dependency that is fetched: a version constraint without a reference becomes the tag
  it resolves to.\<close>

definition effective_dep ::
  "('w, 'ver, 'req) sys \<Rightarrow> 'w \<Rightarrow> string \<Rightarrow> dependency \<Rightarrow> (dependency, fetch_error) result" where
  "effective_dep S w url dep =
     (case dep_version dep of
        None \<Rightarrow> Ok dep
      | Some ver \<Rightarrow>
          if dep_tag dep = None \<and> dep_branch dep = None \<and> dep_rev dep = None then
            (case resolve_version_constraint S w url ver of
               Ok (Some (tag, _)) \<Rightarrow> Ok (default_dependency \<lparr>dep_git := Some url, dep_tag := Some tag\<rparr>)
             | Ok None \<Rightarrow> Err (GitFailed (''resolve version '' @ quoted ver) (Some 1)
                 (''no remote tag satisfies constraint '' @ quoted ver))
             | Err e \<Rightarrow> Err (GitFailed (''resolve version '' @ quoted ver) None (sync_error_display e))
             | Panic \<Rightarrow> Panic)
          else Ok dep)"

definition checkout_ref :: "dependency \<Rightarrow> string" where
  "checkout_ref dep =
     (case dep_rev dep of Some r \<Rightarrow> r
      | None \<Rightarrow> (case dep_tag dep of Some tag \<Rightarrow> tag
        | None \<Rightarrow> (case dep_branch dep of Some branch \<Rightarrow> ''origin/'' @ branch
          | None \<Rightarrow> ''origin/HEAD'')))"

definition git_dir :: "string \<Rightarrow> string" where
  "git_dir checkout = path_join checkout ''.git''"

text \<open>The working directory and arguments of the clone or of the update.\<close>

definition clone_args :: "bool \<Rightarrow> bool \<Rightarrow> string \<Rightarrow> string \<Rightarrow> string \<Rightarrow> string \<times> string list" where
  "clone_args existing force url parent checkout =
     (if existing then
        (checkout,
         if force then [''fetch'', ''--force'', url, ''+refs/heads/*:refs/remotes/origin/*'',
                        ''+refs/tags/*:refs/tags/*'']
         else [''fetch''])
      else (parent, [''clone'', ''--no-checkout'', url, checkout]))"

definition git_acquire ::
  "('w, 'ver, 'req) sys \<Rightarrow> string \<Rightarrow> string \<Rightarrow> string \<Rightarrow> dependency \<Rightarrow> string \<Rightarrow> bool \<Rightarrow> bool \<Rightarrow>
   ('w, fetch_outcome, fetch_error) io" where
  "git_acquire S name url parent dep checkout existing force =
     (let (workdir, args) = clone_args existing force url parent checkout in
      io_bind (run_git S workdir args) (\<lambda>_.
      io_bind (run_git S checkout [''checkout'', ''--force'', checkout_ref dep]) (\<lambda>_ w.
        (w, Ok \<lparr>fo_name = name, fo_local_path = checkout,
               fo_resolved_rev = resolved_rev_for S w dep checkout, fo_already_present = False\<rparr>))))"

text \<open>The whole fetch; \<open>w\<close> is the machine the first queries look at.\<close>

definition git_fetch_from ::
  "('w, 'ver, 'req) sys \<Rightarrow> 'w \<Rightarrow> string \<Rightarrow> string \<Rightarrow> dependency \<Rightarrow> bool \<Rightarrow>
   ('w, fetch_outcome, fetch_error) io" where
  "git_fetch_from S w cache_root name dep force =
     io_bind (io_return (ok_or (MissingUrl name) (dep_git dep))) (\<lambda>url.
     if trim url = [] then io_return (Err (MissingUrl name))
     else
       io_bind (io_return (git_available S w)) (\<lambda>_.
       io_bind (io_return (effective_dep S w url dep)) (\<lambda>eff.
       let parent = path_join cache_root ''git'';
           checkout = path_join parent (git_cache_key eff)
       in
       io_bind (\<lambda>w. case sys_create_dir_all S w parent of
            Inl source \<Rightarrow> (w, Err (FetchIo (''creating cache dir '' @ parent) source))
          | Inr w' \<Rightarrow> (w', Ok ())) (\<lambda>_ w.
       let existing = sys_exists S w (git_dir checkout);
           want = resolved_rev_for S w eff checkout
       in if existing \<and> \<not> force \<and> want \<noteq> [] \<and> want = head_rev S w checkout
          then (w, Ok \<lparr>fo_name = name, fo_local_path = checkout, fo_resolved_rev = want,
                       fo_already_present = True\<rparr>)
          else git_acquire S name url parent eff checkout existing force w))))"

definition git_fetch ::
  "('w, 'ver, 'req) sys \<Rightarrow> string \<Rightarrow> string \<Rightarrow> dependency \<Rightarrow> bool \<Rightarrow>
   ('w, fetch_outcome, fetch_error) io" where
  "git_fetch S cache_root name dep force = (\<lambda>w. git_fetch_from S w cache_root name dep force w)"

definition path_fetch :: "string \<Rightarrow> dependency \<Rightarrow> (fetch_outcome, fetch_error) result" where
  "path_fetch name dep =
     and_then (ok_or (NoSource name) (dep_path dep)) (\<lambda>p.
       if trim p = [] then Err (NoSource name)
       else Ok \<lparr>fo_name = name, fo_local_path = p, fo_resolved_rev = [], fo_already_present = True\<rparr>)"

section \<open>The cache key\<close>

lemma nibble_bits: "n < 64 \<Longrightarrow> bit (drop_bit (4 * (n div 4)) (h :: 64 word) AND 15) (n mod 4) = bit h n"
proof -
  have mask: "(15 :: 64 word) = mask 4" by (simp add: mask_eq_exp_minus_1)
  show "n < 64 \<Longrightarrow> bit (drop_bit (4 * (n div 4)) h AND 15) (n mod 4) = bit h n"
    unfolding mask by (simp only: bit_and_iff bit_drop_bit_eq bit_mask_iff o_def) (simp add: less_trans [of _ 4 64])
qed

lemma nibble_less: "unat ((h :: 64 word) AND 15) < 16"
proof -
  have "h AND 15 \<le> 15" by (rule word_and_le1)
  then show ?thesis by (simp add: word_le_nat_alt)
qed

lemma hex_digit_facts:
  "n < 16 \<Longrightarrow> hex_digit n \<in> set ''0123456789abcdef''"
  "m < 16 \<Longrightarrow> n < 16 \<Longrightarrow> hex_digit m = hex_digit n \<Longrightarrow> m = n"
proof -
  show "n < 16 \<Longrightarrow> hex_digit n \<in> set ''0123456789abcdef''"
    unfolding hex_digit_def by (rule nth_mem) simp
  have "distinct ''0123456789abcdef''" by code_simp
  then show "m < 16 \<Longrightarrow> n < 16 \<Longrightarrow> hex_digit m = hex_digit n \<Longrightarrow> m = n"
    unfolding hex_digit_def by (simp add: nth_eq_iff_index_eq del: distinct.simps nth_Cons_numeral)
qed

lemma hex16_shape: "length (hex16 h) = 16" "set (hex16 h) \<subseteq> set ''0123456789abcdef''"
  by (auto simp del: list.set simp: hex16_def intro!: hex_digit_facts(1) nibble_less)

lemma hex16_inject: "hex16 g = hex16 h \<longleftrightarrow> g = h"
proof
  assume eq: "hex16 g = hex16 h"
  have nib: "drop_bit (4 * i) g AND 15 = drop_bit (4 * i) h AND 15" if "i < 16" for i
  proof -
    have "hex_digit (unat (drop_bit (4 * i) g AND 15)) = hex_digit (unat (drop_bit (4 * i) h AND 15))"
      using eq that unfolding hex16_def map_eq_conv by simp
    then have "unat (drop_bit (4 * i) g AND 15) = unat (drop_bit (4 * i) h AND 15)"
      by (rule hex_digit_facts(2) [OF nibble_less nibble_less])
    then show ?thesis by (rule word_unat_eq_iff [THEN iffD2])
  qed
  show "g = h"
  proof (rule bit_word_eqI)
    fix n :: nat
    assume "n < LENGTH(64)"
    then have n: "n < 64" "n div 4 < 16" by auto
    show "bit g n = bit h n" using nib [OF n(2)] nibble_bits [OF n(1)] by metis
  qed
qed simp

text \<open>The FNV prime is odd, so multiplying by it modulo \<open>2 ^ 64\<close> can be undone, and so can a step.\<close>

lemma fnv_prime_cancel: "a * 0x100000001b3 = b * (0x100000001b3 :: 64 word) \<longleftrightarrow> a = b"
proof
  have inv: "0x100000001b3 * 0xce965057aff6957b = (1 :: 64 word)" by simp
  assume "a * 0x100000001b3 = b * (0x100000001b3 :: 64 word)"
  then have "a * (0x100000001b3 * 0xce965057aff6957b) = b * (0x100000001b3 * 0xce965057aff6957b)"
    by (simp only: mult.assoc [symmetric])
  then show "a = b" unfolding inv by simp
qed simp

lemma xor_cancel:
  "(a XOR c) = (b XOR c) \<longleftrightarrow> a = (b :: 64 word)" "(c XOR a) = (c XOR b) \<longleftrightarrow> a = (b :: 64 word)"
  by (auto simp: bit_eq_iff bit_xor_iff)

lemma of_char_word_inject: "(of_char a :: 64 word) = of_char b \<longleftrightarrow> a = b"
proof
  assume "(of_char a :: 64 word) = of_char b"
  then have "unat (of_char a :: 64 word) = unat (of_char b :: 64 word)" by simp
  moreover have "unat (of_char c :: 64 word) = of_char c" for c
  proof -
    have "(of_char c :: 64 word) = of_nat (of_char c)" by (simp add: of_char_def)
    moreover have "(of_char c :: nat) < 2 ^ 64"
      by (rule less_trans [OF nat_of_char_less_256]) simp
    ultimately show ?thesis by (simp only: unat_of_nat word_size len_num1 len_bit0) simp
  qed
  ultimately show "a = b" by simp
qed simp

lemma fnv1a_step_inject:
  "fnv1a_step g c = fnv1a_step h c \<longleftrightarrow> g = h" "fnv1a_step h b = fnv1a_step h c \<longleftrightarrow> b = c"
  by (simp_all add: fnv1a_step_def fnv_prime_cancel xor_cancel of_char_word_inject)

lemma fnv1a_inject: "foldl fnv1a_step g s = foldl fnv1a_step h s \<longleftrightarrow> g = h"
  by (induction s arbitrary: g h) (simp_all add: fnv1a_step_inject)

lemma git_cache_key_shape:
  "length (git_cache_key dep) = 16" "set (git_cache_key dep) \<subseteq> set ''0123456789abcdef''"
  "\<not> starts_with ''/'' (git_cache_key dep)"
proof -
  show shape: "length (git_cache_key dep) = 16" "set (git_cache_key dep) \<subseteq> set ''0123456789abcdef''"
    unfolding git_cache_key_def by (rule hex16_shape)+
  then have "hd (git_cache_key dep) \<in> set ''0123456789abcdef''"
    by (cases "git_cache_key dep") auto
  then show "\<not> starts_with ''/'' (git_cache_key dep)" by (auto simp: starts_with_singleton)
qed

definition cache_text :: "dependency \<Rightarrow> string" where
  "cache_text dep = unwrap_or [] (dep_git dep) @ unwrap_or ''head'' (git_ref_of dep)"

text \<open>
  The cache key is safe as a directory name whatever the URL and the reference contain:
  sixteen characters out of \<^verbatim>\<open>0-9a-f\<close>, so that the checkout is always a direct child of
  \<^verbatim>\<open><cache>/git\<close>. Two dependencies whose URL and reference texts differ in exactly one byte never
  share a key, although the key is a non-cryptographic 64-bit hash with wrap-around.
\<close>

theorem git_cache_key_safe:
  "length (git_cache_key dep) = 16 \<and> set (git_cache_key dep) \<subseteq> set ''0123456789abcdef'' \<and>
   path_join (path_join root ''git'') (git_cache_key dep) = path_join root ''git'' @ ''/'' @ git_cache_key dep \<and>
   (cache_text dep = p @ b # s \<and> cache_text dep' = p @ c # s \<longrightarrow>
      (git_cache_key dep = git_cache_key dep' \<longleftrightarrow> b = c))"
proof -
  have "path_join root ''git'' \<noteq> [] \<and> last (path_join root ''git'') = CHR ''t''"
    by (simp add: path_join_def)
  then have "path_join (path_join root ''git'') (git_cache_key dep) =
      path_join root ''git'' @ ''/'' @ git_cache_key dep"
    using git_cache_key_shape(3) by (subst path_join_def) auto
  moreover have "git_cache_key dep = git_cache_key dep' \<longleftrightarrow> b = c"
    if "cache_text dep = p @ b # s" and "cache_text dep' = p @ c # s"
    using that unfolding git_cache_key_def cache_text_def
    by (simp add: hex16_inject fnv1a_inject fnv1a_step_inject)
  ultimately show ?thesis using git_cache_key_shape by blast
qed

text \<open>
  The key identifies less than the source and its reference: a tag and a branch of the same
  name share one, and so do URLs and references whose concatenations agree, so that two valid
  dependencies with different sources can be handed the same checkout.
\<close>

theorem git_cache_key_ambiguous:
  "\<exists>d d' e. valid_git_ref S d \<and> valid_git_ref S d' \<and> valid_git_ref S e \<and>
     git_url_ok (unwrap_or [] (dep_git d)) \<and> git_url_ok (unwrap_or [] (dep_git e)) \<and>
     dep_git d = dep_git d' \<and> checkout_ref d \<noteq> checkout_ref d' \<and> dep_git d \<noteq> dep_git e \<and>
     git_cache_key d = git_cache_key d' \<and> git_cache_key d = git_cache_key e"
proof -
  let ?d = "default_dependency \<lparr>dep_git := Some ''/srv/lib'', dep_tag := Some ''v2x''\<rparr>"
  let ?d' = "default_dependency \<lparr>dep_git := Some ''/srv/lib'', dep_branch := Some ''v2x''\<rparr>"
  let ?e = "default_dependency \<lparr>dep_git := Some ''/srv/libv2'', dep_branch := Some ''x''\<rparr>"
  have trims: "trim ''v2x'' = ''v2x''" "trim ''x'' = ''x''" by code_simp+
  have keys: "git_cache_key ?d = git_cache_key ?d'" "git_cache_key ?d = git_cache_key ?e"
    by (simp_all add: git_cache_key_def git_ref_of_def default_dependency_def)
  have refs: "valid_git_ref S ?d" "valid_git_ref S ?d'" "valid_git_ref S ?e"
    by (simp_all add: valid_git_ref_def git_refs_def opt_list_def default_dependency_def trims)
  have "git_url_ok (unwrap_or [] (dep_git ?d))" "git_url_ok (unwrap_or [] (dep_git ?e))"
    by (simp_all add: git_url_ok_def default_dependency_def)
  moreover have "checkout_ref ?d \<noteq> checkout_ref ?d'" "dep_git ?d \<noteq> dep_git ?e" "dep_git ?d = dep_git ?d'"
    by (simp_all add: checkout_ref_def default_dependency_def)
  ultimately show ?thesis using keys refs by blast
qed

section \<open>The reference that is fetched\<close>

lemma list_remote_tags_Ok:
  assumes "list_remote_tags S w url = Ok tags"
  obtains out where "git_query S w None [''ls-remote'', ''--tags'', url] = Some out" and "po_success out"
    and "tags = List.map_filter remote_tag (str_lines (po_stdout out))"
  using assms by (auto simp: list_remote_tags_def split: option.splits if_splits)

lemma remote_tag_Some:
  "remote_tag line = Some (t, c) \<longleftrightarrow>
     (\<exists>sha. line = sha @ CHR 0x09 # ''refs/tags/'' @ t \<and> CHR 0x09 \<notin> set sha \<and> c = trim sha \<and> c \<noteq> [] \<and>
        \<not> ends_with ''^{}'' (''refs/tags/'' @ t))"
proof
  assume *: "remote_tag line = Some (t, c)"
  then obtain sha ref where line: "split_once [CHR 0x09] line = Some (sha, ref)"
    and ref: "strip_prefix ''refs/tags/'' ref = Some t" "\<not> ends_with ''^{}'' ref"
    and c: "c = trim sha" "c \<noteq> []"
    by (auto simp: remote_tag_def split: option.splits if_splits)
  then show "\<exists>sha. line = sha @ CHR 0x09 # ''refs/tags/'' @ t \<and> CHR 0x09 \<notin> set sha \<and> c = trim sha \<and>
      c \<noteq> [] \<and> \<not> ends_with ''^{}'' (''refs/tags/'' @ t)"
    using split_once_char_iff [of "CHR 0x09" line sha ref] by (auto simp: strip_prefix_iff)
next
  assume "\<exists>sha. line = sha @ CHR 0x09 # ''refs/tags/'' @ t \<and> CHR 0x09 \<notin> set sha \<and> c = trim sha \<and> c \<noteq> [] \<and>
        \<not> ends_with ''^{}'' (''refs/tags/'' @ t)"
  then obtain sha where line: "line = sha @ CHR 0x09 # ''refs/tags/'' @ t" "CHR 0x09 \<notin> set sha"
    and c: "c = trim sha" "c \<noteq> []" "\<not> ends_with ''^{}'' (''refs/tags/'' @ t)" by blast
  from line have "split_once [CHR 0x09] line = Some (sha, ''refs/tags/'' @ t)"
    by (simp only: split_once_char_iff) blast
  moreover have "strip_prefix ''refs/tags/'' (''refs/tags/'' @ t) = Some t"
    by (simp only: strip_prefix_iff)
  ultimately show "remote_tag line = Some (t, c)"
    unfolding remote_tag_def using c by simp
qed

text \<open>
  Every pair that \<open>list_remote_tags\<close> returns comes from the tag's own line of the
  \<^verbatim>\<open>git ls-remote --tags\<close> output, with the object name of that line, and every such line is
  returned. The peeled lines (\<^verbatim>\<open>^{}\<close>) are skipped, so that for an annotated tag the object name is
  that of the tag object and not, as the documentation says, the peeled commit.
\<close>

theorem remote_tags_unpeeled:
  assumes "list_remote_tags S w url = Ok tags"
  shows "\<exists>out. git_query S w None [''ls-remote'', ''--tags'', url] = Some out \<and> po_success out \<and>
    (\<forall>t c. (t, c) \<in> set tags \<longleftrightarrow>
       (\<exists>line sha. line \<in> set (str_lines (po_stdout out)) \<and>
          line = sha @ CHR 0x09 # ''refs/tags/'' @ t \<and> CHR 0x09 \<notin> set sha \<and>
          c = trim sha \<and> c \<noteq> [] \<and> \<not> ends_with ''^{}'' (''refs/tags/'' @ t)))"
proof -
  from assms obtain out where out: "git_query S w None [''ls-remote'', ''--tags'', url] = Some out"
    "po_success out" and tags: "tags = List.map_filter remote_tag (str_lines (po_stdout out))"
    by (rule list_remote_tags_Ok)
  have mem: "(t, c) \<in> set tags \<longleftrightarrow> (\<exists>line. line \<in> set (str_lines (po_stdout out)) \<and> remote_tag line = Some (t, c))" for t c
    unfolding tags map_filter_def by force
  show ?thesis
    by (rule exI [of _ out]) (simp only: out mem remote_tag_Some simp_thms ex_simps)
qed

lemma effective_dep_cases:
  assumes "effective_dep S w url dep = Ok eff"
  obtains (declared) "eff = dep" and "dep_version dep = None \<or> git_refs dep \<noteq> []"
  | (resolved) ver tags tag commit where "dep_version dep = Some ver" and "git_refs dep = []"
      and "list_remote_tags S w url = Ok tags"
      and "best_version_match S tags ver = Some (tag, commit)"
      and "eff = default_dependency \<lparr>dep_git := Some url, dep_tag := Some tag\<rparr>"
  using assms
  by (auto simp: effective_dep_def resolve_version_constraint_def git_refs_Nil
      split: option.splits if_splits result.splits prod.splits)


section \<open>Fetching\<close>

lemma git_fetch_Ok_cases:
  assumes "git_fetch S root name dep force w = (w', Ok out)"
  obtains (present) url eff w0 where "dep_git dep = Some url" and "trim url \<noteq> []"
      and "git_available S w = Ok ()" and "effective_dep S w url dep = Ok eff"
      and "sys_create_dir_all S w (path_join root ''git'') = Inr w0" and "w' = w0"
      and "fo_local_path out = path_join (path_join root ''git'') (git_cache_key eff)"
      and "\<not> force" and "sys_exists S w0 (git_dir (fo_local_path out))"
      and "fo_resolved_rev out = resolved_rev_for S w0 eff (fo_local_path out)"
      and "fo_resolved_rev out \<noteq> []" and "fo_resolved_rev out = head_rev S w0 (fo_local_path out)"
      and "fo_already_present out" and "fo_name out = name"
  | (acquired) url eff w0 dir args w1 where "dep_git dep = Some url" and "trim url \<noteq> []"
      and "git_available S w = Ok ()" and "effective_dep S w url dep = Ok eff"
      and "sys_create_dir_all S w (path_join root ''git'') = Inr w0"
      and "fo_local_path out = path_join (path_join root ''git'') (git_cache_key eff)"
      and "clone_args (sys_exists S w0 (git_dir (fo_local_path out))) force url
             (path_join root ''git'') (fo_local_path out) = (dir, args)"
      and "run_git S dir args w0 = (w1, Ok ())"
      and "run_git S (fo_local_path out) [''checkout'', ''--force'', checkout_ref eff] w1 = (w', Ok ())"
      and "fo_resolved_rev out = resolved_rev_for S w' eff (fo_local_path out)"
      and "\<not> fo_already_present out" and "fo_name out = name"
proof -
  from assms obtain url eff w0 where url: "dep_git dep = Some url" "trim url \<noteq> []"
    and av: "git_available S w = Ok ()" and eff: "effective_dep S w url dep = Ok eff"
    and mk: "sys_create_dir_all S w (path_join root ''git'') = Inr w0"
    by (auto simp: git_fetch_def git_fetch_from_def Let_def io_bind_Ok_iff split: if_splits sum.splits)
  let ?c = "path_join (path_join root ''git'') (git_cache_key eff)"
  let ?ex = "sys_exists S w0 (git_dir ?c)"
  let ?want = "resolved_rev_for S w0 eff ?c"
  have run: "(if ?ex \<and> \<not> force \<and> ?want \<noteq> [] \<and> ?want = head_rev S w0 ?c
      then (w0, Ok \<lparr>fo_name = name, fo_local_path = ?c, fo_resolved_rev = ?want, fo_already_present = True\<rparr>)
      else git_acquire S name url (path_join root ''git'') eff ?c ?ex force w0) = (w', Ok out)"
    using assms url av eff mk by (simp add: git_fetch_def git_fetch_from_def Let_def io_bind_def)
  show thesis
  proof (cases "?ex \<and> \<not> force \<and> ?want \<noteq> [] \<and> ?want = head_rev S w0 ?c")
    case True
    with run show thesis by (intro present [OF url av eff mk]) auto
  next
    case False
    with run have acq: "git_acquire S name url (path_join root ''git'') eff ?c ?ex force w0 = (w', Ok out)"
      by (simp only: if_False)
    obtain dir args where da: "clone_args ?ex force url (path_join root ''git'') ?c = (dir, args)"
      by fastforce
    from acq show thesis
      by (auto simp: git_acquire_def da io_bind_Ok_iff intro!: acquired [OF url av eff mk _ _ _ _ _ _])
  qed
qed

lemma resolve_version_constraint_no_panic: "resolve_version_constraint S w url ver \<noteq> Panic"
  by (auto simp: resolve_version_constraint_def list_remote_tags_def git_probe_def
      and_then_Panic_iff split: option.splits if_splits)

lemma effective_dep_no_panic: "effective_dep S w url dep \<noteq> Panic"
  using resolve_version_constraint_no_panic [of S w url]
  by (auto simp: effective_dep_def split: option.splits if_splits result.splits prod.splits)

lemma run_git_safe: "io_safe (run_git S dir args)"
  by (auto simp: io_safe_def run_git_def split: prod.splits option.splits)

lemma git_acquire_safe: "io_safe (git_acquire S name url parent eff c ex force)"
proof -
  obtain dir args where "clone_args ex force url parent c = (dir, args)" by fastforce
  then show ?thesis unfolding git_acquire_def
    by (simp only: Let_def prod.case) (intro io_safe_bind run_git_safe, simp add: io_safe_def)
qed

lemma git_fetch_no_panic: "snd (git_fetch S root name dep force w) \<noteq> Panic"
proof -
  have acq: "snd (git_acquire S name url parent eff c ex force w) \<noteq> Panic" for url parent eff c ex w
    by (rule git_acquire_safe [unfolded io_safe_def, THEN spec])
  have av: "git_available S w \<noteq> Panic" by (simp add: git_available_def split: option.splits)
  have mk: "io_safe (\<lambda>w. case sys_create_dir_all S w p of
      Inl source \<Rightarrow> (w, Err (e source)) | Inr w' \<Rightarrow> (w', Ok ()))" for p and e :: "string \<Rightarrow> fetch_error"
    by (simp add: io_safe_def split: sum.splits)
  have "io_safe (git_fetch_from S w root name dep force)"
    unfolding git_fetch_from_def Let_def
    by (intro io_safe_bind io_safe_if mk)
       (simp_all add: av effective_dep_no_panic, simp add: io_safe_def acq)
  then show ?thesis by (simp add: io_safe_def git_fetch_def)
qed

text \<open>
  A successful fetch names the dependency, places it under the cache key of the reference
  that was fetched and reports the commit that reference resolves to in the final state. When
  it reports a checkout as already present, it ran no command that changes a checkout, was not
  forced, and the checkout is at that commit; otherwise it ran exactly one clone or update and
  then one forced checkout of the reference, both successfully. A fetch never panics.
\<close>

theorem git_fetch_outcome:
  "snd (git_fetch S root name dep force w) \<noteq> Panic \<and>
   (git_fetch S root name dep force w = (w', Ok out) \<longrightarrow>
    (\<exists>url eff w0. dep_git dep = Some url \<and> effective_dep S w url dep = Ok eff \<and>
       sys_create_dir_all S w (path_join root ''git'') = Inr w0 \<and> fo_name out = name \<and>
       fo_local_path out = path_join (path_join root ''git'') (git_cache_key eff) \<and>
       fo_resolved_rev out = resolved_rev_for S w' eff (fo_local_path out) \<and>
       (if fo_already_present out
        then w' = w0 \<and> \<not> force \<and> fo_resolved_rev out \<noteq> [] \<and>
          head_rev S w' (fo_local_path out) = fo_resolved_rev out
        else \<exists>dir args w1.
          clone_args (sys_exists S w0 (git_dir (fo_local_path out))) force url
            (path_join root ''git'') (fo_local_path out) = (dir, args) \<and>
          run_git S dir args w0 = (w1, Ok ()) \<and>
          run_git S (fo_local_path out) [''checkout'', ''--force'', checkout_ref eff] w1 = (w', Ok ()))))"
  (is "?no_panic \<and> (?ran \<longrightarrow> ?outcome)")
proof (intro conjI impI)
  show ?no_panic by (rule git_fetch_no_panic)
  assume ?ran
  then show ?outcome
    by (cases rule: git_fetch_Ok_cases) (fastforce split: if_splits)+
qed

text \<open>
  Fetching is idempotent. After a successful fetch that left the checkout at the commit it
  reports, with the cache directory in place and the remote resolving as before, an unforced
  fetch of the same dependency changes nothing and returns the same outcome, marked as already
  present.
\<close>

theorem git_fetch_idempotent:
  assumes "git_fetch S root name dep force w = (w', Ok out)"
    and "head_rev S w' (fo_local_path out) = fo_resolved_rev out" and "fo_resolved_rev out \<noteq> []"
    and "sys_exists S w' (git_dir (fo_local_path out))"
    and "sys_create_dir_all S w' (path_join root ''git'') = Inr w'"
    and "git_available S w' = Ok ()"
    and "\<And>url. dep_git dep = Some url \<Longrightarrow> effective_dep S w' url dep = effective_dep S w url dep"
  shows "git_fetch S root name dep False w' = (w', Ok (out \<lparr>fo_already_present := True\<rparr>))"
proof -
  from assms(1) obtain url eff where url: "dep_git dep = Some url" "trim url \<noteq> []"
    and eff: "effective_dep S w url dep = Ok eff" and n: "fo_name out = name"
    and path: "fo_local_path out = path_join (path_join root ''git'') (git_cache_key eff)"
    and rev: "fo_resolved_rev out = resolved_rev_for S w' eff (fo_local_path out)"
    by (cases rule: git_fetch_Ok_cases) blast+
  have "out \<lparr>fo_already_present := True\<rparr> =
      \<lparr>fo_name = name, fo_local_path = fo_local_path out, fo_resolved_rev = fo_resolved_rev out,
       fo_already_present = True\<rparr>" using n by simp
  then show ?thesis
    using assms(2-6) assms(7) [OF url(1)] eff url rev [symmetric]
    by (simp add: git_fetch_def git_fetch_from_def Let_def io_bind_def path [symmetric])
qed

section \<open>Witnesses\<close>

text \<open>A machine with one checkout, whose state is the commit it is at (nothing before a clone);
  the remote has the tags \<^verbatim>\<open>v1.2\<close> and \<^verbatim>\<open>v1.10\<close>.\<close>

definition ok_output :: "string \<Rightarrow> proc_output" where
  "ok_output s = \<lparr>po_success = True, po_code = Some 0, po_stdout = s, po_stderr = []\<rparr>"

definition git_machine :: "(string option, nat list, nat list) sys" where
  "git_machine =
     \<lparr>sys_exists = \<lambda>w _. w \<noteq> None, sys_is_dir = \<lambda>_ _. True, sys_read_dir = \<lambda>_ _. Some [],
      sys_is_file = \<lambda>_ _. True, sys_read = \<lambda>_ _. Inl ''no such file'',
      sys_read_to_string = \<lambda>_ _. Inl ''no such file'',
      sys_write = \<lambda>w _ _. Inr w, sys_create_dir_all = \<lambda>w _. Inr w,
      sys_query = \<lambda>w dir bin args.
        if args = [''--version''] then Some (ok_output ''git version 2'')
        else if args = [''rev-parse'', ''HEAD''] then Some (ok_output (unwrap_or [] w))
        else if args = [''rev-parse'', ''refs/tags/v1.10''] then Some (ok_output ''c0ffee'')
        else if hd args = ''ls-remote'' then Some (ok_output
          (''beef'' @ [CHR 0x09] @ ''refs/tags/v1.2'' @ [CHR 0x0A] @
           ''c0ffee'' @ [CHR 0x09] @ ''refs/tags/v1.10'' @ [CHR 0x0A]))
        else None,
      sys_exec = \<lambda>w dir bin args.
        (if hd args = ''checkout'' then Some ''c0ffee'' else Some [], Some (ok_output [])),
      sys_sha256_hex = \<lambda>s. s, sys_version_parse = parse_version_list,
      sys_version_ge = \<lambda>a b. b \<le> a,
      sys_req_parse = \<lambda>c. Option.bind (strip_prefix ''>='' c) parse_version_list,
      sys_req_matches = \<lambda>r v. r \<le> v\<rparr>"

definition constrained_dep :: dependency where
  "constrained_dep = default_dependency \<lparr>dep_git := Some ''/srv/lib'', dep_version := Some ''>=1.0''\<rparr>"

definition resolved_dep :: dependency where
  "resolved_dep = default_dependency \<lparr>dep_git := Some ''/srv/lib'', dep_tag := Some ''v1.10''\<rparr>"

lemma git_machine_eval:
  "list_remote_tags git_machine w ''/srv/lib'' = Ok [(''v1.2'', ''beef''), (''v1.10'', ''c0ffee'')]"
  "effective_dep git_machine w ''/srv/lib'' constrained_dep = Ok resolved_dep"
  "valid_git_ref git_machine constrained_dep" "semver_ordered git_machine"
proof -
  show "list_remote_tags git_machine w ''/srv/lib'' = Ok [(''v1.2'', ''beef''), (''v1.10'', ''c0ffee'')]"
    by code_simp
  show "effective_dep git_machine w ''/srv/lib'' constrained_dep = Ok resolved_dep"
    by code_simp
  have "sys_req_parse git_machine ''>=1.0'' = Some [1, 0]" by code_simp
  then show "valid_git_ref git_machine constrained_dep"
    by (auto simp: valid_git_ref_def git_refs_def opt_list_def constrained_dep_def default_dependency_def)
  show "semver_ordered git_machine"
    by (auto simp: semver_ordered_def git_machine_def)
qed

theorem git_cache_key_safe_witness:
  "git_cache_key resolved_dep \<noteq> git_cache_key (resolved_dep \<lparr>dep_tag := Some ''v1.11''\<rparr>)"
proof -
  have "cache_text resolved_dep = ''/srv/libv1.1'' @ CHR ''0'' # []"
    "cache_text (resolved_dep \<lparr>dep_tag := Some ''v1.11''\<rparr>) = ''/srv/libv1.1'' @ CHR ''1'' # []"
    by (simp_all add: cache_text_def git_ref_of_def resolved_dep_def default_dependency_def)
  then show ?thesis
    using git_cache_key_safe [of resolved_dep _ "''/srv/libv1.1''" "CHR ''0''" "[]"
        "resolved_dep \<lparr>dep_tag := Some ''v1.11''\<rparr>" "CHR ''1''"] by simp
qed

theorem remote_tags_unpeeled_witness:
  "\<exists>out. git_query git_machine None None [''ls-remote'', ''--tags'', ''/srv/lib''] = Some out \<and>
     po_success out"
  using remote_tags_unpeeled [OF git_machine_eval(1)] by blast


definition first_outcome :: fetch_outcome where
  "first_outcome =
     \<lparr>fo_name = ''lib'',
      fo_local_path = path_join (path_join ''.sdkt-cache'' ''git'') (git_cache_key resolved_dep),
      fo_resolved_rev = ''c0ffee'', fo_already_present = False\<rparr>"

lemma first_fetch:
  "git_fetch git_machine ''.sdkt-cache'' ''lib'' constrained_dep True None = (Some ''c0ffee'', Ok first_outcome)"
proof -
  have "dep_git constrained_dep = Some ''/srv/lib''" "trim ''/srv/lib'' \<noteq> []"
    "git_available git_machine None = Ok ()" by code_simp+
  moreover have "sys_create_dir_all git_machine None p = Inr None" "\<not> sys_exists git_machine None p" for p
    by (simp_all add: git_machine_def)
  moreover have "git_acquire git_machine ''lib'' ''/srv/lib'' p resolved_dep c False True None =
      (Some ''c0ffee'', Ok \<lparr>fo_name = ''lib'', fo_local_path = c, fo_resolved_rev = ''c0ffee'',
         fo_already_present = False\<rparr>)" for p c
    by code_simp
  ultimately show ?thesis
    using git_machine_eval(2)
    by (simp add: git_fetch_def git_fetch_from_def Let_def io_bind_def first_outcome_def)
qed

theorem git_fetch_outcome_witness:
  "fo_resolved_rev first_outcome = ''c0ffee'' \<and> fo_name first_outcome = ''lib'' \<and>
   (\<exists>eff. effective_dep git_machine None ''/srv/lib'' constrained_dep = Ok eff)"
  using git_fetch_outcome [of git_machine "''.sdkt-cache''" "''lib''" constrained_dep True None]
    first_fetch git_machine_eval(2) by (auto simp: first_outcome_def)

theorem git_fetch_idempotent_witness:
  "git_fetch git_machine ''.sdkt-cache'' ''lib'' constrained_dep False (Some ''c0ffee'') =
     (Some ''c0ffee'', Ok (first_outcome \<lparr>fo_already_present := True\<rparr>))"
proof (rule git_fetch_idempotent [OF first_fetch])
  show "head_rev git_machine (Some ''c0ffee'') (fo_local_path first_outcome) = fo_resolved_rev first_outcome"
    unfolding first_outcome_def head_rev_def git_stdout_def git_query_def
    by (simp add: git_machine_def ok_output_def) code_simp
  show "git_available git_machine (Some ''c0ffee'') = Ok ()" by code_simp
  show "effective_dep git_machine (Some ''c0ffee'') url constrained_dep =
      effective_dep git_machine None url constrained_dep"
    if "dep_git constrained_dep = Some url" for url
  proof -
    have "url = ''/srv/lib''" using that by (simp add: constrained_dep_def)
    then show ?thesis by (simp only: git_machine_eval(2))
  qed
qed (simp_all add: first_outcome_def git_machine_def)

end
