(* ===== verification/Lock.thy ===== *)
theory Lock
  imports Project Fetch
begin

text \<open>
  The lock file \<^verbatim>\<open>sdkt.lock\<close> of \<^verbatim>\<open>sdkt-core/src/lock.rs\<close>: generation, reading and writing, and the
  two verifications, of the contract artifacts (\<open>verify_lock\<close>) and of the dependencies
  (\<open>verify_dependencies\<close>). The TOML text of a lock is produced and parsed by the \<^verbatim>\<open>toml\<close> crate and
  is the parameter \<open>lock_codec\<close>. The recursive directory walk of the integrity hash takes the
  depth of the call stack as its fuel, and an overflow is a panic.
\<close>

section \<open>Data\<close>

record lock_entry =
  le_alias :: string
  le_path :: string
  le_artifact :: string
  le_sha256 :: string
  le_order :: nat

record dependency_lock =
  dl_name :: string
  dl_source :: string
  dl_original_source :: string
  dl_git_url :: string
  dl_resolved_reference :: string
  dl_commit_sha :: string
  dl_cache_location :: string
  dl_integrity :: string
  dl_version :: string

record lock_file =
  lf_version :: nat
  lf_deploy_order :: "string list"
  lf_contracts :: "lock_entry list"
  lf_dependencies :: "dependency_lock list"

datatype lock_error =
    ProjectFailed project_error
  | ArtifactNotFound string
  | LockIo string string
  | LockWrite string string
  | LockParse string string

fun lock_error_display :: "lock_error \<Rightarrow> string" where
  "lock_error_display (ProjectFailed e) = ''project resolution failed: '' @ project_error_display e"
| "lock_error_display (ArtifactNotFound alias) = ''no WASM artifact found for contract '' @ quoted alias"
| "lock_error_display (LockIo alias source) =
     ''I/O error reading artifact for '' @ quoted alias @ '': '' @ source"
| "lock_error_display (LockWrite p source) = ''failed to write lock file '' @ p @ '': '' @ source"
| "lock_error_display (LockParse p source) = ''failed to parse lock file '' @ p @ '': '' @ source"

definition LOCK_VERSION :: nat where
  "LOCK_VERSION = 1"

definition LOCK_FILE_NAME :: string where
  "LOCK_FILE_NAME = ''sdkt.lock''"

record lock_codec =
  lc_print :: "lock_file \<Rightarrow> string + string"
  lc_parse :: "string \<Rightarrow> string + lock_file"

section \<open>Generation\<close>

definition compute_sha256 :: "('w, 'ver, 'req) sys \<Rightarrow> 'w \<Rightarrow> string \<Rightarrow> (string, lock_error) result" where
  "compute_sha256 S w p =
     (case sys_read S w p of
        Inl source \<Rightarrow> Err (LockIo p source)
      | Inr bytes \<Rightarrow> Ok (sys_sha256_hex S bytes))"

definition find_artifact :: "('w, 'ver, 'req) sys \<Rightarrow> 'w \<Rightarrow> string \<Rightarrow> string \<Rightarrow> string option" where
  "find_artifact S w base_dir contract_path = first_wasm S w (release_dir (path_join base_dir contract_path))"

definition generate_entry ::
  "('w, 'ver, 'req) sys \<Rightarrow> 'w \<Rightarrow> string \<Rightarrow> devkit_config \<Rightarrow> nat \<times> string \<Rightarrow> (lock_entry, lock_error) result" where
  "generate_entry S w base_dir cfg = (\<lambda>(order, alias).
     and_then (unwrap (hm_get (contracts cfg) alias)) (\<lambda>c.
     and_then (ok_or (ArtifactNotFound alias) (find_artifact S w base_dir (cc_path c))) (\<lambda>artifact.
     and_then (compute_sha256 S w artifact) (\<lambda>sha256.
       Ok \<lparr>le_alias = alias, le_path = cc_path c, le_artifact = artifact, le_sha256 = sha256,
           le_order = order\<rparr>))))"

definition empty_dependency_lock :: dependency_lock where
  "empty_dependency_lock =
     \<lparr>dl_name = [], dl_source = [], dl_original_source = [], dl_git_url = [],
      dl_resolved_reference = [], dl_commit_sha = [], dl_cache_location = [], dl_integrity = [],
      dl_version = []\<rparr>"

text \<open>One entry of \<open>lock_dependencies\<close>.\<close>

definition lock_dependency :: "string \<Rightarrow> string \<times> dependency \<Rightarrow> dependency_lock" where
  "lock_dependency base_dir = (\<lambda>(name, dep).
     case dep_git dep of
       Some url \<Rightarrow> empty_dependency_lock
         \<lparr>dl_name := name, dl_source := ''git'', dl_original_source := url, dl_git_url := url,
          dl_resolved_reference := unwrap_or [] (git_ref_of dep),
          dl_version := unwrap_or [] (dep_version dep)\<rparr>
     | None \<Rightarrow>
         let p = unwrap_or [] (dep_path dep)
         in empty_dependency_lock
           \<lparr>dl_name := name, dl_source := ''local'',
            dl_original_source := (if p = [] then p else path_join base_dir p)\<rparr>)"

definition lock_dependencies :: "string \<Rightarrow> (string, dependency) hash_map \<Rightarrow> dependency_lock list" where
  "lock_dependencies base_dir deps = map (lock_dependency base_dir) deps"

definition generate_lock ::
  "('w, 'ver, 'req) sys \<Rightarrow> 'w \<Rightarrow> string \<Rightarrow> devkit_config \<Rightarrow> (lock_file, lock_error) result" where
  "generate_lock S w base_dir cfg =
     and_then (map_err ProjectFailed (resolve_deploy_order cfg)) (\<lambda>ordered.
     and_then (try_map (generate_entry S w base_dir cfg) (enumerate 0 ordered)) (\<lambda>entries.
       Ok \<lparr>lf_version = LOCK_VERSION, lf_deploy_order = ordered, lf_contracts = entries,
           lf_dependencies = lock_dependencies base_dir (dependencies cfg)\<rparr>))"

section \<open>Reading and writing\<close>

definition lock_to_toml :: "lock_codec \<Rightarrow> lock_file \<Rightarrow> (string, lock_error) result" where
  "lock_to_toml C lock =
     (case lc_print C lock of Inl source \<Rightarrow> Err (LockWrite LOCK_FILE_NAME source) | Inr t \<Rightarrow> Ok t)"

definition lock_from_toml :: "lock_codec \<Rightarrow> string \<Rightarrow> (lock_file, lock_error) result" where
  "lock_from_toml C content =
     (case lc_parse C content of Inl source \<Rightarrow> Err (LockParse LOCK_FILE_NAME source) | Inr l \<Rightarrow> Ok l)"

definition write_lock ::
  "('w, 'ver, 'req) sys \<Rightarrow> lock_codec \<Rightarrow> string \<Rightarrow> lock_file \<Rightarrow> ('w, string, lock_error) io" where
  "write_lock S C dir lock =
     io_bind (io_return (lock_to_toml C lock)) (\<lambda>toml w.
       let p = path_join dir LOCK_FILE_NAME
       in case sys_write S w p toml of
            Inl source \<Rightarrow> (w, Err (LockWrite p source))
          | Inr w' \<Rightarrow> (w', Ok p))"

definition read_lock ::
  "('w, 'ver, 'req) sys \<Rightarrow> lock_codec \<Rightarrow> 'w \<Rightarrow> string \<Rightarrow> (lock_file, lock_error) result" where
  "read_lock S C w dir =
     (let p = path_join dir LOCK_FILE_NAME
      in case sys_read_to_string S w p of
           Inl source \<Rightarrow> Err (LockParse p source)
         | Inr content \<Rightarrow> lock_from_toml C content)"

section \<open>Verification of the artifacts\<close>

record lock_verify_report =
  lv_present :: bool
  lv_consistent :: bool
  lv_mismatched :: "string list"
  lv_missing_in_lock :: "string list"

definition artifact_mismatched :: "('w, 'ver, 'req) sys \<Rightarrow> 'w \<Rightarrow> string \<Rightarrow> lock_entry \<Rightarrow> bool" where
  "artifact_mismatched S w base_dir entry \<longleftrightarrow>
     compute_sha256 S w (path_join base_dir (le_artifact entry)) \<noteq> Ok (le_sha256 entry)"

definition verify_lock ::
  "('w, 'ver, 'req) sys \<Rightarrow> lock_codec \<Rightarrow> 'w \<Rightarrow> string \<Rightarrow> devkit_config \<Rightarrow> lock_verify_report" where
  "verify_lock S C w base_dir cfg =
     (case read_lock S C w base_dir of
        Ok lock \<Rightarrow>
          let missing = filter (\<lambda>a. a \<notin> set (map le_alias (lf_contracts lock))) (hm_keys (contracts cfg));
              mismatched = map le_alias (filter (artifact_mismatched S w base_dir) (lf_contracts lock))
          in \<lparr>lv_present = True, lv_consistent = (mismatched = [] \<and> missing = []),
              lv_mismatched = mismatched, lv_missing_in_lock = missing\<rparr>
      | _ \<Rightarrow> \<lparr>lv_present = False, lv_consistent = False, lv_mismatched = [],
              lv_missing_in_lock = hm_keys (contracts cfg)\<rparr>)"

section \<open>Integrity\<close>

definition git_head_commit :: "('w, 'ver, 'req) sys \<Rightarrow> 'w \<Rightarrow> string \<Rightarrow> string" where
  "git_head_commit S w checkout = git_stdout S w checkout [''rev-parse'', ''HEAD'']"

definition dep_checkout :: "string \<Rightarrow> dependency \<Rightarrow> string" where
  "dep_checkout base_dir dep =
     path_join (path_join (path_join base_dir ''.sdkt-cache'') ''git'') (git_cache_key dep)"

definition git_integrity :: "('w, 'ver, 'req) sys \<Rightarrow> 'w \<Rightarrow> string \<Rightarrow> dependency \<Rightarrow> string" where
  "git_integrity S w base_dir dep =
     (let checkout = dep_checkout base_dir dep;
          tree = git_stdout S w checkout [''rev-parse'', ''HEAD^{tree}'']
      in if sys_exists S w (git_dir checkout) \<and> tree \<noteq> [] then ''sha256:'' @ tree else [])"

primrec collect_files :: "nat \<Rightarrow> ('w, 'ver, 'req) sys \<Rightarrow> 'w \<Rightarrow> string \<Rightarrow> (string list, 'e) result" where
  "collect_files 0 S w dir = Panic"
| "collect_files (Suc stack) S w dir =
     (case sys_read_dir S w dir of
        None \<Rightarrow> Ok []
      | Some entries \<Rightarrow>
          map_ok concat (try_map (\<lambda>p.
            if sys_is_dir S w p then collect_files stack S w p
            else if sys_is_file S w p then Ok [p] else Ok []) entries))"

definition path_relative :: "string \<Rightarrow> string \<Rightarrow> string" where
  "path_relative base p =
     unwrap_or p (strip_prefix (if ends_with ''/'' base then base else base @ ''/'') p)"

definition tree_stream :: "('w, 'ver, 'req) sys \<Rightarrow> 'w \<Rightarrow> string \<Rightarrow> string list \<Rightarrow> string" where
  "tree_stream S w base files =
     concat (map (\<lambda>f. path_relative base f @ [CHR 0x00] @
       (case sys_read S w f of Inl _ \<Rightarrow> [] | Inr bytes \<Rightarrow> bytes) @ [CHR 0x00]) files)"

text \<open>Paths are ordered component by component.\<close>

definition compute_dependency_integrity ::
  "nat \<Rightarrow> ('w, 'ver, 'req) sys \<Rightarrow> 'w \<Rightarrow> string \<Rightarrow> dependency \<Rightarrow> (string, 'e) result" where
  "compute_dependency_integrity stack S w base_dir dep =
     (if dep_git dep \<noteq> None then Ok (git_integrity S w base_dir dep)
      else
        let p = unwrap_or [] (dep_path dep); base = path_join base_dir p
        in if p = [] \<or> \<not> sys_is_dir S w base then Ok []
           else map_ok (\<lambda>files. ''sha256:'' @ sys_sha256_hex S (tree_stream S w base
                    (sort_key (split_on CHR ''/'') files)))
                  (collect_files stack S w base))"

definition lock_dependency_resolved ::
  "nat \<Rightarrow> ('w, 'ver, 'req) sys \<Rightarrow> 'w \<Rightarrow> string \<Rightarrow> devkit_config \<Rightarrow> fetch_outcome list \<Rightarrow>
   string \<times> dependency \<Rightarrow> (dependency_lock, 'e) result" where
  "lock_dependency_resolved stack S w base_dir cfg fetched = (\<lambda>(name, dep).
     case find (\<lambda>out. fo_name out = name) fetched of
       Some outcome \<Rightarrow>
         let (source, original, url, reference) =
               (case dep_git dep of
                  Some u \<Rightarrow> (''git'', u, u, unwrap_or [] (git_ref_of dep))
                | None \<Rightarrow> (''local'', path_join base_dir (unwrap_or [] (dep_path dep)), [], []))
         in map_ok (\<lambda>integrity.
              \<lparr>dl_name = name, dl_source = source, dl_original_source = original, dl_git_url = url,
               dl_resolved_reference = reference, dl_commit_sha = fo_resolved_rev outcome,
               dl_cache_location = fo_local_path outcome, dl_integrity = integrity,
               dl_version = unwrap_or [] (dep_version dep)\<rparr>)
              (compute_dependency_integrity stack S w base_dir dep)
     | None \<Rightarrow>
         Ok (unwrap_or (empty_dependency_lock \<lparr>dl_name := name\<rparr>)
               (find (\<lambda>d. dl_name d = name) (lock_dependencies base_dir (dependencies cfg)))))"

definition lock_dependencies_resolved ::
  "nat \<Rightarrow> ('w, 'ver, 'req) sys \<Rightarrow> 'w \<Rightarrow> string \<Rightarrow> devkit_config \<Rightarrow> fetch_outcome list \<Rightarrow>
   (dependency_lock list, 'e) result" where
  "lock_dependencies_resolved stack S w base_dir cfg fetched =
     try_map (lock_dependency_resolved stack S w base_dir cfg fetched) (dependencies cfg)"

section \<open>Verification of the dependencies\<close>

datatype dep_mismatch_kind =
    MissingInLock
  | NotInManifest
  | SourceChanged
  | ReferenceChanged
  | CacheMissing
  | PathMissing
  | CommitMismatch
  | IntegrityMismatch

record dep_mismatch =
  dm_name :: string
  dm_kind :: dep_mismatch_kind
  dm_detail :: string

definition mismatch :: "string \<Rightarrow> dep_mismatch_kind \<Rightarrow> string \<Rightarrow> dep_mismatch" where
  "mismatch name kind detail = \<lparr>dm_name = name, dm_kind = kind, dm_detail = detail\<rparr>"

record dep_verify_report =
  dv_present :: bool
  dv_consistent :: bool
  dv_checked :: nat
  dv_mismatches :: "dep_mismatch list"

text \<open>\<^verbatim>\<open>&s[..s.len().min(12)]\<close>\<close>

definition short_sha :: "string \<Rightarrow> (string, 'e) result" where
  "short_sha s = slice_to s (min (length s) 12)"

definition check_commit ::
  "('w, 'ver, 'req) sys \<Rightarrow> 'w \<Rightarrow> string \<Rightarrow> string \<Rightarrow> dependency_lock \<Rightarrow> (dep_mismatch list, 'e) result" where
  "check_commit S w checkout name entry =
     (let head = git_head_commit S w checkout in
      if head \<noteq> [] \<and> head \<noteq> dl_commit_sha entry then
        and_then (short_sha head) (\<lambda>h.
        and_then (short_sha (dl_commit_sha entry)) (\<lambda>c.
          Ok [mismatch name CommitMismatch (''cache commit '' @ h @ '' != locked '' @ c)]))
      else Ok [])"

definition check_integrity ::
  "('w, 'ver, 'req) sys \<Rightarrow> 'w \<Rightarrow> string \<Rightarrow> string \<Rightarrow> dependency \<Rightarrow> dependency_lock \<Rightarrow> dep_mismatch list" where
  "check_integrity S w base_dir name dep entry =
     (let current = git_integrity S w base_dir dep in
      if dl_integrity entry \<noteq> [] \<and> current \<noteq> [] \<and> current \<noteq> dl_integrity entry
      then [mismatch name IntegrityMismatch
              (''integrity changed: '' @ current @ '' != '' @ dl_integrity entry)]
      else [])"

definition check_cache ::
  "('w, 'ver, 'req) sys \<Rightarrow> 'w \<Rightarrow> string \<Rightarrow> string \<Rightarrow> dependency \<Rightarrow> dependency_lock \<Rightarrow>
   (dep_mismatch list, 'e) result" where
  "check_cache S w base_dir name dep entry =
     (if dl_commit_sha entry = [] then Ok []
      else
        let checkout = dep_checkout base_dir dep
        in if \<not> sys_exists S w (git_dir checkout)
           then Ok [mismatch name CacheMissing (''git cache checkout missing: '' @ checkout)]
           else map_ok (\<lambda>ms. ms @ check_integrity S w base_dir name dep entry)
                  (check_commit S w checkout name entry))"

definition check_git ::
  "('w, 'ver, 'req) sys \<Rightarrow> 'w \<Rightarrow> string \<Rightarrow> string \<Rightarrow> dependency \<Rightarrow> dependency_lock \<Rightarrow>
   (dep_mismatch list, 'e) result" where
  "check_git S w base_dir name dep entry =
     (let url = unwrap_or [] (dep_git dep); requested = unwrap_or [] (git_ref_of dep) in
      map_ok (\<lambda>ms.
        (if dl_git_url entry \<noteq> url
         then [mismatch name SourceChanged
                 (''git url changed: manifest '' @ quoted url @ '' vs lock '' @ quoted (dl_git_url entry))]
         else []) @
        (if dl_resolved_reference entry \<noteq> requested
         then [mismatch name ReferenceChanged
                 (''reference changed: manifest '' @ quoted requested @ '' vs lock '' @
                  quoted (dl_resolved_reference entry))]
         else []) @ ms)
        (check_cache S w base_dir name dep entry))"

definition check_local ::
  "('w, 'ver, 'req) sys \<Rightarrow> 'w \<Rightarrow> string \<Rightarrow> string \<Rightarrow> dependency \<Rightarrow> dependency_lock \<Rightarrow> dep_mismatch list" where
  "check_local S w base_dir name dep entry =
     (let resolved = path_join base_dir (unwrap_or [] (dep_path dep)) in
      if dl_original_source entry \<noteq> resolved
      then [mismatch name SourceChanged
              (''path changed: manifest '' @ quoted resolved @ '' vs lock '' @ quoted (dl_original_source entry))]
      else if \<not> sys_exists S w resolved
      then [mismatch name PathMissing (''local path dependency missing: '' @ resolved)]
      else [])"

definition check_dependency ::
  "('w, 'ver, 'req) sys \<Rightarrow> 'w \<Rightarrow> string \<Rightarrow> (string, dependency_lock) hash_map \<Rightarrow> string \<times> dependency \<Rightarrow>
   (dep_mismatch list, 'e) result" where
  "check_dependency S w base_dir locked = (\<lambda>(name, dep).
     case hm_get locked name of
       None \<Rightarrow> Ok [mismatch name MissingInLock ''dependency not recorded in lock'']
     | Some entry \<Rightarrow>
         let is_git = (dep_git dep \<noteq> None); lock_is_git = (dl_source entry = ''git'') in
         if is_git \<noteq> lock_is_git
         then Ok [mismatch name SourceChanged
                    (''manifest source is '' @ (if is_git then ''git'' else ''local'') @
                     '', lock recorded '' @ dl_source entry)]
         else if is_git then check_git S w base_dir name dep entry
         else Ok (check_local S w base_dir name dep entry))"

definition stale_entries :: "devkit_config \<Rightarrow> lock_file \<Rightarrow> dep_mismatch list" where
  "stale_entries cfg lock =
     map (\<lambda>entry. mismatch (dl_name entry) NotInManifest
            ''lock records a dependency absent from the manifest'')
       (filter (\<lambda>entry. \<not> hm_contains_key (dependencies cfg) (dl_name entry)) (lf_dependencies lock))"

definition locked_map :: "lock_file \<Rightarrow> (string, dependency_lock) hash_map" where
  "locked_map lock = hm_collect (map (\<lambda>d. (dl_name d, d)) (lf_dependencies lock))"

definition verify_dependencies ::
  "('w, 'ver, 'req) sys \<Rightarrow> lock_codec \<Rightarrow> 'w \<Rightarrow> string \<Rightarrow> devkit_config \<Rightarrow> (dep_verify_report, 'e) result" where
  "verify_dependencies S C w base_dir cfg =
     (case read_lock S C w base_dir of
        Ok lock \<Rightarrow>
          map_ok (\<lambda>mss.
            let mismatches = concat mss @ stale_entries cfg lock
            in \<lparr>dv_present = True, dv_consistent = (mismatches = []),
                dv_checked = length (dependencies cfg), dv_mismatches = mismatches\<rparr>)
            (try_map (check_dependency S w base_dir (locked_map lock)) (dependencies cfg))
      | _ \<Rightarrow> Ok \<lparr>dv_present = False, dv_consistent = False, dv_checked = length (dependencies cfg),
                 dv_mismatches = map (\<lambda>n. mismatch n MissingInLock ''no sdkt.lock present'')
                   (hm_keys (dependencies cfg))\<rparr>)"

section \<open>Generating, writing and verifying a lock\<close>

text \<open>What the lock relies on outside the repository: printing and parsing TOML are inverse, a
  written file reads back and leaves other files alone, and the entries of a directory are paths
  below it.\<close>

definition codec_roundtrip :: "lock_codec \<Rightarrow> bool" where
  "codec_roundtrip C \<longleftrightarrow> (\<forall>l t. lc_print C l = Inr t \<longrightarrow> lc_parse C t = Inr l)"

definition files_persist :: "('w, 'ver, 'req) sys \<Rightarrow> bool" where
  "files_persist S \<longleftrightarrow>
     (\<forall>w p t w'. sys_write S w p t = Inr w' \<longrightarrow>
        sys_read_to_string S w' p = Inr t \<and> (\<forall>q. q \<noteq> p \<longrightarrow> sys_read S w' q = sys_read S w q))"

definition entries_below :: "('w, 'ver, 'req) sys \<Rightarrow> bool" where
  "entries_below S \<longleftrightarrow>
     (\<forall>w d es p. sys_read_dir S w d = Some es \<longrightarrow> p \<in> set es \<longrightarrow> starts_with d p)"

lemma write_then_read_lock:
  assumes "codec_roundtrip C" and "files_persist S" and "write_lock S C dir lock w = (w', Ok p)"
  shows "read_lock S C w' dir = Ok lock" "p = path_join dir LOCK_FILE_NAME"
    "\<And>q. q \<noteq> p \<Longrightarrow> sys_read S w' q = sys_read S w q"
proof -
  from assms(3) obtain t where t: "lc_print C lock = Inr t"
    and wr: "sys_write S w (path_join dir LOCK_FILE_NAME) t = Inr w'"
    and p: "p = path_join dir LOCK_FILE_NAME"
    by (auto simp: write_lock_def lock_to_toml_def io_bind_Ok_iff Let_def split: sum.splits)
  from assms(1) t have "lc_parse C t = Inr lock" by (simp add: codec_roundtrip_def)
  moreover from assms(2) wr have "sys_read_to_string S w' (path_join dir LOCK_FILE_NAME) = Inr t"
    unfolding files_persist_def by blast
  ultimately show "read_lock S C w' dir = Ok lock"
    by (simp add: read_lock_def lock_from_toml_def Let_def)
  show "p = path_join dir LOCK_FILE_NAME" by (rule p)
  show "\<And>q. q \<noteq> p \<Longrightarrow> sys_read S w' q = sys_read S w q"
    using assms(2) wr p unfolding files_persist_def by blast
qed

lemma path_join_absolute: "starts_with ''/'' p \<Longrightarrow> path_join base p = p"
  by (simp add: path_join_def)

lemma starts_with_trans: "starts_with p q \<Longrightarrow> starts_with q r \<Longrightarrow> starts_with p r"
  by (auto simp: starts_with_iff)

lemma starts_with_path_join:
  "starts_with ''/'' a \<Longrightarrow> starts_with ''/'' (path_join a b)"
  by (cases a) (auto simp: path_join_def)

lemma path_extension_lock: "path_extension (path_join dir LOCK_FILE_NAME) \<noteq> Some ''wasm''"
proof -
  obtain pre where pre: "path_join dir LOCK_FILE_NAME = pre @ LOCK_FILE_NAME"
    and slash: "pre = [] \<or> last pre = CHR ''/''"
    by (cases "dir = [] \<or> last dir = CHR ''/''") (auto simp: path_join_def LOCK_FILE_NAME_def)
  have nos: "CHR ''/'' \<notin> set LOCK_FILE_NAME" by code_simp
  have "path_file_name (pre @ LOCK_FILE_NAME) = LOCK_FILE_NAME"
  proof (cases "pre = []")
    case True
    have "split_on CHR ''/'' LOCK_FILE_NAME = [LOCK_FILE_NAME]" by code_simp
    with True show ?thesis by (simp add: path_file_name_def)
  next
    case False
    have last: "last (split_on d (xs @ d # ys)) = ys" if "d \<notin> set ys" for d xs ys
    proof -
      have "split_on d ys = [ys]" using that by (auto simp: split_on_def intro: split_by_none)
      then show ?thesis by (simp add: split_on_def split_by_split)
    qed
    obtain xs where "pre = xs @ [CHR ''/'']" using False slash by (metis append_butlast_last_id)
    then show ?thesis using last [OF nos, of xs] by (simp add: path_file_name_def)
  qed
  moreover have "path_extension ''sdkt.lock'' = Some ''lock''" by code_simp
  then have "path_extension p = Some ''lock''" if "path_file_name p = ''sdkt.lock''" for p
  proof -
    have "path_file_name ''sdkt.lock'' = ''sdkt.lock''" by code_simp
    with that \<open>path_extension ''sdkt.lock'' = Some ''lock''\<close> show ?thesis
      unfolding path_extension_def by metis
  qed
  ultimately show ?thesis using pre by (simp add: LOCK_FILE_NAME_def)
qed

lemma generate_lock_Ok:
  assumes "generate_lock S w base_dir cfg = Ok lock"
  obtains ordered where "resolve_deploy_order cfg = Ok ordered" and "lf_version lock = LOCK_VERSION"
    and "lf_deploy_order lock = ordered" and "map le_alias (lf_contracts lock) = ordered"
    and "map le_order (lf_contracts lock) = [0..<length ordered]"
    and "lf_dependencies lock = lock_dependencies base_dir (dependencies cfg)"
    and "\<forall>e \<in> set (lf_contracts lock). \<exists>c. hm_get (contracts cfg) (le_alias e) = Some c \<and>
      le_path e = cc_path c \<and> find_artifact S w base_dir (cc_path c) = Some (le_artifact e) \<and>
      compute_sha256 S w (le_artifact e) = Ok (le_sha256 e)"
proof -
  from assms obtain ordered where ord: "resolve_deploy_order cfg = Ok ordered"
    and es: "try_map (generate_entry S w base_dir cfg) (enumerate 0 ordered) = Ok (lf_contracts lock)"
    and rest: "lf_version lock = LOCK_VERSION" "lf_deploy_order lock = ordered"
      "lf_dependencies lock = lock_dependencies base_dir (dependencies cfg)"
    by (auto simp: generate_lock_def)
  have entry: "le_alias e = snd oa \<and> le_order e = fst oa \<and>
      (\<exists>c. hm_get (contracts cfg) (le_alias e) = Some c \<and> le_path e = cc_path c \<and>
        find_artifact S w base_dir (cc_path c) = Some (le_artifact e) \<and>
        compute_sha256 S w (le_artifact e) = Ok (le_sha256 e))"
    if "generate_entry S w base_dir cfg oa = Ok e" for oa e
    using that by (auto simp: generate_entry_def split: prod.splits)
  have l2: "list_all2 (\<lambda>oa e. le_alias e = snd oa \<and> le_order e = fst oa) (enumerate 0 ordered) (lf_contracts lock)"
    using es entry by (auto simp: try_map_Ok_iff elim!: list_all2_mono)
  then have "map le_alias (lf_contracts lock) = map snd (enumerate 0 ordered)"
    "map le_order (lf_contracts lock) = map fst (enumerate 0 ordered)"
    by (induction rule: list_all2_induct) simp_all
  moreover have "\<exists>c. hm_get (contracts cfg) (le_alias e) = Some c \<and> le_path e = cc_path c \<and>
      find_artifact S w base_dir (cc_path c) = Some (le_artifact e) \<and>
      compute_sha256 S w (le_artifact e) = Ok (le_sha256 e)" if "e \<in> set (lf_contracts lock)" for e
    using try_map_Ok_set [OF es that] entry by blast
  ultimately show thesis using that [OF ord rest(1,2)] rest(3) by simp
qed

text \<open>
  C7. Generating a lock, writing it and verifying it reports a consistent lock: every contract
  is in the lock once, at its position of the deployment order, and every recorded hash matches.
  This holds for an absolute workspace root, when TOML round-trips and files keep their content.
\<close>

theorem generated_lock_verifies:
  assumes "config_wf cfg" and "starts_with ''/'' base_dir"
    and "codec_roundtrip C" and "files_persist S" and "entries_below S"
    and "generate_lock S w base_dir cfg = Ok lock"
    and "write_lock S C base_dir lock w = (w', Ok p)"
  shows "map le_order (lf_contracts lock) = [0..<length (lf_deploy_order lock)] \<and>
    map le_alias (lf_contracts lock) = lf_deploy_order lock \<and>
    resolve_deploy_order cfg = Ok (lf_deploy_order lock) \<and>
    verify_lock S C w' base_dir cfg =
      \<lparr>lv_present = True, lv_consistent = True, lv_mismatched = [], lv_missing_in_lock = []\<rparr>"
proof -
  note wr = write_then_read_lock [OF assms(3,4,7)]
  from assms(6) obtain ordered where ord: "resolve_deploy_order cfg = Ok ordered"
    "lf_deploy_order lock = ordered" "map le_alias (lf_contracts lock) = ordered"
    "map le_order (lf_contracts lock) = [0..<length ordered]"
    and es: "\<forall>e \<in> set (lf_contracts lock). \<exists>c. hm_get (contracts cfg) (le_alias e) = Some c \<and>
      le_path e = cc_path c \<and> find_artifact S w base_dir (cc_path c) = Some (le_artifact e) \<and>
      compute_sha256 S w (le_artifact e) = Ok (le_sha256 e)"
    by (rule generate_lock_Ok)
  have "\<not> artifact_mismatched S w' base_dir e" if "e \<in> set (lf_contracts lock)" for e
  proof -
    from es that obtain c :: contract_config where art: "first_wasm S w (release_dir (path_join base_dir (cc_path c))) = Some (le_artifact e)"
      and sha: "compute_sha256 S w (le_artifact e) = Ok (le_sha256 e)"
      unfolding find_artifact_def by blast
    let ?dir = "release_dir (path_join base_dir (cc_path c))"
    from first_wasm_Some [OF art] obtain ents where wasm: "path_extension (le_artifact e) = Some ''wasm''"
      and "sys_read_dir S w ?dir = Some ents" "le_artifact e \<in> set ents" by blast
    then have "starts_with ?dir (le_artifact e)" using assms(5) unfolding entries_below_def by blast
    moreover have "starts_with ''/'' ?dir"
      unfolding release_dir_def by (intro starts_with_path_join assms(2))
    ultimately have "path_join base_dir (le_artifact e) = le_artifact e"
      by (intro path_join_absolute) (rule starts_with_trans)
    moreover have "le_artifact e \<noteq> p" using wasm path_extension_lock wr(2) by metis
    then have "sys_read S w' (le_artifact e) = sys_read S w (le_artifact e)" by (rule wr(3))
    ultimately show ?thesis using sha by (simp add: artifact_mismatched_def compute_sha256_def)
  qed
  then have "filter (artifact_mismatched S w' base_dir) (lf_contracts lock) = []"
    by (simp add: filter_empty_conv)
  moreover have "set ordered = set (hm_keys (contracts cfg))"
    using assms(1)
  proof (cases rule: resolve_deploy_order_cases)
    case (order ord')
    then show ?thesis
      using topo.sorter_ok [OF declared_graph_wf [OF assms(1)] order(2)] ord(1)
      by (simp add: declared_graph_facts(3))
  qed (use ord(1) in auto)
  then have "filter (\<lambda>a. a \<notin> set (map le_alias (lf_contracts lock))) (hm_keys (contracts cfg)) = []"
    using ord(3) by (simp add: filter_empty_conv)
  ultimately show ?thesis
    using ord wr(1) by (simp add: verify_lock_def Let_def)
qed

section \<open>Drift of the dependencies\<close>

text \<open>What a locked entry must satisfy for the dependency it records.\<close>

definition cache_matches ::
  "('w, 'ver, 'req) sys \<Rightarrow> 'w \<Rightarrow> string \<Rightarrow> dependency \<Rightarrow> dependency_lock \<Rightarrow> bool" where
  "cache_matches S w base_dir dep entry \<longleftrightarrow>
     sys_exists S w (git_dir (dep_checkout base_dir dep)) \<and>
     git_head_commit S w (dep_checkout base_dir dep) \<in> {[], dl_commit_sha entry} \<and>
     (dl_integrity entry \<noteq> [] \<longrightarrow> git_integrity S w base_dir dep \<in> {[], dl_integrity entry})"

definition entry_matches ::
  "('w, 'ver, 'req) sys \<Rightarrow> 'w \<Rightarrow> string \<Rightarrow> dependency \<Rightarrow> dependency_lock \<Rightarrow> bool" where
  "entry_matches S w base_dir dep entry \<longleftrightarrow>
     (case dep_git dep of
        Some url \<Rightarrow> dl_source entry = ''git'' \<and> dl_git_url entry = url \<and>
          dl_resolved_reference entry = unwrap_or [] (git_ref_of dep) \<and>
          (dl_commit_sha entry \<noteq> [] \<longrightarrow> cache_matches S w base_dir dep entry)
      | None \<Rightarrow> dl_source entry \<noteq> ''git'' \<and>
          dl_original_source entry = path_join base_dir (unwrap_or [] (dep_path dep)) \<and>
          sys_exists S w (path_join base_dir (unwrap_or [] (dep_path dep))))"

lemma check_commit_Nil:
  "check_commit S w c name entry = Ok [] \<longleftrightarrow> git_head_commit S w c \<in> {[], dl_commit_sha entry}"
  by (auto simp: check_commit_def Let_def)

lemma check_integrity_Nil:
  "check_integrity S w base_dir name dep entry = [] \<longleftrightarrow>
     (dl_integrity entry \<noteq> [] \<longrightarrow> git_integrity S w base_dir dep \<in> {[], dl_integrity entry})"
  by (auto simp: check_integrity_def Let_def)

lemma check_cache_Nil:
  "check_cache S w base_dir name dep entry = Ok [] \<longleftrightarrow>
     (dl_commit_sha entry \<noteq> [] \<longrightarrow> cache_matches S w base_dir dep entry)"
  using check_commit_Nil [of S w "dep_checkout base_dir dep" name entry]
    check_integrity_Nil [of S w base_dir name dep entry]
  by (auto simp: check_cache_def cache_matches_def Let_def)

lemma check_dependency_Nil:
  "check_dependency S w base_dir locked (name, dep) = Ok [] \<longleftrightarrow>
     (\<exists>entry. hm_get locked name = Some entry \<and> entry_matches S w base_dir dep entry)"
proof (cases "hm_get locked name")
  case (Some entry)
  have "check_git S w base_dir name dep entry = Ok [] \<longleftrightarrow>
      dl_git_url entry = unwrap_or [] (dep_git dep) \<and>
      dl_resolved_reference entry = unwrap_or [] (git_ref_of dep) \<and>
      (dl_commit_sha entry \<noteq> [] \<longrightarrow> cache_matches S w base_dir dep entry)"
    using check_cache_Nil [of S w base_dir name dep entry] by (auto simp: check_git_def Let_def)
  then show ?thesis using Some
    by (cases "dep_git dep")
       (auto simp: check_dependency_def entry_matches_def check_local_def Let_def)
qed (simp add: check_dependency_def)

text \<open>Slicing the first twelve bytes is safe on ASCII text, and git's object names are ASCII.\<close>

definition is_ascii :: "string \<Rightarrow> bool" where
  "is_ascii s \<longleftrightarrow> list_all (\<lambda>c. of_char c < (128 :: nat)) s"

lemma short_sha_ascii: "is_ascii s \<Longrightarrow> short_sha s = Ok (take 12 s)"
  unfolding short_sha_def slice_to_def is_char_boundary_def is_ascii_def list_all_iff
  by (auto simp: min_def not_le)

lemma check_dependency_no_panic:
  assumes "\<forall>entry. hm_get locked name = Some entry \<longrightarrow> is_ascii (dl_commit_sha entry)"
    and "is_ascii (git_head_commit S w (dep_checkout base_dir dep))"
  shows "\<exists>ms. check_dependency S w base_dir locked (name, dep) = Ok ms"
proof (cases "hm_get locked name")
  case (Some entry)
  have "\<exists>ms. check_commit S w (dep_checkout base_dir dep) name entry = Ok ms"
    using assms Some by (auto simp: check_commit_def Let_def short_sha_ascii)
  then have "\<exists>ms. check_cache S w base_dir name dep entry = Ok ms"
    by (auto simp: check_cache_def Let_def)
  then show ?thesis using Some by (auto simp: check_dependency_def check_git_def Let_def)
qed (simp add: check_dependency_def)


lemma dl_name_lock_dependency [simp]: "dl_name (lock_dependency base_dir nd) = fst nd"
  by (cases nd) (auto simp: lock_dependency_def Let_def empty_dependency_lock_def split: option.splits)

lemma locked_map_lookup:
  assumes "hm_wf deps" and "lf_dependencies lock = lock_dependencies base_dir deps"
    and "(name, dep) \<in> set deps"
  shows "hm_get (locked_map lock) name = Some (lock_dependency base_dir (name, dep))"
proof -
  let ?kvs = "map (\<lambda>d. (dl_name d, d)) (lf_dependencies lock)"
  have "map fst ?kvs = map fst deps" by (simp add: assms(2) lock_dependencies_def comp_def)
  then have "distinct (map fst ?kvs)" using assms(1) by (simp add: hm_wf_def)
  moreover have "(name, lock_dependency base_dir (name, dep)) \<in> set ?kvs"
    using assms(2,3) by (force simp: lock_dependencies_def)
  ultimately show ?thesis
    unfolding locked_map_def by (simp add: hm.lookup_collect_distinct)
qed

lemma lock_dependency_matches:
  assumes "valid_source S w base_dir dep"
  shows "entry_matches S w base_dir dep (lock_dependency base_dir (name, dep))"
proof -
  have "trim [] = []" by code_simp
  with assms show ?thesis
    by (auto simp: valid_source_def entry_matches_def lock_dependency_def empty_dependency_lock_def Let_def
        split: option.splits)
qed

text \<open>
  A freshly locked manifest verifies: when the dependency table is valid and the lock holds
  the entries \<open>lock_dependencies\<close> writes for it, \<open>verify_dependencies\<close> reports every dependency as
  checked and no mismatch.
\<close>

theorem fresh_dependency_lock_verifies:
  assumes "config_wf cfg" and "validate_dependencies S w base_dir cfg = Ok ()"
    and "read_lock S C w base_dir = Ok lock"
    and "lf_dependencies lock = lock_dependencies base_dir (dependencies cfg)"
  shows "(verify_dependencies S C w base_dir cfg :: (dep_verify_report, 'e) result) =
    Ok \<lparr>dv_present = True, dv_consistent = True, dv_checked = length (dependencies cfg), dv_mismatches = []\<rparr>"
proof -
  let ?deps = "dependencies cfg" and ?check = "check_dependency S w base_dir (locked_map lock) :: _ \<Rightarrow> (dep_mismatch list, 'e) result"
  have wf: "hm_wf ?deps" using assms(1) by (simp add: config_wf_def)
  have valid: "valid_source S w base_dir d" if "(n, d) \<in> set ?deps" for n d
    using validate_dependencies_spec [OF assms(1), of S w base_dir] assms(2) that by auto
  have ok: "?check nd = Ok []" if "nd \<in> set ?deps" for nd
    using that locked_map_lookup [OF wf assms(4), of "fst nd" "snd nd"]
      lock_dependency_matches [OF valid, of "fst nd" "snd nd" "fst nd"]
      check_dependency_Nil [of S w base_dir "locked_map lock" "fst nd" "snd nd"] by auto
  have "try_map ?check xs = Ok (replicate (length xs) [])" if "set xs \<subseteq> set ?deps" for xs
    using that by (induction xs) (auto simp: ok)
  moreover have "stale_entries cfg lock = []"
  proof -
    have "hm_contains_key ?deps (dl_name (lock_dependency base_dir nd))" if "nd \<in> set ?deps" for nd
      using that by (auto simp: hm_contains_key_def)
    then show ?thesis by (simp add: stale_entries_def assms(4) lock_dependencies_def filter_empty_conv)
  qed
  ultimately show ?thesis
    using assms(3) by (simp add: verify_dependencies_def Let_def)
qed

text \<open>
  A dependency that only declares a version constraint does not verify after it was fetched:
  the checkout is stored under the key of the tag the constraint resolved to, but verification
  and the integrity hash look under the key of the declared dependency, which has no reference.
  The entry the fetch records has no integrity hash and verification reports \<open>CacheMissing\<close>.
\<close>

theorem constrained_dependency_cache_missing:
  assumes "dep_git dep = Some url" and "dep_version dep = Some ver" and "git_refs dep = []"
    and "git_fetch S (path_join base_dir ''.sdkt-cache'') name dep force w = (w', Ok out)"
    and "fo_resolved_rev out \<noteq> []"
    and "\<not> sys_exists S w (git_dir (dep_checkout base_dir dep))"
    and "fo_local_path out \<noteq> dep_checkout base_dir dep"
    and "\<And>d. dep_checkout base_dir d \<noteq> fo_local_path out \<Longrightarrow>
      sys_exists S w' (git_dir (dep_checkout base_dir d)) \<longleftrightarrow>
      sys_exists S w (git_dir (dep_checkout base_dir d))"
    and "lock_dependency_resolved stack S w' base_dir cfg [out] (name, dep) = Ok entry"
    and "hm_get locked name = Some entry"
  shows "dl_integrity entry = [] \<and>
    check_dependency S w' base_dir locked (name, dep) =
      Ok [mismatch name CacheMissing (''git cache checkout missing: '' @ dep_checkout base_dir dep)]"
proof -
  have "fo_name out = name" using assms(4) by (cases rule: git_fetch_Ok_cases) auto
  moreover have missing: "\<not> sys_exists S w' (git_dir (dep_checkout base_dir dep))"
    using assms(6,7) assms(8) [of dep] by metis
  ultimately have entry: "entry =
      \<lparr>dl_name = name, dl_source = ''git'', dl_original_source = url, dl_git_url = url,
       dl_resolved_reference = unwrap_or [] (git_ref_of dep), dl_commit_sha = fo_resolved_rev out,
       dl_cache_location = fo_local_path out, dl_integrity = [], dl_version = ver\<rparr>"
    using assms(1,2,9)
    by (auto simp: lock_dependency_resolved_def compute_dependency_integrity_def git_integrity_def Let_def)
  then show ?thesis
    using assms(1,5,10) missing
    by (simp add: check_dependency_def check_git_def check_cache_def Let_def)
qed

section \<open>The integrity hash of a directory\<close>

text \<open>The walk ends without a panic when the tree is not deeper than the stack.\<close>

primrec tree_depth_within :: "nat \<Rightarrow> ('w, 'ver, 'req) sys \<Rightarrow> 'w \<Rightarrow> string \<Rightarrow> bool" where
  "tree_depth_within 0 S w dir = False"
| "tree_depth_within (Suc n) S w dir =
     (case sys_read_dir S w dir of
        None \<Rightarrow> True
      | Some es \<Rightarrow> list_all (\<lambda>p. sys_is_dir S w p \<longrightarrow> tree_depth_within n S w p) es)"

text \<open>The files below a directory, as a relation.\<close>

inductive below :: "('w, 'ver, 'req) sys \<Rightarrow> 'w \<Rightarrow> string \<Rightarrow> string \<Rightarrow> bool" for S w where
  regular: "\<lbrakk>sys_read_dir S w dir = Some es; p \<in> set es; \<not> sys_is_dir S w p; sys_is_file S w p\<rbrakk> \<Longrightarrow> below S w dir p"
| subdir: "\<lbrakk>sys_read_dir S w dir = Some es; d \<in> set es; sys_is_dir S w d; below S w d p\<rbrakk> \<Longrightarrow> below S w dir p"

inductive_simps below_simps: "below S w dir p"

lemma below_iff:
  "sys_read_dir S w dir = Some es \<Longrightarrow> below S w dir q \<longleftrightarrow>
     (\<exists>p \<in> set es. (sys_is_dir S w p \<and> below S w p q) \<or>
        (\<not> sys_is_dir S w p \<and> sys_is_file S w p \<and> q = p))"
  by (subst below_simps) auto

text \<open>
  The directory walk of the integrity hash returns for every tree that is not deeper than the
  call stack, and it lists exactly the regular files below the directory, at any depth.
\<close>

theorem collect_files_complete:
  assumes "tree_depth_within stack S w dir"
  shows "\<exists>files. collect_files stack S w dir = (Ok files :: (string list, 'e) result) \<and> (\<forall>p. p \<in> set files \<longleftrightarrow> below S w dir p)"
  using assms
proof (induction stack arbitrary: dir)
  case (Suc stack)
  let ?f = "\<lambda>p. if sys_is_dir S w p then collect_files stack S w p
    else if sys_is_file S w p then Ok [p] else (Ok [] :: (string list, 'e) result)"
  show ?case
  proof (cases "sys_read_dir S w dir")
    case None
    then have "\<not> below S w dir p" for p by (subst below_simps) simp
    with None show ?thesis by simp
  next
    case (Some es)
    have entry: "\<exists>fs. ?f p = Ok fs \<and> (\<forall>q. q \<in> set fs \<longleftrightarrow>
        (sys_is_dir S w p \<and> below S w p q) \<or> (\<not> sys_is_dir S w p \<and> sys_is_file S w p \<and> q = p))"
      if "p \<in> set es" for p
      using Suc that Some by (auto simp: list_all_iff)
    then obtain fss where fss: "try_map ?f es = Ok fss"
      using try_map_total [of es ?f] by blast
    then have l2: "list_all2 (\<lambda>p fs. ?f p = Ok fs) es fss" by (simp add: try_map_Ok_iff)
    have "q \<in> set (concat fss) \<longleftrightarrow> below S w dir q" for q
    proof -
      have "q \<in> set (concat fss) \<longleftrightarrow> (\<exists>p \<in> set es. \<exists>fs. ?f p = Ok fs \<and> q \<in> set fs)"
        using l2 by (induction rule: list_all2_induct) auto
      also have "\<dots> \<longleftrightarrow> (\<exists>p \<in> set es. (sys_is_dir S w p \<and> below S w p q) \<or>
          (\<not> sys_is_dir S w p \<and> sys_is_file S w p \<and> q = p))"
        using entry by (metis (no_types, lifting) result.inject(1))
      also have "\<dots> \<longleftrightarrow> below S w dir q"
        using below_iff [OF Some] by simp
      finally show ?thesis .
    qed
    then show ?thesis using Some fss by simp
  qed
qed simp

section \<open>Witnesses\<close>

text \<open>A machine whose state maps paths to file contents, with the file names of every directory
  fixed, and a codec for one lock.\<close>

type_synonym files = "string \<Rightarrow> string option"

definition file_text :: "files \<Rightarrow> string \<Rightarrow> string + string" where
  "file_text w p = (case w p of None \<Rightarrow> Inl ''no such file'' | Some t \<Rightarrow> Inr t)"

definition fs_machine :: "(files, nat list, nat list) sys" where
  "fs_machine =
     \<lparr>sys_exists = \<lambda>_ _. True, sys_is_dir = \<lambda>_ d. d = ''/lib'', sys_read_dir = \<lambda>_ d. Some [d @ ''/c.wasm''],
      sys_is_file = \<lambda>w p. w p \<noteq> None, sys_read = file_text, sys_read_to_string = file_text,
      sys_write = \<lambda>w p t. Inr (w(p := Some t)), sys_create_dir_all = \<lambda>w _. Inr w,
      sys_query = \<lambda>_ _ _ _. None, sys_exec = \<lambda>w _ _ _. (w, None), sys_sha256_hex = \<lambda>s. s,
      sys_version_parse = parse_version_list, sys_version_ge = \<lambda>a b. b \<le> a,
      sys_req_parse = \<lambda>_. None, sys_req_matches = \<lambda>_ _. False\<rparr>"

definition one_lock_codec :: "lock_file \<Rightarrow> lock_codec" where
  "one_lock_codec lock =
     \<lparr>lc_print = \<lambda>l. if l = lock then Inr ''lock'' else Inl ''unsupported'',
      lc_parse = \<lambda>t. if t = ''lock'' then Inr lock else Inl ''syntax''\<rparr>"

definition built_files :: files where
  "built_files = (\<lambda>_. Some ''bytes'')"

lemma fs_machine_facts:
  "files_persist fs_machine" "entries_below fs_machine" "codec_roundtrip (one_lock_codec lock)"
  by (auto simp: files_persist_def entries_below_def codec_roundtrip_def one_lock_codec_def
      fs_machine_def file_text_def starts_with_iff split: if_splits)

lemma example_lock_generates:
  "\<exists>lock. generate_lock fs_machine built_files ''/w'' example_project = Ok lock"
proof -
  have "(case generate_lock fs_machine built_files ''/w'' example_project of Ok _ \<Rightarrow> True | _ \<Rightarrow> False)"
    by code_simp
  then show ?thesis by (auto split: result.splits)
qed

theorem generated_lock_verifies_witness:
  "\<exists>lock w'. generate_lock fs_machine built_files ''/w'' example_project = Ok lock \<and>
     lv_consistent (verify_lock fs_machine (one_lock_codec lock) w' ''/w'' example_project)"
proof -
  obtain lock where lock: "generate_lock fs_machine built_files ''/w'' example_project = Ok lock"
    using example_lock_generates by blast
  obtain w' p where "write_lock fs_machine (one_lock_codec lock) ''/w'' lock built_files = (w', Ok p)"
    by (simp add: write_lock_def io_bind_def lock_to_toml_def one_lock_codec_def fs_machine_def Let_def)
  from generated_lock_verifies [OF example_project_eval(1) _ fs_machine_facts(3,1,2) lock this]
  have "lv_consistent (verify_lock fs_machine (one_lock_codec lock) w' ''/w'' example_project)" by simp
  then show ?thesis using lock by blast
qed

definition manifest_lock :: lock_file where
  "manifest_lock = \<lparr>lf_version = LOCK_VERSION, lf_deploy_order = [], lf_contracts = [],
     lf_dependencies = lock_dependencies ''/w'' (dependencies example_manifest)\<rparr>"

definition locked_files :: files where
  "locked_files = [path_join ''/w'' LOCK_FILE_NAME \<mapsto> ''lock'']"

lemma manifest_lock_eval:
  "read_lock fs_machine (one_lock_codec manifest_lock) locked_files ''/w'' = Ok manifest_lock"
  "validate_dependencies fs_machine locked_files ''/w'' example_manifest = Ok ()"
proof -
  show "read_lock fs_machine (one_lock_codec manifest_lock) locked_files ''/w'' = Ok manifest_lock"
    by (simp add: read_lock_def lock_from_toml_def one_lock_codec_def fs_machine_def file_text_def
        locked_files_def Let_def)
  show "validate_dependencies fs_machine locked_files ''/w'' example_manifest = Ok ()"
    by code_simp
qed

theorem fresh_dependency_lock_verifies_witness:
  "(verify_dependencies fs_machine (one_lock_codec manifest_lock) locked_files ''/w'' example_manifest
     :: (dep_verify_report, unit) result) =
   Ok \<lparr>dv_present = True, dv_consistent = True, dv_checked = 2, dv_mismatches = []\<rparr>"
proof -
  have "length (dependencies example_manifest) = 2" by code_simp
  moreover have "lf_dependencies manifest_lock = lock_dependencies ''/w'' (dependencies example_manifest)"
    by (simp add: manifest_lock_def)
  ultimately show ?thesis
    using fresh_dependency_lock_verifies [OF example_manifest_eval(1) manifest_lock_eval(2,1),
        where ?'e = unit] by simp
qed


definition cached_machine :: "(string option, nat list, nat list) sys" where
  "cached_machine = git_machine
     \<lparr>sys_exists := \<lambda>w p. w \<noteq> None \<and> p = git_dir (dep_checkout ''/w'' resolved_dep)\<rparr>"

lemma dep_checkout_inject: "dep_checkout b d = dep_checkout b e \<longleftrightarrow> git_cache_key d = git_cache_key e"
  using git_cache_key_shape(3) by (simp add: dep_checkout_def path_join_def)

lemma cached_fetch:
  "git_fetch cached_machine (path_join ''/w'' ''.sdkt-cache'') ''lib'' constrained_dep True None =
     (Some ''c0ffee'', Ok (first_outcome \<lparr>fo_local_path := dep_checkout ''/w'' resolved_dep\<rparr>))"
proof -
  have "dep_git constrained_dep = Some ''/srv/lib''" "trim ''/srv/lib'' \<noteq> []"
    "git_available cached_machine None = Ok ()"
    "effective_dep cached_machine None ''/srv/lib'' constrained_dep = Ok resolved_dep" by code_simp+
  moreover have "sys_create_dir_all cached_machine None p = Inr None"
    "\<not> sys_exists cached_machine None p" for p
    by (simp_all add: cached_machine_def git_machine_def)
  moreover have "git_acquire cached_machine ''lib'' ''/srv/lib'' p resolved_dep c False True None =
      (Some ''c0ffee'', Ok \<lparr>fo_name = ''lib'', fo_local_path = c, fo_resolved_rev = ''c0ffee'',
         fo_already_present = False\<rparr>)" for p c
    by code_simp
  ultimately show ?thesis
    by (simp add: git_fetch_def git_fetch_from_def Let_def io_bind_def first_outcome_def dep_checkout_def)
qed

theorem constrained_dependency_cache_missing_witness:
  "\<exists>w entry. snd (git_fetch cached_machine ''/w/.sdkt-cache'' ''lib'' constrained_dep True None) = Ok w \<and>
     check_dependency cached_machine (Some ''c0ffee'') ''/w'' [(''lib'', entry)] (''lib'', constrained_dep) =
       (Ok [mismatch ''lib'' CacheMissing
         (''git cache checkout missing: '' @ dep_checkout ''/w'' constrained_dep)] :: (_, unit) result)"
proof -
  have keys: "git_cache_key constrained_dep \<noteq> git_cache_key resolved_dep" by code_simp
  then have paths: "dep_checkout ''/w'' resolved_dep \<noteq> dep_checkout ''/w'' constrained_dep"
    by (simp add: dep_checkout_inject)
  have join: "path_join ''/w'' ''.sdkt-cache'' = ''/w/.sdkt-cache''" by code_simp
  let ?out = "first_outcome \<lparr>fo_local_path := dep_checkout ''/w'' resolved_dep\<rparr>"
  have dep: "dep_git constrained_dep = Some ''/srv/lib''" "dep_version constrained_dep = Some ''>=1.0''"
    "git_refs constrained_dep = []" by code_simp+
  have gd: "git_dir (dep_checkout ''/w'' d) = dep_checkout ''/w'' d @ ''/.git''" for d
  proof -
    have eq: "dep_checkout ''/w'' d = ''/w/.sdkt-cache/git/'' @ git_cache_key d"
      using git_cache_key_shape(3) [of d] by (simp add: dep_checkout_def path_join_def)
    have "git_cache_key d \<noteq> []" using git_cache_key_shape(1) [of d] by auto
    then have "last (git_cache_key d) \<in> set ''0123456789abcdef''"
      using git_cache_key_shape(2) [of d] last_in_set by blast
    then have "last (git_cache_key d) \<noteq> CHR ''/''" by auto
    with \<open>git_cache_key d \<noteq> []\<close> have "last (dep_checkout ''/w'' d) \<noteq> CHR ''/''" "dep_checkout ''/w'' d \<noteq> []"
      by (simp_all add: eq)
    then show ?thesis by (simp add: git_dir_def path_join_def)
  qed
  obtain entry where entry: "lock_dependency_resolved 1 cached_machine (Some ''c0ffee'') ''/w'' default_config
      [?out] (''lib'', constrained_dep) = (Ok entry :: (_, unit) result)"
    using dep by (simp add: lock_dependency_resolved_def compute_dependency_integrity_def first_outcome_def Let_def)
  have "check_dependency cached_machine (Some ''c0ffee'') ''/w'' [(''lib'', entry)] (''lib'', constrained_dep) =
       (Ok [mismatch ''lib'' CacheMissing
         (''git cache checkout missing: '' @ dep_checkout ''/w'' constrained_dep)] :: (_, unit) result)"
    by (rule constrained_dependency_cache_missing
          [OF dep cached_fetch _ _ _ _ entry, THEN conjunct2])
       (use paths gd in \<open>auto simp: first_outcome_def cached_machine_def hm_get_def\<close>)
  then show ?thesis using cached_fetch join by auto
qed

theorem collect_files_complete_witness:
  "\<exists>files. collect_files 1 fs_machine (\<lambda>_. Some []) ''/lib'' = (Ok files :: (_, unit) result) \<and>
     (\<forall>p. p \<in> set files \<longleftrightarrow> below fs_machine (\<lambda>_. Some []) ''/lib'' p)"
  by (rule collect_files_complete) (simp add: fs_machine_def)

end
