(* ===== verification/Sync.thy ===== *)
theory Sync
  imports Lock
begin

text \<open>
  Updating locked dependencies: \<^verbatim>\<open>sdkt-core/src/sync.rs\<close>. \<open>plan_updates\<close> compares the commits of
  the lock with what the remotes offer; \<open>apply_updates\<close> fetches what changed and rewrites the
  lock. The plan looks at the machine and does not change it; the application threads the machine
  through its loop.
\<close>

section \<open>Data\<close>

datatype update_status = Unchanged | Updated | Pinned | Constraint | UpdateError

record update_change =
  uc_name :: string
  uc_source :: string
  uc_status :: update_status
  uc_old_commit :: string
  uc_new_commit :: string
  uc_detail :: string
  uc_resolved_tag :: "string option"

record update_report =
  ur_checked :: nat
  ur_updated :: nat
  ur_unchanged :: nat
  ur_changes :: "update_change list"

section \<open>The cache and the remote\<close>

definition cache_root :: "string \<Rightarrow> string" where
  "cache_root base = path_join base ''.sdkt-cache''"

definition ref_of_kind :: "string \<Rightarrow> string \<Rightarrow> string option" where
  "ref_of_kind kind reference =
     (if starts_with kind reference then Some (strip_all [kind] reference) else None)"

definition git_checkout :: "string \<Rightarrow> string \<Rightarrow> string \<Rightarrow> string" where
  "git_checkout base url reference =
     path_join (path_join (cache_root base) ''git'')
       (git_cache_key (default_dependency
          \<lparr>dep_git := Some url, dep_tag := ref_of_kind ''tag:'' reference,
           dep_branch := ref_of_kind ''branch:'' reference, dep_rev := ref_of_kind ''rev:'' reference\<rparr>))"

definition resolve_available_commit ::
  "('w, 'ver, 'req) sys \<Rightarrow> 'w \<Rightarrow> string \<Rightarrow> string option \<Rightarrow> string option \<Rightarrow> string option \<Rightarrow>
   (string, sync_error) result" where
  "resolve_available_commit S w url tag branch r =
     (case r of
        Some v \<Rightarrow> Ok v
      | None \<Rightarrow>
          let reference = unwrap_or []
                (or_else (map_option (\<lambda>t. ''refs/tags/'' @ t) tag)
                   (map_option (\<lambda>b. ''refs/heads/'' @ b) branch))
          in if reference = []
             then Err (UnknownReference ''dependency declares a git source without tag/branch/rev'')
             else and_then (git_probe S w) (\<lambda>_.
               case git_query S w None [''ls-remote'', url, reference] of
                 None \<Rightarrow> Err SyncGitUnavailable
               | Some out \<Rightarrow>
                   if po_success out then
                     (let line = trim (case str_lines (po_stdout out) of [] \<Rightarrow> [] | l # _ \<Rightarrow> l);
                          sha = trim (hd (split_on (CHR 0x09) line))
                      in if line = [] \<or> sha = [] then Err (UnknownReference reference) else Ok sha)
                   else Err (ls_remote_failed (''ls-remote '' @ url @ '' '' @ reference) out)))"

definition git_cache_exists :: "('w, 'ver, 'req) sys \<Rightarrow> 'w \<Rightarrow> string \<Rightarrow> dependency \<Rightarrow> bool" where
  "git_cache_exists S w base dep =
     (let reference = unwrap_or []
            (or_else (map_option (\<lambda>t. ''tag:'' @ t) (dep_tag dep))
               (or_else (map_option (\<lambda>b. ''branch:'' @ b) (dep_branch dep))
                  (map_option (\<lambda>r. ''rev:'' @ r) (dep_rev dep))))
      in sys_exists S w (git_dir (git_checkout base (unwrap_or [] (dep_git dep)) reference)))"

section \<open>Planning\<close>

definition em_dash :: string where
  "em_dash = [CHR 0xE2, CHR 0x80, CHR 0x94]"

definition git_change ::
  "string \<Rightarrow> update_status \<Rightarrow> string \<Rightarrow> string \<Rightarrow> string \<Rightarrow> string option \<Rightarrow> update_change" where
  "git_change name status old new detail tag =
     \<lparr>uc_name = name, uc_source = ''git'', uc_status = status, uc_old_commit = old,
      uc_new_commit = new, uc_detail = detail, uc_resolved_tag = tag\<rparr>"

definition failed_change ::
  "('w, 'ver, 'req) sys \<Rightarrow> 'w \<Rightarrow> string \<Rightarrow> string \<Rightarrow> dependency \<Rightarrow> string \<Rightarrow> sync_error \<Rightarrow> update_change" where
  "failed_change S w base name dep old e =
     git_change name UpdateError old []
       (if git_cache_exists S w base dep then sync_error_display e
        else ''missing cache (run `sdkt package fetch`): '' @ sync_error_display e) None"

definition plan_constraint ::
  "('w, 'ver, 'req) sys \<Rightarrow> 'w \<Rightarrow> string \<Rightarrow> string \<Rightarrow> dependency \<Rightarrow> string \<Rightarrow> string \<Rightarrow> string \<Rightarrow>
   (update_change, sync_error) result" where
  "plan_constraint S w base name dep url old constraint =
     (case resolve_version_constraint S w url constraint of
        Ok (Some (tag, commit)) \<Rightarrow>
          let satisfies = tag @ '' satisfies '' @ quoted constraint in
          Ok (if old = [] then
                git_change name Updated old commit
                  (''not yet locked '' @ em_dash @ '' would record '' @ tag @ '' (satisfies '' @
                   quoted constraint @ '')'') (Some tag)
              else if commit \<noteq> old then
                git_change name Updated old commit (''update-available ('' @ satisfies @ '')'') (Some tag)
              else git_change name Unchanged old commit (''up-to-date ('' @ satisfies @ '')'') (Some tag))
      | Ok None \<Rightarrow>
          Ok (git_change name Constraint old []
                (''constraint '' @ quoted constraint @ '' unsatisfied by available tags'') None)
      | Err e \<Rightarrow> Ok (failed_change S w base name dep old e)
      | Panic \<Rightarrow> Panic)"

definition plan_reference ::
  "('w, 'ver, 'req) sys \<Rightarrow> 'w \<Rightarrow> string \<Rightarrow> string \<Rightarrow> dependency \<Rightarrow> string \<Rightarrow> string \<Rightarrow>
   (update_change, sync_error) result" where
  "plan_reference S w base name dep url old =
     (case resolve_available_commit S w url (dep_tag dep) (dep_branch dep) (dep_rev dep) of
        Err e \<Rightarrow> Ok (failed_change S w base name dep old e)
      | Panic \<Rightarrow> Panic
      | Ok available \<Rightarrow>
          if old = [] then
            Ok (git_change name Updated old available
                  (''not yet locked '' @ em_dash @ '' would record available commit'') None)
          else if available \<noteq> old then
            and_then (short_sha available) (\<lambda>a.
            and_then (short_sha old) (\<lambda>b.
              Ok (git_change name Updated old available
                    (''available commit '' @ a @ '' != locked '' @ b) None)))
          else Ok (git_change name Unchanged old available ''already at latest'' None))"

definition locked_commit :: "lock_file \<Rightarrow> string \<Rightarrow> string" where
  "locked_commit lock name = unwrap_or [] (map_option dl_commit_sha (hm_get (locked_map lock) name))"

definition plan_dependency ::
  "('w, 'ver, 'req) sys \<Rightarrow> 'w \<Rightarrow> string \<Rightarrow> lock_file \<Rightarrow> string \<times> dependency \<Rightarrow>
   (update_change, sync_error) result" where
  "plan_dependency S w base lock = (\<lambda>(name, dep).
     let old = locked_commit lock name in
     case dep_git dep of
       None \<Rightarrow> Ok \<lparr>uc_name = name, uc_source = ''local'', uc_status = Unchanged, uc_old_commit = [],
                   uc_new_commit = [], uc_detail = ''local path dependency (no remote update)'',
                   uc_resolved_tag = None\<rparr>
     | Some url \<Rightarrow>
         (case dep_rev dep of
            Some r \<Rightarrow> Ok (git_change name Pinned old r ''pinned to rev (immutable)'' None)
          | None \<Rightarrow>
              (case dep_version dep of
                 Some constraint \<Rightarrow>
                   if dep_tag dep = None \<and> dep_branch dep = None
                   then plan_constraint S w base name dep url old constraint
                   else plan_reference S w base name dep url old
               | None \<Rightarrow> plan_reference S w base name dep url old)))"

definition summarize :: "update_change list \<Rightarrow> update_report" where
  "summarize changes =
     \<lparr>ur_checked = length changes,
      ur_updated = length (filter (\<lambda>c. uc_status c = Updated) changes),
      ur_unchanged = length (filter (\<lambda>c. uc_status c = Unchanged \<or> uc_status c = Pinned \<or>
        uc_status c = UpdateError) changes),
      ur_changes = changes\<rparr>"

definition manifest_check ::
  "('w, 'ver, 'req) sys \<Rightarrow> 'w \<Rightarrow> string \<Rightarrow> devkit_config \<Rightarrow> (unit, sync_error) result" where
  "manifest_check S w base cfg =
     map_err (\<lambda>e. InvalidManifest (package_error_display e)) (validate_manifest S w base cfg)"

definition plan_updates ::
  "('w, 'ver, 'req) sys \<Rightarrow> lock_codec \<Rightarrow> 'w \<Rightarrow> string \<Rightarrow> devkit_config \<Rightarrow> (update_report, sync_error) result" where
  "plan_updates S C w base cfg =
     and_then (manifest_check S w base cfg) (\<lambda>_.
     and_then (map_err (\<lambda>_. MissingLock) (read_lock S C w base)) (\<lambda>lock.
       map_ok summarize (try_map (plan_dependency S w base lock) (dependencies cfg))))"

section \<open>Applying\<close>

definition change_dep :: "dependency \<Rightarrow> update_change \<Rightarrow> dependency" where
  "change_dep dep change =
     (case uc_resolved_tag change of
        Some tag \<Rightarrow> default_dependency \<lparr>dep_git := dep_git dep, dep_tag := Some tag\<rparr>
      | None \<Rightarrow> dep)"

definition detached ::
  "('w, 'ver, 'req) sys \<Rightarrow> 'w \<Rightarrow> string \<Rightarrow> dependency \<Rightarrow> bool" where
  "detached S w base dep =
     (case dep_branch dep of
        None \<Rightarrow> False
      | Some b \<Rightarrow>
          let checkout = git_checkout base (unwrap_or [] (dep_git dep)) (''branch:'' @ b)
          in sys_exists S w (git_dir checkout) \<and>
             \<not> (case git_query S w (Some checkout) [''symbolic-ref'', ''-q'', ''HEAD''] of
                  Some out \<Rightarrow> po_success out
                | None \<Rightarrow> False))"

definition apply_change ::
  "('w, 'ver, 'req) sys \<Rightarrow> string \<Rightarrow> devkit_config \<Rightarrow> fetch_outcome list \<Rightarrow> update_change \<Rightarrow>
   ('w, fetch_outcome list, sync_error) io" where
  "apply_change S base cfg fetched change =
     (if uc_status change \<noteq> Updated then io_return (Ok fetched)
      else case hm_get (dependencies cfg) (uc_name change) of
        None \<Rightarrow> io_return (Ok fetched)
      | Some dep \<Rightarrow>
          if dep_git dep = None then io_return (Ok fetched)
          else (\<lambda>w.
            if detached S w base (change_dep dep change) then (w, Err (DetachedBranch (uc_name change)))
            else io_bind
              (io_map_err sync_error_from
                 (git_fetch S (cache_root base) (uc_name change) (change_dep dep change) True))
              (\<lambda>outcome. io_return (Ok (fetched @ [outcome]))) w))"

definition relock ::
  "nat \<Rightarrow> ('w, 'ver, 'req) sys \<Rightarrow> lock_codec \<Rightarrow> string \<Rightarrow> devkit_config \<Rightarrow> fetch_outcome list \<Rightarrow>
   ('w, lock_file, sync_error) io" where
  "relock stack S C base cfg fetched = (\<lambda>w.
     io_bind (io_return (map_err (\<lambda>_. MissingLock) (read_lock S C w base))) (\<lambda>lock.
     io_bind (io_return (lock_dependencies_resolved stack S w base cfg fetched)) (\<lambda>new_deps.
     let lock' = lock \<lparr>lf_dependencies := new_deps\<rparr> in
     io_bind (io_map_err (\<lambda>e. SyncIo (''writing sdkt.lock: '' @ lock_error_display e) (lock_error_display e))
                (write_lock S C base lock')) (\<lambda>_. io_return (Ok lock')))) w)"

definition apply_updates ::
  "nat \<Rightarrow> ('w, 'ver, 'req) sys \<Rightarrow> lock_codec \<Rightarrow> string \<Rightarrow> devkit_config \<Rightarrow>
   ('w, update_report \<times> lock_file, sync_error) io" where
  "apply_updates stack S C base cfg = (\<lambda>w.
     io_bind (io_return (manifest_check S w base cfg)) (\<lambda>_.
     io_bind (io_return (plan_updates S C w base cfg)) (\<lambda>plan.
     io_bind (io_fold (apply_change S base cfg) [] (ur_changes plan)) (\<lambda>fetched.
     io_bind (relock stack S C base cfg fetched) (\<lambda>lock.
       io_return (Ok (plan, lock)))))) w)"

section \<open>The plan\<close>

text \<open>The commit the remote offers for a dependency that follows a remote.\<close>

definition available_commit :: "('w, 'ver, 'req) sys \<Rightarrow> 'w \<Rightarrow> dependency \<Rightarrow> string option" where
  "available_commit S w dep =
     (case (dep_git dep, dep_rev dep) of
        (Some url, None) \<Rightarrow>
          (case (dep_version dep, dep_tag dep, dep_branch dep) of
             (Some constraint, None, None) \<Rightarrow>
               (case resolve_version_constraint S w url constraint of
                  Ok (Some (_, commit)) \<Rightarrow> Some commit | _ \<Rightarrow> None)
           | (_, tag, branch) \<Rightarrow>
               (case resolve_available_commit S w url tag branch None of Ok c \<Rightarrow> Some c | _ \<Rightarrow> None))
      | _ \<Rightarrow> None)"

lemma resolve_version_constraint_commit:
  assumes "resolve_version_constraint S w url constraint = Ok (Some (tag, commit))"
  shows "commit \<noteq> []"
proof -
  from assms obtain tags where tags: "list_remote_tags S w url = Ok tags"
    and best: "best_version_match S tags constraint = Some (tag, commit)"
    by (auto simp: resolve_version_constraint_def)
  have mem: "foldl (better_match S req) b xs = Some (v, tc) \<Longrightarrow> tc \<in> set xs \<or> b = Some (v, tc)" for req b xs v tc
  proof (induction xs arbitrary: b)
    case (Cons x xs)
    then consider "tc \<in> set xs" | "better_match S req b x = Some (v, tc)" by auto
    then show ?case by cases (auto simp: better_match_def split: option.splits prod.splits if_splits)
  qed simp
  from best have "(tag, commit) \<in> set tags"
    by (auto simp: best_version_match_def split: option.splits dest: mem)
  moreover from tags obtain out :: proc_output
    where "tags = List.map_filter remote_tag (str_lines (po_stdout out))"
    by (rule list_remote_tags_Ok)
  ultimately obtain line where "remote_tag line = Some (tag, commit)"
    by (auto simp: map_filter_def)
  then show ?thesis unfolding remote_tag_Some by blast
qed

lemma resolve_available_commit_nonempty:
  "resolve_available_commit S w url tag branch None = Ok c \<Longrightarrow> c \<noteq> []"
  by (auto simp: resolve_available_commit_def Let_def split: if_splits option.splits)

lemma plan_constraint_Ok:
  assumes "plan_constraint S w base name dep url old constraint = Ok ch"
  shows "uc_name ch = name \<and> uc_status ch \<noteq> Pinned \<and> uc_old_commit ch = old \<and>
    (uc_status ch = Updated \<longleftrightarrow> (\<exists>tag commit.
       resolve_version_constraint S w url constraint = Ok (Some (tag, commit)) \<and> commit \<noteq> old)) \<and>
    (uc_status ch = Updated \<longrightarrow> (\<exists>tag.
       resolve_version_constraint S w url constraint = Ok (Some (tag, uc_new_commit ch))))"
  using assms resolve_version_constraint_commit [of S w url constraint]
  by (auto simp: plan_constraint_def Let_def git_change_def failed_change_def
      split: result.splits option.splits prod.splits if_splits)

lemma plan_reference_Ok:
  assumes "plan_reference S w base name dep url old = Ok ch" and "dep_rev dep = None"
  shows "uc_name ch = name \<and> uc_status ch \<noteq> Pinned \<and> uc_old_commit ch = old \<and>
    (uc_status ch = Updated \<longleftrightarrow> (\<exists>commit.
       resolve_available_commit S w url (dep_tag dep) (dep_branch dep) None = Ok commit \<and> commit \<noteq> old)) \<and>
    (uc_status ch = Updated \<longrightarrow>
       resolve_available_commit S w url (dep_tag dep) (dep_branch dep) None = Ok (uc_new_commit ch))"
  using assms resolve_available_commit_nonempty [of S w url "dep_tag dep" "dep_branch dep"]
  by (auto simp: plan_reference_def git_change_def failed_change_def
      split: result.splits if_splits)

lemma plan_dependency_Ok:
  assumes "plan_dependency S w base lock (name, dep) = Ok ch"
  shows "uc_name ch = name \<and>
    (uc_status ch = Updated \<longleftrightarrow>
       (\<exists>c. available_commit S w dep = Some c \<and> c \<noteq> locked_commit lock name)) \<and>
    (uc_status ch = Updated \<longrightarrow> available_commit S w dep = Some (uc_new_commit ch)) \<and>
    (uc_status ch = Pinned \<longleftrightarrow> dep_git dep \<noteq> None \<and> dep_rev dep \<noteq> None)"
proof (cases "dep_git dep")
  case None
  then show ?thesis using assms by (auto simp: plan_dependency_def available_commit_def Let_def)
next
  case (Some url)
  show ?thesis
  proof (cases "dep_rev dep")
    case (Some r)
    then show ?thesis using assms \<open>dep_git dep = Some url\<close>
      by (auto simp: plan_dependency_def available_commit_def Let_def git_change_def)
  next
    case None
    show ?thesis
    proof (cases "\<exists>v. dep_version dep = Some v \<and> dep_tag dep = None \<and> dep_branch dep = None")
      case True
      then obtain v where v: "dep_version dep = Some v" "dep_tag dep = None" "dep_branch dep = None" by blast
      then have "plan_constraint S w base name dep url (locked_commit lock name) v = Ok ch"
        using assms Some None by (simp add: plan_dependency_def Let_def)
      from plan_constraint_Ok [OF this] show ?thesis
        using Some None v by (auto simp: available_commit_def split: result.splits option.splits)
    next
      case False
      then have "plan_reference S w base name dep url (locked_commit lock name) = Ok ch"
        using assms Some None by (auto simp: plan_dependency_def Let_def split: option.splits if_splits)
      from plan_reference_Ok [OF this None] show ?thesis
        using Some None False by (auto simp: available_commit_def split: result.splits option.splits)
    qed
  qed
qed

lemma plan_dependency_split:
  "plan_dependency S w base lock nd = Ok ch \<Longrightarrow>
     uc_name ch = fst nd \<and>
     (uc_status ch = Updated \<longleftrightarrow>
       (\<exists>c. available_commit S w (snd nd) = Some c \<and> c \<noteq> locked_commit lock (fst nd))) \<and>
     (uc_status ch = Updated \<longrightarrow> available_commit S w (snd nd) = Some (uc_new_commit ch)) \<and>
     (uc_status ch = Pinned \<longleftrightarrow> dep_git (snd nd) \<noteq> None \<and> dep_rev (snd nd) \<noteq> None)"
  using plan_dependency_Ok [of S w base lock "fst nd" "snd nd"] by simp

lemma plan_updates_Ok:
  assumes "plan_updates S C w base cfg = Ok plan"
  obtains lock where "validate_manifest S w base cfg = Ok ()" and "read_lock S C w base = Ok lock"
    and "plan = summarize (ur_changes plan)"
    and "list_all2 (\<lambda>nd ch. plan_dependency S w base lock nd = Ok ch) (dependencies cfg) (ur_changes plan)"
proof -
  from assms obtain lock chs where "validate_manifest S w base cfg = Ok ()" "read_lock S C w base = Ok lock"
    and chs: "try_map (plan_dependency S w base lock) (dependencies cfg) = Ok chs" and "plan = summarize chs"
    by (auto simp: plan_updates_def manifest_check_def)
  then show thesis using that by (simp add: try_map_Ok_iff summarize_def)
qed

text \<open>
  C10. A plan holds one change per dependency of the manifest, in order. A dependency is reported
  as \<open>Updated\<close> exactly when it follows a remote (a tag, a branch or a version constraint) and the
  commit the remote offers differs from the locked one, and then the change carries that commit;
  it is \<open>Pinned\<close> exactly when it is a git dependency with a \<^verbatim>\<open>rev\<close>.
\<close>

theorem plan_updates_classifies:
  assumes "plan_updates S C w base cfg = Ok plan"
  shows "\<exists>lock. read_lock S C w base = Ok lock \<and> ur_checked plan = length (dependencies cfg) \<and>
    map uc_name (ur_changes plan) = hm_keys (dependencies cfg) \<and>
    list_all2 (\<lambda>(name, dep) ch.
      (uc_status ch = Updated \<longleftrightarrow>
         (\<exists>c. available_commit S w dep = Some c \<and> c \<noteq> locked_commit lock name)) \<and>
      (uc_status ch = Updated \<longrightarrow> available_commit S w dep = Some (uc_new_commit ch)) \<and>
      (uc_status ch = Pinned \<longleftrightarrow> dep_git dep \<noteq> None \<and> dep_rev dep \<noteq> None))
      (dependencies cfg) (ur_changes plan)"
proof -
  from assms obtain lock where lock: "read_lock S C w base = Ok lock"
    and plan: "plan = summarize (ur_changes plan)"
    and l2: "list_all2 (\<lambda>nd ch. plan_dependency S w base lock nd = Ok ch) (dependencies cfg) (ur_changes plan)"
    by (rule plan_updates_Ok)
  have "list_all2 (\<lambda>nd ch. uc_name ch = fst nd) (dependencies cfg) (ur_changes plan)"
    by (rule list_all2_mono [OF l2]) (auto dest!: plan_dependency_split)
  then have "map uc_name (ur_changes plan) = hm_keys (dependencies cfg)"
    unfolding hm_keys_def by (induction rule: list_all2_induct) simp_all
  moreover have "ur_checked plan = length (dependencies cfg)"
    using arg_cong [OF plan, of ur_checked] list_all2_lengthD [OF l2]
    by (simp only: summarize_def update_report.select_convs)
  moreover have "list_all2 (\<lambda>(name, dep) ch.
      (uc_status ch = Updated \<longleftrightarrow>
         (\<exists>c. available_commit S w dep = Some c \<and> c \<noteq> locked_commit lock name)) \<and>
      (uc_status ch = Updated \<longrightarrow> available_commit S w dep = Some (uc_new_commit ch)) \<and>
      (uc_status ch = Pinned \<longleftrightarrow> dep_git dep \<noteq> None \<and> dep_rev dep \<noteq> None))
      (dependencies cfg) (ur_changes plan)"
    unfolding split_beta by (rule list_all2_mono [OF l2]) (erule plan_dependency_split [THEN conjunct2])
  ultimately show ?thesis using lock by blast
qed

text \<open>
  The two counters of a report do not partition the checked dependencies: a dependency whose
  constraint no tag satisfies is in neither, and a dependency that could not be resolved at all
  counts as unchanged.
\<close>

theorem summarize_counts:
  "ur_checked (summarize chs) = ur_updated (summarize chs) + ur_unchanged (summarize chs) +
     length (filter (\<lambda>c. uc_status c = Constraint) chs) \<and>
   length (filter (\<lambda>c. uc_status c = UpdateError) chs) \<le> ur_unchanged (summarize chs)"
proof (induction chs)
  case (Cons c chs)
  then show ?case by (cases "uc_status c") (auto simp: summarize_def)
qed (simp add: summarize_def)

section \<open>Applying an update\<close>

lemma apply_change_Ok:
  assumes "apply_change S base cfg fetched ch w = (w', Ok fetched')"
  obtains (kept) "w' = w" and "fetched' = fetched"
  | (fetched) out where "fetched' = fetched @ [out]" and "fo_name out = uc_name ch" and "uc_status ch = Updated"
  using assms
proof (cases "uc_status ch = Updated")
  case True
  show ?thesis
  proof (cases "hm_get (dependencies cfg) (uc_name ch)")
    case None
    then show ?thesis using assms True kept by (simp add: apply_change_def)
  next
    case (Some dep)
    show ?thesis
    proof (cases "dep_git dep = None")
      case False
      then obtain out where "git_fetch S (cache_root base) (uc_name ch) (change_dep dep ch) True w = (w', Ok out)"
        and "fetched' = fetched @ [out]"
        using assms True Some by (auto simp: apply_change_def io_bind_Ok_iff split: if_splits)
      moreover from this(1) have "fo_name out = uc_name ch" by (cases rule: git_fetch_Ok_cases) auto
      ultimately show ?thesis using fetched True by blast
    qed (use assms True Some kept in \<open>simp add: apply_change_def\<close>)
  qed
qed (use assms kept in \<open>simp add: apply_change_def\<close>)

lemma apply_changes_names:
  assumes "io_fold (apply_change S base cfg) fetched chs w = (w', Ok fetched')" and "out \<in> set fetched'"
  shows "out \<in> set fetched \<or> (\<exists>ch \<in> set chs. uc_status ch = Updated \<and> uc_name ch = fo_name out)"
  using assms(1)
proof (induction chs arbitrary: fetched w)
  case Nil
  then show ?case using assms(2) by simp
next
  case (Cons ch chs)
  then obtain w1 f1 where step: "apply_change S base cfg fetched ch w = (w1, Ok f1)"
    and rest: "io_fold (apply_change S base cfg) f1 chs w1 = (w', Ok fetched')"
    by (auto simp: io_bind_Ok_iff)
  from step Cons.IH [OF rest] show ?case
    by (cases rule: apply_change_Ok) auto
qed

lemma apply_updates_Ok:
  assumes "apply_updates stack S C base cfg w = (w', Ok (plan, lock'))"
  obtains w1 fetched lock new_deps p where "plan_updates S C w base cfg = Ok plan"
    and "io_fold (apply_change S base cfg) [] (ur_changes plan) w = (w1, Ok fetched)"
    and "read_lock S C w1 base = Ok lock"
    and "lock_dependencies_resolved stack S w1 base cfg fetched = (Ok new_deps :: (_, sync_error) result)"
    and "lock' = lock \<lparr>lf_dependencies := new_deps\<rparr>"
    and "write_lock S C base lock' w1 = (w', Ok p)"
proof -
  from assms obtain w1 fetched where plan: "plan_updates S C w base cfg = Ok plan"
    and run: "io_fold (apply_change S base cfg) [] (ur_changes plan) w = (w1, Ok fetched)"
    and re: "relock stack S C base cfg fetched w1 = (w', Ok lock')"
    unfolding apply_updates_def by (elim io_bind_OkE) simp
  from re obtain lock new_deps p where "read_lock S C w1 base = Ok lock"
    "lock_dependencies_resolved stack S w1 base cfg fetched = (Ok new_deps :: (_, sync_error) result)"
    "lock' = lock \<lparr>lf_dependencies := new_deps\<rparr>" "write_lock S C base lock' w1 = (w', Ok p)"
    unfolding relock_def Let_def by (elim io_bind_OkE) simp
  from that [OF plan run this] show thesis .
qed


text \<open>
  An update forgets the locked state of every git dependency it does not fetch. For a
  dependency the plan does not mark as \<open>Updated\<close> (one that is up to date, pinned to a \<^verbatim>\<open>rev\<close> or could
  not be resolved) the new lock has the bare manifest entry: commit, cache location and integrity
  are empty, whatever the old lock recorded.
\<close>

theorem apply_updates_forgets_unchanged:
  assumes "config_wf cfg" and "apply_updates stack S C base cfg w = (w', Ok (plan, lock'))"
    and "(name, dep) \<in> set (dependencies cfg)"
    and "\<forall>ch \<in> set (ur_changes plan). uc_name ch = name \<longrightarrow> uc_status ch \<noteq> Updated"
  shows "\<exists>e \<in> set (lf_dependencies lock'). e = lock_dependency base (name, dep) \<and> dl_name e = name \<and>
    dl_commit_sha e = [] \<and> dl_cache_location e = [] \<and> dl_integrity e = []"
proof -
  from assms(2) obtain w1 fetched lock new_deps p
    where run: "io_fold (apply_change S base cfg) [] (ur_changes plan) w = (w1, Ok fetched)"
    and deps: "lock_dependencies_resolved stack S w1 base cfg fetched = (Ok new_deps :: (_, sync_error) result)"
    and lock': "lock' = lock \<lparr>lf_dependencies := new_deps\<rparr>"
    by (rule apply_updates_Ok)
  have "fo_name out \<noteq> name" if "out \<in> set fetched" for out
    using apply_changes_names [OF run that] assms(4) by auto
  then have none: "find (\<lambda>out. fo_name out = name) fetched = None" by (auto simp: find_None_iff)
  have wf: "distinct (map fst (dependencies cfg))" using assms(1) by (simp add: config_wf_def hm_wf_def)
  have first: "find (\<lambda>d. dl_name d = name) (lock_dependencies base xs) = Some (lock_dependency base (name, dep))"
    if "distinct (map fst xs)" and "(name, dep) \<in> set xs" for xs
    using that by (induction xs) (auto simp: lock_dependencies_def rev_image_eqI)
  have "lock_dependency_resolved stack S w1 base cfg fetched (name, dep) =
      (Ok (lock_dependency base (name, dep)) :: (_, sync_error) result)"
    using none first [OF wf assms(3)] by (simp add: lock_dependency_resolved_def)
  moreover from deps obtain e where "e \<in> set new_deps"
    and "lock_dependency_resolved stack S w1 base cfg fetched (name, dep) = (Ok e :: (_, sync_error) result)"
    unfolding lock_dependencies_resolved_def using try_map_Ok_mem [OF _ assms(3)] by metis
  ultimately have "lock_dependency base (name, dep) \<in> set (lf_dependencies lock')" using lock' by simp
  moreover have "dl_commit_sha (lock_dependency base (name, dep)) = []"
    "dl_cache_location (lock_dependency base (name, dep)) = []"
    "dl_integrity (lock_dependency base (name, dep)) = []"
    by (simp_all add: lock_dependency_def empty_dependency_lock_def Let_def split: option.splits)
  ultimately show ?thesis by force
qed

lemma strip_all_once: "p \<noteq> [] \<Longrightarrow> \<not> starts_with p s \<Longrightarrow> strip_all [p] (p @ s) = s"
  by (subst strip_all.simps, simp) (subst strip_all.simps, simp)

text \<open>
  A branch dependency cannot be updated once it was fetched. The fetch checks out
  \<^verbatim>\<open>origin/<branch>\<close>, and checking out a remote-tracking name leaves git with a detached HEAD, which
  the update refuses: as soon as the plan reports a new commit, applying the change fails with
  \<open>DetachedBranch\<close> and changes nothing. The hypothesis on git is its documented behaviour: after
  \<^verbatim>\<open>git checkout origin/<branch>\<close> the checkout is there and \<^verbatim>\<open>git symbolic-ref -q HEAD\<close> fails.
\<close>

theorem branch_update_detached:
  assumes "hm_get (dependencies cfg) name = Some dep" and "dep_git dep = Some url"
    and "dep_branch dep = Some b" and "dep_tag dep = None" and "dep_rev dep = None"
    and "dep_version dep = None" and "\<not> starts_with ''branch:'' b"
    and "\<And>c w0 w1. run_git S c [''checkout'', ''--force'', ''origin/'' @ b] w0 = (w1, Ok ()) \<Longrightarrow>
      sys_exists S w1 (git_dir c) \<and>
      (\<exists>out. git_query S w1 (Some c) [''symbolic-ref'', ''-q'', ''HEAD''] = Some out \<and> \<not> po_success out)"
    and "git_fetch S (cache_root base) name dep force w = (w', Ok out)" and "\<not> fo_already_present out"
    and "uc_status ch = Updated" and "uc_name ch = name" and "uc_resolved_tag ch = None"
  shows "apply_change S base cfg fetched ch w' = (w', Err (DetachedBranch name))"
proof -
  have eff: "effective_dep S w url dep = Ok dep" using assms(6) by (simp add: effective_dep_def)
  have ref: "checkout_ref dep = ''origin/'' @ b" using assms(3-5) by (simp add: checkout_ref_def)
  from assms(9,10) obtain w1
    where path: "fo_local_path out = path_join (path_join (cache_root base) ''git'') (git_cache_key dep)"
    and co: "run_git S (fo_local_path out) [''checkout'', ''--force'', ''origin/'' @ b] w1 = (w', Ok ())"
  proof (cases rule: git_fetch_Ok_cases)
    case (acquired url' eff' w0 dir args w1)
    then have "eff' = dep" using eff assms(2) by simp
    then show ?thesis using that acquired(6,9) ref by simp
  qed (use assms(10) in simp)
  have "strip_all [''branch:''] (''branch:'' @ b) = b" using assms(7) by (intro strip_all_once) auto
  then have "git_checkout base url (''branch:'' @ b) = fo_local_path out"
    unfolding git_checkout_def path git_cache_key_def git_ref_of_def ref_of_kind_def
    using assms(2-5) by (simp add: default_dependency_def)
  then have "detached S w' base dep"
    using assms(8) [OF co] assms(2,3) by (auto simp: detached_def Let_def)
  then show ?thesis
    using assms(1,2,11-13) by (simp add: apply_change_def change_dep_def)
qed

section \<open>Witnesses\<close>

text \<open>A machine with files and a remote that offers the commit \<^verbatim>\<open>c0ffee\<close>; the lock on disk
  records that commit for the git dependency of the manifest.\<close>

definition sync_machine :: "(files, nat list, nat list) sys" where
  "sync_machine = fs_machine
     \<lparr>sys_query := \<lambda>_ _ _ args.
        if args = [''--version''] then Some (ok_output ''git version 2'')
        else Some (ok_output (''c0ffee'' @ [CHR 0x09] @ ''refs/tags/v1.2.0''))\<rparr>"

definition synced_lock :: lock_file where
  "synced_lock = manifest_lock
     \<lparr>lf_deploy_order := [''app''],
      lf_dependencies := map (\<lambda>d. if dl_source d = ''git'' then d \<lparr>dl_commit_sha := ''c0ffee''\<rparr> else d)
        (lf_dependencies manifest_lock)\<rparr>"

definition rewritten_lock :: lock_file where
  "rewritten_lock = synced_lock \<lparr>lf_dependencies := lock_dependencies ''/w'' (dependencies example_manifest)\<rparr>"

definition two_lock_codec :: lock_codec where
  "two_lock_codec =
     \<lparr>lc_print = \<lambda>l. if l = rewritten_lock then Inr ''new'' else Inl ''unsupported'',
      lc_parse = \<lambda>t. if t = ''new'' then Inr rewritten_lock else if t = ''lock'' then Inr synced_lock
        else Inl ''syntax''\<rparr>"

lemma sync_machine_facts: "files_persist sync_machine" "codec_roundtrip two_lock_codec"
  by (auto simp: files_persist_def codec_roundtrip_def two_lock_codec_def sync_machine_def fs_machine_def
      file_text_def split: if_splits)

definition sync_changes :: "update_change list" where
  "sync_changes =
     [\<lparr>uc_name = ''lib'', uc_source = ''local'', uc_status = Unchanged, uc_old_commit = [],
       uc_new_commit = [], uc_detail = ''local path dependency (no remote update)'', uc_resolved_tag = None\<rparr>,
      git_change ''token'' Unchanged ''c0ffee'' ''c0ffee'' ''already at latest'' None]"

lemma sync_plan: "plan_updates sync_machine two_lock_codec locked_files ''/w'' example_manifest =
    Ok (summarize sync_changes)"
  by code_simp

lemma sync_lock_read: "read_lock sync_machine two_lock_codec locked_files ''/w'' = Ok synced_lock"
  by (simp add: read_lock_def lock_from_toml_def two_lock_codec_def sync_machine_def fs_machine_def
      file_text_def locked_files_def Let_def)

lemma sync_applied:
  "apply_updates 1 sync_machine two_lock_codec ''/w'' example_manifest locked_files =
     (locked_files(path_join ''/w'' LOCK_FILE_NAME \<mapsto> ''new''), Ok (summarize sync_changes, rewritten_lock))"
proof -
  have check: "manifest_check sync_machine locked_files ''/w'' example_manifest = Ok ()" by code_simp
  have fold: "io_fold (apply_change sync_machine ''/w'' example_manifest) [] (ur_changes (summarize sync_changes))
      locked_files = (locked_files, Ok [])"
    by (simp add: summarize_def sync_changes_def apply_change_def git_change_def io_bind_def)
  have deps: "lock_dependencies_resolved 1 sync_machine locked_files ''/w'' example_manifest [] =
      (Ok (lock_dependencies ''/w'' (dependencies example_manifest)) :: (_, sync_error) result)"
    by code_simp
  have "write_lock sync_machine two_lock_codec ''/w'' rewritten_lock locked_files =
      (locked_files(path_join ''/w'' LOCK_FILE_NAME \<mapsto> ''new''), Ok (path_join ''/w'' LOCK_FILE_NAME))"
    by (simp add: write_lock_def io_bind_def lock_to_toml_def two_lock_codec_def sync_machine_def fs_machine_def Let_def)
  then have "relock 1 sync_machine two_lock_codec ''/w'' example_manifest [] locked_files =
      (locked_files(path_join ''/w'' LOCK_FILE_NAME \<mapsto> ''new''), Ok rewritten_lock)"
    by (simp add: relock_def io_bind_def io_map_err_def sync_lock_read deps Let_def del: One_nat_def flip: rewritten_lock_def)
  then show ?thesis
    by (simp add: apply_updates_def io_bind_def check sync_plan fold)
qed

theorem plan_updates_classifies_witness:
  "map uc_name (ur_changes (summarize sync_changes)) = hm_keys (dependencies example_manifest)"
  using plan_updates_classifies [OF sync_plan] by blast


theorem apply_updates_forgets_unchanged_witness:
  "\<exists>e \<in> set (lf_dependencies rewritten_lock). dl_name e = ''token'' \<and> dl_commit_sha e = []"
proof -
  have "(''token'', default_dependency
      \<lparr>dep_git := Some ''https://example.com/token'', dep_tag := Some ''v1.2.0''\<rparr>)
      \<in> set (dependencies example_manifest)" by (simp add: example_manifest_def)
  moreover have "\<forall>ch \<in> set (ur_changes (summarize sync_changes)). uc_name ch = ''token'' \<longrightarrow> uc_status ch \<noteq> Updated"
    by (simp add: summarize_def sync_changes_def git_change_def)
  ultimately show ?thesis
    using apply_updates_forgets_unchanged [OF example_manifest_eval(1) sync_applied] by blast
qed

definition branch_machine :: "(string option, nat list, nat list) sys" where
  "branch_machine = git_machine
     \<lparr>sys_query := \<lambda>w _ _ args.
        if args = [''symbolic-ref'', ''-q'', ''HEAD'']
        then Some \<lparr>po_success = False, po_code = Some 1, po_stdout = [], po_stderr = []\<rparr>
        else Some (ok_output ''c0ffee'')\<rparr>"

definition branch_dep :: dependency where
  "branch_dep = default_dependency \<lparr>dep_git := Some ''/srv/lib'', dep_branch := Some ''main''\<rparr>"

lemma branch_fetch:
  "\<exists>out. git_fetch branch_machine (cache_root ''/w'') ''lib'' branch_dep True None = (Some ''c0ffee'', Ok out) \<and>
     \<not> fo_already_present out"
proof -
  have "dep_git branch_dep = Some ''/srv/lib''" "trim ''/srv/lib'' \<noteq> []"
    "git_available branch_machine None = Ok ()"
    "effective_dep branch_machine None ''/srv/lib'' branch_dep = Ok branch_dep" by code_simp+
  moreover have "sys_create_dir_all branch_machine None p = Inr None" "\<not> sys_exists branch_machine None p" for p
    by (simp_all add: branch_machine_def git_machine_def)
  moreover have "git_acquire branch_machine ''lib'' ''/srv/lib'' p branch_dep c False True None =
      (Some ''c0ffee'', Ok \<lparr>fo_name = ''lib'', fo_local_path = c, fo_resolved_rev = ''c0ffee'',
         fo_already_present = False\<rparr>)" for p c
    by code_simp
  ultimately show ?thesis
    by (simp add: git_fetch_def git_fetch_from_def Let_def io_bind_def)
qed

theorem branch_update_detached_witness:
  "apply_change branch_machine ''/w'' (default_config \<lparr>dependencies := [(''lib'', branch_dep)]\<rparr>) []
     (git_change ''lib'' Updated ''beef'' ''c0ffee'' [] None) (Some ''c0ffee'') =
     (Some ''c0ffee'', Err (DetachedBranch ''lib''))"
proof -
  let ?cfg = "default_config \<lparr>dependencies := [(''lib'', branch_dep)]\<rparr>"
  let ?ch = "git_change ''lib'' Updated ''beef'' ''c0ffee'' [] None"
  obtain out where out: "git_fetch branch_machine (cache_root ''/w'') ''lib'' branch_dep True None =
      (Some ''c0ffee'', Ok out)" "\<not> fo_already_present out"
    using branch_fetch by blast
  have cfg: "hm_get (dependencies ?cfg) ''lib'' = Some branch_dep" by (simp add: hm_get_def)
  have dep: "dep_git branch_dep = Some ''/srv/lib''" "dep_branch branch_dep = Some ''main''"
    "dep_tag branch_dep = None" "dep_rev branch_dep = None" "dep_version branch_dep = None"
    "\<not> starts_with ''branch:'' ''main''" by code_simp+
  have ch: "uc_status ?ch = Updated" "uc_name ?ch = ''lib''" "uc_resolved_tag ?ch = None"
    by (simp_all add: git_change_def)
  have git: "sys_exists branch_machine w1 (git_dir c) \<and>
      (\<exists>out. git_query branch_machine w1 (Some c) [''symbolic-ref'', ''-q'', ''HEAD''] = Some out \<and> \<not> po_success out)"
    if "run_git branch_machine c [''checkout'', ''--force'', ''origin/'' @ ''main''] w0 = (w1, Ok ())" for c w0 w1
    using that by (auto simp: run_git_def git_query_def branch_machine_def git_machine_def)
  show ?thesis
    by (rule branch_update_detached [OF cfg dep git out ch])
qed

end
