(* ===== verification/Contract_Spec.thy ===== *)
theory Contract_Spec
  imports Rust_Std
begin

text \<open>
  The contract interface of \<^verbatim>\<open>sdkt-wasm/src/spec.rs\<close> and the module metadata of
  \<^verbatim>\<open>sdkt-wasm/src/lib.rs\<close>. The XDR values of the \<^verbatim>\<open>stellar_xdr\<close> crate are the datatypes of the first
  section; the WASM parser, the XDR readers and SHA-256 are the parameter \<open>wasm_tools\<close>. The two
  loops that read concatenated XDR entries are one partial function: a reader that consumed
  nothing would make them run forever.
\<close>

section \<open>The declared interface\<close>

datatype sc_type =
    TVal | TBool | TVoid | TError | TU32 | TI32 | TU64 | TI64 | TTimepoint | TDuration
  | TU128 | TI128 | TU256 | TI256 | TBytes | TString | TSymbol | TAddress | TMuxedAddress
  | TOption sc_type
  | TResult sc_type sc_type
  | TVec sc_type
  | TMap sc_type sc_type
  | TTuple "sc_type list"
  | TBytesN nat
  | TUdt string

record sc_field =
  sf_name :: string
  sf_doc :: string
  sf_type :: sc_type

datatype sc_union_case =
    VoidCase string string
  | TupleCase string string "sc_type list"

record sc_enum_case =
  se_name :: string
  se_doc :: string
  se_value :: nat

datatype sc_location = LocData | LocTopicList

datatype sc_data_format = FmtSingleValue | FmtVec | FmtMap

record sc_event_param =
  sp_name :: string
  sp_doc :: string
  sp_type :: sc_type
  sp_location :: sc_location

datatype sc_spec_entry =
    FunctionV0 string string "sc_field list" "sc_type list"
  | UdtStructV0 string string "sc_field list"
  | UdtUnionV0 string string "sc_union_case list"
  | UdtEnumV0 string string "sc_enum_case list"
  | UdtErrorEnumV0 string string "sc_enum_case list"
  | EventV0 string string "string list" "sc_event_param list" sc_data_format

section \<open>The typed model\<close>

datatype contract_type =
  ContractType (ct_name: string) (ct_kind: string) (ct_doc: string) (ct_members: "type_member list")
    (ct_type_args: "contract_type list") (ct_bytes_n: "nat option")
and type_member =
  TypeMember (tm_name: string) (tm_doc: string) (tm_types: "contract_type list") (tm_value: "nat option")

record contract_parameter =
  cp_name :: string
  cp_doc :: string
  cp_type :: contract_type

record contract_function =
  cf_name :: string
  cf_doc :: string
  cf_parameters :: "contract_parameter list"
  cf_outputs :: "contract_type list"

record event_param =
  ep_name :: string
  ep_doc :: string
  ep_type :: contract_type
  ep_location :: string

record contract_event =
  ce_name :: string
  ce_doc :: string
  ce_prefix_topics :: "string list"
  ce_params :: "event_param list"
  ce_data_format :: string

record env_meta_spec =
  em_protocol :: nat
  em_pre_release :: nat

record contract_spec =
  cs_env_meta :: "env_meta_spec option"
  cs_functions :: "contract_function list"
  cs_custom_types :: "contract_type list"
  cs_events :: "contract_event list"

definition primitive :: "string \<Rightarrow> contract_type" where
  "primitive n = ContractType n ''primitive'' [] [] [] None"

definition compound :: "string \<Rightarrow> contract_type list \<Rightarrow> string list \<Rightarrow> contract_type" where
  "compound n args labels =
     ContractType n ''compound'' [] (map (\<lambda>(ty, label). TypeMember label [] [ty] None) (zip args labels)) args None"

primrec map_type_def :: "sc_type \<Rightarrow> contract_type" where
  "map_type_def TVal = primitive ''val''"
| "map_type_def TBool = primitive ''bool''"
| "map_type_def TVoid = primitive ''void''"
| "map_type_def TError = primitive ''error''"
| "map_type_def TU32 = primitive ''u32''"
| "map_type_def TI32 = primitive ''i32''"
| "map_type_def TU64 = primitive ''u64''"
| "map_type_def TI64 = primitive ''i64''"
| "map_type_def TTimepoint = primitive ''timepoint''"
| "map_type_def TDuration = primitive ''duration''"
| "map_type_def TU128 = primitive ''u128''"
| "map_type_def TI128 = primitive ''i128''"
| "map_type_def TU256 = primitive ''u256''"
| "map_type_def TI256 = primitive ''i256''"
| "map_type_def TBytes = primitive ''bytes''"
| "map_type_def TString = primitive ''string''"
| "map_type_def TSymbol = primitive ''symbol''"
| "map_type_def TAddress = primitive ''address''"
| "map_type_def TMuxedAddress = primitive ''muxed_address''"
| "map_type_def (TOption t) =
     (let a = map_type_def t in compound (''option<'' @ ct_name a @ ''>'') [a] [''value_type''])"
| "map_type_def (TResult t e) =
     (let a = map_type_def t; b = map_type_def e
      in compound (''result<'' @ ct_name a @ '', '' @ ct_name b @ ''>'') [a, b] [''ok_type'', ''error_type''])"
| "map_type_def (TVec t) =
     (let a = map_type_def t in compound (''vec<'' @ ct_name a @ ''>'') [a] [''element_type''])"
| "map_type_def (TMap k v) =
     (let a = map_type_def k; b = map_type_def v
      in compound (''map<'' @ ct_name a @ '', '' @ ct_name b @ ''>'') [a, b] [''key_type'', ''value_type''])"
| "map_type_def (TTuple ts) =
     (let args = map map_type_def ts
      in compound (''tuple<'' @ join_strs '', '' (map ct_name args) @ ''>'') args
           (map show_nat [0..<length args]))"
| "map_type_def (TBytesN n) =
     ContractType (''bytesn<'' @ show_nat n @ ''>'') ''compound'' [] [] [] (Some n)"
| "map_type_def (TUdt n) = ContractType n ''udt'' [] [] [] None"

definition map_udt_struct :: "string \<Rightarrow> string \<Rightarrow> sc_field list \<Rightarrow> contract_type" where
  "map_udt_struct n d fs =
     ContractType n ''struct'' d
       (map (\<lambda>f. TypeMember (sf_name f) (sf_doc f) [map_type_def (sf_type f)] None) fs) [] None"

fun map_union_case :: "sc_union_case \<Rightarrow> type_member" where
  "map_union_case (VoidCase n d) = TypeMember n d [] None"
| "map_union_case (TupleCase n d ts) = TypeMember n d (map map_type_def ts) None"

definition map_udt_union :: "string \<Rightarrow> string \<Rightarrow> sc_union_case list \<Rightarrow> contract_type" where
  "map_udt_union n d cases = ContractType n ''union'' d (map map_union_case cases) [] None"

definition map_udt_enum :: "string \<Rightarrow> string \<Rightarrow> sc_enum_case list \<Rightarrow> contract_type" where
  "map_udt_enum n d cases =
     ContractType n ''enum'' d
       (map (\<lambda>c. TypeMember (se_name c) (se_doc c) [] (Some (se_value c))) cases) [] None"

definition map_udt_error_enum :: "string \<Rightarrow> string \<Rightarrow> sc_enum_case list \<Rightarrow> contract_type" where
  "map_udt_error_enum n d cases =
     ContractType n ''error_enum'' d
       (map (\<lambda>c. TypeMember (se_name c) (se_doc c) [] (Some (se_value c))) cases) [] None"

fun location_str :: "sc_location \<Rightarrow> string" where
  "location_str LocData = ''data''"
| "location_str LocTopicList = ''topic_list''"

fun data_format_str :: "sc_data_format \<Rightarrow> string" where
  "data_format_str FmtSingleValue = ''single_value''"
| "data_format_str FmtVec = ''vec''"
| "data_format_str FmtMap = ''map''"

definition map_event ::
  "string \<Rightarrow> string \<Rightarrow> string list \<Rightarrow> sc_event_param list \<Rightarrow> sc_data_format \<Rightarrow> contract_event" where
  "map_event n d topics params fmt =
     \<lparr>ce_name = n, ce_doc = d, ce_prefix_topics = topics,
      ce_params = map (\<lambda>p. \<lparr>ep_name = sp_name p, ep_doc = sp_doc p, ep_type = map_type_def (sp_type p),
        ep_location = location_str (sp_location p)\<rparr>) params,
      ce_data_format = data_format_str fmt\<rparr>"

section \<open>Parsing\<close>

datatype wasm_error =
    WasmParse string
  | WasmEmpty
  | NoContractSpec
  | SpecXdr string
  | MetaXdr string

fun wasm_error_display :: "wasm_error \<Rightarrow> string" where
  "wasm_error_display (WasmParse e) = ''WASM parse error: '' @ e"
| "wasm_error_display WasmEmpty = ''Empty WASM bytes''"
| "wasm_error_display NoContractSpec = ''No contractspecv0 section found''"
| "wasm_error_display (SpecXdr e) = ''XDR decode error in contract spec: '' @ e"
| "wasm_error_display (MetaXdr e) = ''XDR decode error in contract metadata: '' @ e"

record wasm_memory =
  wm_initial_pages :: nat
  wm_maximum_pages :: "nat option"

text \<open>The payloads of the parser the code looks at; a section that is read item by item is the
  list of its items, each an item or a parse error.\<close>

datatype wasm_payload =
    Version nat
  | ExportSection "(string + string \<times> string) list"
  | ImportSection "(string + string \<times> string \<times> string) list"
  | CustomSection string string
  | FunctionSection nat
  | MemorySection "(string + wasm_memory) list"
  | TableSection nat
  | GlobalSection nat
  | DataSection nat
  | OtherPayload

record wasm_tools =
  wt_parse_all :: "string \<Rightarrow> (string + wasm_payload) list"
  wt_read_entry :: "string \<Rightarrow> string + sc_spec_entry \<times> nat"
  wt_read_env_meta :: "string \<Rightarrow> string + nat \<times> nat"
  wt_read_meta :: "string \<Rightarrow> string + (string \<times> string) \<times> nat"
  wt_sha256_hex :: "string \<Rightarrow> string"

text \<open>Read entries until no bytes remain.\<close>

partial_function (option) read_entries ::
  "(string \<Rightarrow> string + 'x \<times> nat) \<Rightarrow> string \<Rightarrow> ('x list, string) result option" where
  "read_entries read items =
     (if items = [] then Some (Ok [])
      else case read items of
        Inl e \<Rightarrow> Some (Err e)
      | Inr (entry, consumed) \<Rightarrow>
          if consumed > length items then Some Panic
          else Option.bind (read_entries read (drop consumed items)) (\<lambda>r. Some (map_ok (\<lambda>es. entry # es) r)))"

declare read_entries.simps [code]

record spec_lists =
  sl_functions :: "contract_function list"
  sl_custom_types :: "contract_type list"
  sl_events :: "contract_event list"

fun push_entry :: "spec_lists \<Rightarrow> sc_spec_entry \<Rightarrow> spec_lists" where
  "push_entry acc (FunctionV0 n d inputs outputs) =
     acc \<lparr>sl_functions := sl_functions acc @
       [\<lparr>cf_name = n, cf_doc = d,
         cf_parameters = map (\<lambda>i. \<lparr>cp_name = sf_name i, cp_doc = sf_doc i, cp_type = map_type_def (sf_type i)\<rparr>) inputs,
         cf_outputs = map map_type_def outputs\<rparr>]\<rparr>"
| "push_entry acc (UdtStructV0 n d fs) =
     acc \<lparr>sl_custom_types := sl_custom_types acc @ [map_udt_struct n d fs]\<rparr>"
| "push_entry acc (UdtUnionV0 n d cases) =
     acc \<lparr>sl_custom_types := sl_custom_types acc @ [map_udt_union n d cases]\<rparr>"
| "push_entry acc (UdtEnumV0 n d cases) =
     acc \<lparr>sl_custom_types := sl_custom_types acc @ [map_udt_enum n d cases]\<rparr>"
| "push_entry acc (UdtErrorEnumV0 n d cases) =
     acc \<lparr>sl_custom_types := sl_custom_types acc @ [map_udt_error_enum n d cases]\<rparr>"
| "push_entry acc (EventV0 n d topics params fmt) =
     acc \<lparr>sl_events := sl_events acc @ [map_event n d topics params fmt]\<rparr>"

definition decode_spec_section ::
  "wasm_tools \<Rightarrow> string \<Rightarrow> spec_lists \<Rightarrow> (spec_lists, wasm_error) result option" where
  "decode_spec_section T data acc =
     map_option (\<lambda>r. map_ok (foldl push_entry acc) (map_err SpecXdr r)) (read_entries (wt_read_entry T) data)"

definition decode_env_meta_section :: "wasm_tools \<Rightarrow> string \<Rightarrow> (env_meta_spec, wasm_error) result" where
  "decode_env_meta_section T data =
     (if length data \<noteq> 12 then Err (MetaXdr ''invalid'')
      else case wt_read_env_meta T data of
        Inl e \<Rightarrow> Err (MetaXdr e)
      | Inr (protocol, pre) \<Rightarrow> Ok \<lparr>em_protocol = protocol, em_pre_release = pre\<rparr>)"

definition decode_contract_meta ::
  "wasm_tools \<Rightarrow> string \<Rightarrow> ((string \<times> string) list, wasm_error) result option" where
  "decode_contract_meta T data = map_option (map_err MetaXdr) (read_entries (wt_read_meta T) data)"

record parse_state =
  ps_lists :: spec_lists
  ps_env_meta :: "env_meta_spec option"
  ps_saw_spec :: bool

definition parse_payload ::
  "wasm_tools \<Rightarrow> parse_state \<Rightarrow> wasm_payload \<Rightarrow> (parse_state, wasm_error) result option" where
  "parse_payload T st p =
     (case p of
        CustomSection n data \<Rightarrow>
          if n = ''contractspecv0'' then
            map_option (map_ok (\<lambda>ls. st \<lparr>ps_saw_spec := True, ps_lists := ls\<rparr>))
              (decode_spec_section T data (ps_lists st))
          else if n = ''contractenvmetav0'' then
            Some (map_ok (\<lambda>m. st \<lparr>ps_env_meta := Some m\<rparr>) (decode_env_meta_section T data))
          else Some (Ok st)
      | _ \<Rightarrow> Some (Ok st))"

text \<open>The loop over the payloads; \<open>None\<close> is a decoding loop that does not end.\<close>

fun payload_loop ::
  "('s \<Rightarrow> wasm_payload \<Rightarrow> ('s, wasm_error) result option) \<Rightarrow> 's \<Rightarrow> (string + wasm_payload) list \<Rightarrow>
   ('s, wasm_error) result option" where
  "payload_loop step st [] = Some (Ok st)"
| "payload_loop step st (Inl e # ps) = Some (Err (WasmParse e))"
| "payload_loop step st (Inr p # ps) =
     (case step st p of
        Some (Ok st') \<Rightarrow> payload_loop step st' ps
      | r \<Rightarrow> r)"

definition parse_contract_spec :: "wasm_tools \<Rightarrow> string \<Rightarrow> (contract_spec, wasm_error) result option" where
  "parse_contract_spec T raw =
     (if raw = [] then Some (Err WasmEmpty)
      else map_option (\<lambda>r. and_then r (\<lambda>st.
          if \<not> ps_saw_spec st then Err NoContractSpec
          else Ok \<lparr>cs_env_meta = ps_env_meta st, cs_functions = sl_functions (ps_lists st),
                  cs_custom_types = sl_custom_types (ps_lists st), cs_events = sl_events (ps_lists st)\<rparr>))
        (payload_loop (parse_payload T)
          \<lparr>ps_lists = \<lparr>sl_functions = [], sl_custom_types = [], sl_events = []\<rparr>, ps_env_meta = None,
           ps_saw_spec = False\<rparr> (wt_parse_all T raw)))"

section \<open>Module metadata\<close>

record wasm_metadata =
  md_hash :: string
  md_size_bytes :: nat
  md_version :: nat
  md_exports :: "(string \<times> string) list"
  md_imports :: "(string \<times> string \<times> string) list"
  md_custom_sections :: "string list"
  md_contract_meta :: "(string \<times> string) list"
  md_function_count :: nat
  md_memory :: "wasm_memory option"
  md_table_count :: nat
  md_global_count :: nat
  md_data_segment_count :: nat

text \<open>The items of a section up to the first that does not parse.\<close>

fun section_items :: "(string + 'i) list \<Rightarrow> ('i list, wasm_error) result" where
  "section_items [] = Ok []"
| "section_items (Inl e # is) = Err (WasmParse e)"
| "section_items (Inr i # is) = map_ok (\<lambda>l. i # l) (section_items is)"

fun metadata_payload :: "wasm_tools \<Rightarrow> wasm_metadata \<Rightarrow> wasm_payload \<Rightarrow> (wasm_metadata, wasm_error) result option" where
  "metadata_payload T m (Version v) = Some (Ok (m \<lparr>md_version := v\<rparr>))"
| "metadata_payload T m (ExportSection is) =
     Some (map_ok (\<lambda>l. m \<lparr>md_exports := md_exports m @ l\<rparr>) (section_items is))"
| "metadata_payload T m (ImportSection is) =
     Some (map_ok (\<lambda>l. m \<lparr>md_imports := md_imports m @ l\<rparr>) (section_items is))"
| "metadata_payload T m (CustomSection n data) =
     (if n = ''contractmetav0'' then
        map_option (map_ok (\<lambda>es. m \<lparr>md_contract_meta := md_contract_meta m @ es,
            md_custom_sections := md_custom_sections m @ [n]\<rparr>)) (decode_contract_meta T data)
      else Some (Ok (m \<lparr>md_custom_sections := md_custom_sections m @ [n]\<rparr>)))"
| "metadata_payload T m (FunctionSection c) = Some (Ok (m \<lparr>md_function_count := c\<rparr>))"
| "metadata_payload T m (MemorySection is) =
     Some (Ok (case is of Inr mem # _ \<Rightarrow> m \<lparr>md_memory := Some mem\<rparr> | _ \<Rightarrow> m))"
| "metadata_payload T m (TableSection c) = Some (Ok (m \<lparr>md_table_count := c\<rparr>))"
| "metadata_payload T m (GlobalSection c) = Some (Ok (m \<lparr>md_global_count := c\<rparr>))"
| "metadata_payload T m (DataSection c) = Some (Ok (m \<lparr>md_data_segment_count := c\<rparr>))"
| "metadata_payload T m OtherPayload = Some (Ok m)"

definition parse_metadata :: "wasm_tools \<Rightarrow> string \<Rightarrow> (wasm_metadata, wasm_error) result option" where
  "parse_metadata T bytes =
     (if bytes = [] then Some (Err WasmEmpty)
      else payload_loop (metadata_payload T)
        \<lparr>md_hash = wt_sha256_hex T bytes, md_size_bytes = length bytes, md_version = 1, md_exports = [],
         md_imports = [], md_custom_sections = [], md_contract_meta = [], md_function_count = 0,
         md_memory = None, md_table_count = 0, md_global_count = 0, md_data_segment_count = 0\<rparr>
        (wt_parse_all T bytes))"

section \<open>The decoding loops end\<close>

text \<open>What is relied on of an XDR reader: it consumes at least one byte and not more than there are.\<close>

definition reader_progress :: "(string \<Rightarrow> string + 'x \<times> nat) \<Rightarrow> bool" where
  "reader_progress read \<longleftrightarrow> (\<forall>items x n. read items = Inr (x, n) \<longrightarrow> 0 < n \<and> n \<le> length items)"

lemma read_entries_total:
  assumes "reader_progress read"
  shows "\<exists>r. read_entries read items = Some r \<and> r \<noteq> Panic"
proof (induction "length items" arbitrary: items rule: less_induct)
  case less
  show ?case
  proof (cases "items = []")
    case True
    then show ?thesis by (subst read_entries.simps) simp
  next
    case False
    show ?thesis
    proof (cases "read items")
      case (Inl e)
      with False show ?thesis by (subst read_entries.simps) simp
    next
      case (Inr en)
      obtain e n where en: "en = (e, n)" by (cases en)
      with assms Inr have n: "0 < n" "n \<le> length items" by (auto simp: reader_progress_def)
      with False have "length (drop n items) < length items" by simp
      then obtain r where "read_entries read (drop n items) = Some r" "r \<noteq> Panic" using less by blast
      with False Inr en n show ?thesis by (subst read_entries.simps) simp
    qed
  qed
qed

text \<open>
  The loops over the payloads return when the readers make progress: no malformed module makes
  \<open>parse_contract_spec\<close> or \<open>parse_metadata\<close> run forever or panic.
\<close>

lemma payload_loop_total:
  assumes "\<And>st p. \<exists>r. step st p = Some r \<and> r \<noteq> Panic"
  shows "\<exists>r. payload_loop step st ps = Some r \<and> r \<noteq> Panic"
proof (induction ps arbitrary: st)
  case (Cons p ps)
  show ?case
  proof (cases p)
    case (Inr q)
    obtain r where "step st q = Some r" "r \<noteq> Panic" using assms by blast
    with Inr Cons show ?thesis by (cases r) auto
  qed simp
qed simp

lemma section_items_no_panic: "section_items is \<noteq> Panic"
  by (induction "is" rule: section_items.induct) auto

lemma parse_payload_total:
  assumes "reader_progress (wt_read_entry T)"
  shows "\<exists>r. parse_payload T st p = Some r \<and> r \<noteq> Panic"
proof -
  have "\<exists>r. decode_spec_section T data acc = Some r \<and> r \<noteq> Panic" for data acc
    using read_entries_total [OF assms, of data] by (auto simp: decode_spec_section_def)
  moreover have "decode_env_meta_section T data \<noteq> Panic" for data
    by (simp add: decode_env_meta_section_def split: sum.splits)
  ultimately show ?thesis
    by (cases p) (fastforce simp: parse_payload_def)+
qed

lemma metadata_payload_total:
  assumes "reader_progress (wt_read_meta T)"
  shows "\<exists>r. metadata_payload T m p = Some r \<and> r \<noteq> Panic"
proof -
  have "\<exists>r. decode_contract_meta T data = Some r \<and> r \<noteq> Panic" for data
    using read_entries_total [OF assms, of data] by (auto simp: decode_contract_meta_def)
  then show ?thesis
    by (cases p) (fastforce simp: section_items_no_panic)+
qed

text \<open>
  Parsing a module always ends, without a panic, in an interface or an error, when the XDR
  readers consume at least one byte per entry and not more than there are.
\<close>

theorem parse_total:
  assumes "reader_progress (wt_read_entry T)" and "reader_progress (wt_read_meta T)"
  shows "(\<exists>r. parse_contract_spec T raw = Some r \<and> r \<noteq> Panic) \<and> (\<exists>r. parse_metadata T raw = Some r \<and> r \<noteq> Panic)"
proof
  obtain r where r: "payload_loop (parse_payload T)
      \<lparr>ps_lists = \<lparr>sl_functions = [], sl_custom_types = [], sl_events = []\<rparr>, ps_env_meta = None,
       ps_saw_spec = False\<rparr> (wt_parse_all T raw) = Some r" "r \<noteq> Panic"
    using payload_loop_total [of "parse_payload T", OF parse_payload_total [OF assms(1)]] by blast
  then show "\<exists>r. parse_contract_spec T raw = Some r \<and> r \<noteq> Panic"
    by (auto simp: parse_contract_spec_def and_then_Panic_iff)
  show "\<exists>r. parse_metadata T raw = Some r \<and> r \<noteq> Panic"
    using payload_loop_total [of "metadata_payload T", OF metadata_payload_total [OF assms(2)]]
    by (simp add: parse_metadata_def)
qed

section \<open>What is parsed is what was declared\<close>

text \<open>The reader undoes the encoding of the given entries, whatever follows them.\<close>

definition reads_back :: "(string \<Rightarrow> string + 'x \<times> nat) \<Rightarrow> ('x \<Rightarrow> string) \<Rightarrow> 'x list \<Rightarrow> bool" where
  "reads_back read enc es \<longleftrightarrow>
     (\<forall>e \<in> set es. enc e \<noteq> [] \<and> (\<forall>rest. read (enc e @ rest) = Inr (e, length (enc e))))"

lemma read_entries_roundtrip:
  assumes "reads_back read enc es"
  shows "read_entries read (concat (map enc es)) = Some (Ok es)"
  using assms
proof (induction es)
  case Nil
  show ?case by (subst read_entries.simps) simp
next
  case (Cons e es)
  have "enc e \<noteq> []" "read (enc e @ concat (map enc es)) = Inr (e, length (enc e))"
    using Cons.prems by (simp_all add: reads_back_def)
  moreover have "read_entries read (concat (map enc es)) = Some (Ok es)"
    using Cons by (simp add: reads_back_def)
  ultimately show ?case by (subst read_entries.simps) simp
qed

definition declared_functions :: "sc_spec_entry list \<Rightarrow> contract_function list" where
  "declared_functions es = concat (map (\<lambda>e. case e of FunctionV0 n d is os \<Rightarrow>
     [\<lparr>cf_name = n, cf_doc = d,
       cf_parameters = map (\<lambda>i. \<lparr>cp_name = sf_name i, cp_doc = sf_doc i, cp_type = map_type_def (sf_type i)\<rparr>) is,
       cf_outputs = map map_type_def os\<rparr>] | _ \<Rightarrow> []) es)"

definition declared_types :: "sc_spec_entry list \<Rightarrow> contract_type list" where
  "declared_types es = concat (map (\<lambda>e. case e of
       UdtStructV0 n d fs \<Rightarrow> [map_udt_struct n d fs] | UdtUnionV0 n d cs \<Rightarrow> [map_udt_union n d cs]
     | UdtEnumV0 n d cs \<Rightarrow> [map_udt_enum n d cs] | UdtErrorEnumV0 n d cs \<Rightarrow> [map_udt_error_enum n d cs]
     | _ \<Rightarrow> []) es)"

definition declared_events :: "sc_spec_entry list \<Rightarrow> contract_event list" where
  "declared_events es = concat (map (\<lambda>e. case e of
     EventV0 n d ts ps fmt \<Rightarrow> [map_event n d ts ps fmt] | _ \<Rightarrow> []) es)"

lemma push_entries:
  "foldl push_entry acc es =
     \<lparr>sl_functions = sl_functions acc @ declared_functions es,
      sl_custom_types = sl_custom_types acc @ declared_types es,
      sl_events = sl_events acc @ declared_events es\<rparr>"
proof (induction es arbitrary: acc)
  case (Cons e es)
  then show ?case by (cases e) (simp_all add: declared_functions_def declared_types_def declared_events_def)
qed (simp add: declared_functions_def declared_types_def declared_events_def)

definition plain_payload :: "wasm_payload \<Rightarrow> bool" where
  "plain_payload p \<longleftrightarrow> (\<forall>n d. p = CustomSection n d \<longrightarrow> n \<notin> {''contractspecv0'', ''contractenvmetav0''})"

lemma payload_loop_plain:
  assumes "\<forall>p \<in> set ps. plain_payload p"
  shows "payload_loop (parse_payload T) st (map Inr ps @ qs) = payload_loop (parse_payload T) st qs"
  using assms
proof (induction ps)
  case (Cons p ps)
  then have "parse_payload T st p = Some (Ok st)"
    by (cases p) (auto simp: parse_payload_def plain_payload_def)
  with Cons show ?case by simp
qed simp


section \<open>Witnesses\<close>

text \<open>Readers for a toy encoding: an entry is one byte, and only two entries are known.\<close>

definition toy_entry :: "char \<Rightarrow> sc_spec_entry" where
  "toy_entry c = (if c = CHR ''f'' then FunctionV0 ''transfer'' [] [\<lparr>sf_name = ''amount'', sf_doc = [], sf_type = TI128\<rparr>] []
     else EventV0 [c] [] [] [] FmtMap)"

definition toy_tools :: wasm_tools where
  "toy_tools =
     \<lparr>wt_parse_all = \<lambda>raw. [Inr (Version 1), Inr (CustomSection ''contractspecv0'' raw), Inr OtherPayload],
      wt_read_entry = \<lambda>s. case s of [] \<Rightarrow> Inl ''eof'' | c # _ \<Rightarrow> Inr (toy_entry c, 1),
      wt_read_env_meta = \<lambda>_. Inl ''eof'',
      wt_read_meta = \<lambda>s. case s of [] \<Rightarrow> Inl ''eof'' | c # _ \<Rightarrow> Inr (([c], []), 1),
      wt_sha256_hex = \<lambda>s. s\<rparr>"

lemma toy_progress: "reader_progress (wt_read_entry toy_tools)" "reader_progress (wt_read_meta toy_tools)"
  by (auto simp: reader_progress_def toy_tools_def split: list.splits)

theorem parse_total_witness:
  "(\<exists>r. parse_contract_spec toy_tools ''f!'' = Some r \<and> r \<noteq> Panic) \<and>
   (\<exists>r. parse_metadata toy_tools ''f!'' = Some r \<and> r \<noteq> Panic)"
  by (rule parse_total [OF toy_progress])

definition toy_enc :: "sc_spec_entry \<Rightarrow> string" where
  "toy_enc e = (case e of FunctionV0 _ _ _ _ \<Rightarrow> ''f'' | _ \<Rightarrow> ''!'')"


end
