(* ===== verification/Spec_Diff.thy ===== *)
theory Spec_Diff
  imports Contract_Spec "HOL-Library.Word"
begin

text \<open>
  The comparison of two contract interfaces, \<^verbatim>\<open>sdkt-wasm/src/spec_diff.rs\<close>: the classified deltas
  (\<open>diff_specs\<close>) and the upgrade verdict (\<open>from_diff\<close>). The percentage of the size change is a
  floating-point number for display and is left out; the byte delta is kept in 64-bit
  two's-complement arithmetic.
\<close>

section \<open>Comparing entries\<close>

fun type_ref_eq :: "contract_type \<Rightarrow> contract_type \<Rightarrow> bool"
and members_ref_eq :: "type_member list \<Rightarrow> type_member list \<Rightarrow> bool"
and member_types_eq :: "contract_type list \<Rightarrow> contract_type list \<Rightarrow> bool" where
  "type_ref_eq (ContractType n k d ms as b) (ContractType n' k' d' ms' as' b') =
     (if n \<noteq> n' \<or> k \<noteq> k' then False
      else if k = ''compound'' then members_ref_eq ms ms' else True)"
| "members_ref_eq [] [] = True"
| "members_ref_eq (TypeMember n d ts v # ms) (TypeMember n' d' ts' v' # ms') =
     (n = n' \<and> member_types_eq ts ts' \<and> members_ref_eq ms ms')"
| "members_ref_eq _ _ = False"
| "member_types_eq [] [] = True"
| "member_types_eq (t # ts) (t' # ts') = (type_ref_eq t t' \<and> member_types_eq ts ts')"
| "member_types_eq _ _ = False"

definition event_signature_eq :: "contract_event \<Rightarrow> contract_event \<Rightarrow> bool" where
  "event_signature_eq a b \<longleftrightarrow>
     ce_prefix_topics a = ce_prefix_topics b \<and> ce_data_format a = ce_data_format b \<and>
     length (ce_params a) = length (ce_params b) \<and>
     list_all (\<lambda>(x, y). ep_name x = ep_name y \<and> ep_location x = ep_location y \<and>
       type_ref_eq (ep_type x) (ep_type y)) (zip (ce_params a) (ce_params b))"

definition type_definition_eq :: "contract_type \<Rightarrow> contract_type \<Rightarrow> bool" where
  "type_definition_eq a b \<longleftrightarrow>
     ct_kind a = ct_kind b \<and> length (ct_members a) = length (ct_members b) \<and>
     list_all (\<lambda>(x, y). tm_name x = tm_name y \<and> tm_value x = tm_value y \<and>
       member_types_eq (tm_types x) (tm_types y)) (zip (ct_members a) (ct_members b))"

text \<open>Functions are compared by their parameters and outputs as they are, doc comments included.\<close>

definition function_signature_eq :: "contract_function \<Rightarrow> contract_function \<Rightarrow> bool" where
  "function_signature_eq a b \<longleftrightarrow> cf_parameters a = cf_parameters b \<and> cf_outputs a = cf_outputs b"

section \<open>The diff\<close>

record wasm_summary =
  ws_hash :: string
  ws_size_bytes :: nat

type_synonym 'a signature_change = "string \<times> 'a \<times> 'a"

record spec_diff =
  sd_old :: wasm_summary
  sd_new :: wasm_summary
  sd_added_functions :: "contract_function list"
  sd_removed_functions :: "contract_function list"
  sd_changed_functions :: "contract_function signature_change list"
  sd_added_events :: "string list"
  sd_removed_events :: "string list"
  sd_changed_events :: "contract_event signature_change list"
  sd_added_types :: "string list"
  sd_removed_types :: "string list"
  sd_changed_types :: "contract_type signature_change list"
  sd_size_delta_bytes :: int

definition is_identical :: "spec_diff \<Rightarrow> bool" where
  "is_identical d \<longleftrightarrow>
     sd_added_functions d = [] \<and> sd_removed_functions d = [] \<and> sd_changed_functions d = [] \<and>
     sd_added_events d = [] \<and> sd_removed_events d = [] \<and> sd_changed_events d = [] \<and>
     sd_added_types d = [] \<and> sd_removed_types d = [] \<and> sd_changed_types d = []"

definition total_changes :: "spec_diff \<Rightarrow> nat" where
  "total_changes d =
     length (sd_added_functions d) + length (sd_removed_functions d) + length (sd_changed_functions d) +
     length (sd_added_events d) + length (sd_removed_events d) + length (sd_changed_events d) +
     length (sd_added_types d) + length (sd_removed_types d) + length (sd_changed_types d)"

text \<open>\<^verbatim>\<open>new_bytes as i64 - old_bytes as i64\<close>\<close>

definition size_delta_bytes :: "nat \<Rightarrow> nat \<Rightarrow> int" where
  "size_delta_bytes old new = sint (word_of_nat new - word_of_nat old :: 64 word)"

definition by_name :: "('a \<Rightarrow> string) \<Rightarrow> 'a list \<Rightarrow> (string, 'a) btree_map" where
  "by_name name_of items = bt_collect (map (\<lambda>i. (name_of i, i)) items)"

definition diff_set :: "string list \<Rightarrow> string list \<Rightarrow> string list \<times> string list" where
  "diff_set old new =
     (let old_set = btree_set old; new_set = btree_set new
      in (filter (\<lambda>n. n \<notin> set old_set) new_set, filter (\<lambda>n. n \<notin> set new_set) old_set))"

text \<open>The loop that looks every new entry up among the old ones.\<close>

definition changed_entries ::
  "('a \<Rightarrow> 'a \<Rightarrow> bool) \<Rightarrow> (string, 'a) btree_map \<Rightarrow> (string, 'a) btree_map \<Rightarrow> 'a signature_change list" where
  "changed_entries eq old new =
     concat (map (\<lambda>(n, x). case bt_get old n of
        None \<Rightarrow> []
      | Some y \<Rightarrow> if eq y x then [] else [(n, y, x)]) new)"

definition diff_specs :: "contract_spec \<Rightarrow> contract_spec \<Rightarrow> wasm_summary \<Rightarrow> wasm_summary \<Rightarrow> spec_diff" where
  "diff_specs old new old_summary new_summary =
     (let old_fns = by_name cf_name (cs_functions old);
          new_fns = by_name cf_name (cs_functions new);
          (added_events, removed_events) = diff_set (map ce_name (cs_events old)) (map ce_name (cs_events new));
          (added_types, removed_types) =
             diff_set (map ct_name (cs_custom_types old)) (map ct_name (cs_custom_types new))
      in \<lparr>sd_old = old_summary, sd_new = new_summary,
          sd_added_functions = map snd (filter (\<lambda>(n, f). bt_get old_fns n = None) new_fns),
          sd_removed_functions = map snd (filter (\<lambda>(n, f). \<not> bt_contains_key new_fns n) old_fns),
          sd_changed_functions = changed_entries function_signature_eq old_fns new_fns,
          sd_added_events = added_events, sd_removed_events = removed_events,
          sd_changed_events = changed_entries event_signature_eq
            (by_name ce_name (cs_events old)) (by_name ce_name (cs_events new)),
          sd_added_types = added_types, sd_removed_types = removed_types,
          sd_changed_types = changed_entries type_definition_eq
            (by_name ct_name (cs_custom_types old)) (by_name ct_name (cs_custom_types new)),
          sd_size_delta_bytes = size_delta_bytes (ws_size_bytes old_summary) (ws_size_bytes new_summary)\<rparr>)"

definition summarize_wasm :: "wasm_tools \<Rightarrow> string \<Rightarrow> (wasm_summary, wasm_error) result option" where
  "summarize_wasm T raw =
     map_option (map_ok (\<lambda>m. \<lparr>ws_hash = md_hash m, ws_size_bytes = md_size_bytes m\<rparr>)) (parse_metadata T raw)"

definition opt_then ::
  "('a, 'e) result option \<Rightarrow> ('a \<Rightarrow> ('b, 'e) result option) \<Rightarrow> ('b, 'e) result option" where
  "opt_then m f =
     (case m of None \<Rightarrow> None | Some (Ok x) \<Rightarrow> f x | Some (Err e) \<Rightarrow> Some (Err e) | Some Panic \<Rightarrow> Some Panic)"

definition diff_wasm :: "wasm_tools \<Rightarrow> string \<Rightarrow> string \<Rightarrow> (spec_diff, wasm_error) result option" where
  "diff_wasm T old_raw new_raw =
     opt_then (parse_contract_spec T old_raw) (\<lambda>old_spec.
     opt_then (parse_contract_spec T new_raw) (\<lambda>new_spec.
     opt_then (summarize_wasm T old_raw) (\<lambda>old_summary.
     opt_then (summarize_wasm T new_raw) (\<lambda>new_summary.
       Some (Ok (diff_specs old_spec new_spec old_summary new_summary))))))"

section \<open>The verdict\<close>

datatype change_kind =
    RemovedFunction | ChangedSignature | RemovedEvent | RemovedType | AddedFunction | AddedEvent
  | AddedType | ChangedEvent | ChangedTypeDefinition

record verdict_change =
  vc_kind :: change_kind
  vc_name :: string
  vc_detail :: string

fun kind_label :: "change_kind \<Rightarrow> string" where
  "kind_label RemovedFunction = ''Removed function''"
| "kind_label ChangedSignature = ''Changed signature''"
| "kind_label RemovedEvent = ''Removed event''"
| "kind_label RemovedType = ''Removed type''"
| "kind_label AddedFunction = ''Added function''"
| "kind_label AddedEvent = ''Added event''"
| "kind_label AddedType = ''Added type''"
| "kind_label ChangedEvent = ''Changed event''"
| "kind_label ChangedTypeDefinition = ''Changed type definition''"

definition change_label :: "verdict_change \<Rightarrow> string" where
  "change_label c =
     (if vc_kind c \<in> {RemovedFunction, AddedFunction, ChangedSignature}
      then kind_label (vc_kind c) @ '': '' @ vc_name c @ ''()''
      else kind_label (vc_kind c) @ '': '' @ vc_name c)"

record upgrade_verdict =
  uv_compatible :: bool
  uv_breaking_changes :: "verdict_change list"
  uv_non_breaking_changes :: "verdict_change list"

definition sig_of :: "contract_function \<Rightarrow> string" where
  "sig_of f =
     cf_name f @ ''('' @ join_strs '', '' (map (\<lambda>p. ct_name (cp_type p)) (cf_parameters f)) @ '') -> ('' @
     join_strs '', '' (map ct_name (cf_outputs f)) @ '')''"

definition event_sig :: "contract_event \<Rightarrow> string" where
  "event_sig e =
     ce_name e @ ''('' @ join_strs '', ''
       (map (\<lambda>t. t @ '': symbol [prefix]'') (ce_prefix_topics e) @
        map (\<lambda>p. ep_name p @ '': '' @ ct_name (ep_type p) @ '' ['' @ ep_location p @ '']'') (ce_params e)) @
     '') -> '' @ ce_data_format e"

definition member_sig :: "type_member \<Rightarrow> string" where
  "member_sig m =
     (let types = map ct_name (tm_types m) in
      case tm_value m of
        None \<Rightarrow> tm_name m @ '': '' @
          (case types of [] \<Rightarrow> ''void'' | [t] \<Rightarrow> t | _ \<Rightarrow> ''('' @ join_strs '', '' types @ '')'')
      | Some v \<Rightarrow>
          if types = [] then tm_name m @ ''='' @ show_nat v
          else tm_name m @ ''='' @ show_nat v @ '': ('' @ join_strs '', '' types @ '')'')"

definition type_sig :: "contract_type \<Rightarrow> string" where
  "type_sig t =
     (if ct_members t = [] then ct_kind t @ '' '' @ ct_name t
      else ct_kind t @ '' '' @ ct_name t @ '' { '' @ join_strs '', '' (map member_sig (ct_members t)) @ '' }'')"

definition plain_change :: "change_kind \<Rightarrow> string \<Rightarrow> verdict_change" where
  "plain_change k n = \<lparr>vc_kind = k, vc_name = n, vc_detail = []\<rparr>"

definition detailed_change :: "change_kind \<Rightarrow> ('a \<Rightarrow> string) \<Rightarrow> 'a signature_change \<Rightarrow> verdict_change" where
  "detailed_change k sig = (\<lambda>(n, old, new).
     \<lparr>vc_kind = k, vc_name = n,
      vc_detail = ''old: '' @ sig old @ [CHR 0x0A] @ ''      new: '' @ sig new\<rparr>)"

definition from_diff :: "spec_diff \<Rightarrow> upgrade_verdict" where
  "from_diff d =
     (let breaking =
            map (\<lambda>f. plain_change RemovedFunction (cf_name f)) (sd_removed_functions d) @
            map (detailed_change ChangedSignature sig_of) (sd_changed_functions d) @
            map (plain_change RemovedEvent) (sd_removed_events d) @
            map (detailed_change ChangedEvent event_sig) (sd_changed_events d) @
            map (plain_change RemovedType) (sd_removed_types d) @
            map (detailed_change ChangedTypeDefinition type_sig) (sd_changed_types d);
          non_breaking =
            map (\<lambda>f. plain_change AddedFunction (cf_name f)) (sd_added_functions d) @
            map (plain_change AddedEvent) (sd_added_events d) @
            map (plain_change AddedType) (sd_added_types d)
      in \<lparr>uv_compatible = (breaking = []), uv_breaking_changes = breaking,
          uv_non_breaking_changes = non_breaking\<rparr>)"

definition default_summary :: wasm_summary where
  "default_summary = \<lparr>ws_hash = [], ws_size_bytes = 0\<rparr>"

definition upgrade_safety :: "contract_spec \<Rightarrow> contract_spec \<Rightarrow> upgrade_verdict" where
  "upgrade_safety old new = from_diff (diff_specs old new default_summary default_summary)"

definition upgrade_safety_wasm :: "wasm_tools \<Rightarrow> string \<Rightarrow> string \<Rightarrow> (upgrade_verdict, wasm_error) result option" where
  "upgrade_safety_wasm T old_raw new_raw = map_option (map_ok from_diff) (diff_wasm T old_raw new_raw)"

section \<open>What the comparisons see\<close>

text \<open>The comparisons are equalities of keys: a type without its doc comments, and without what
  \<open>type_ref_eq\<close> does not look at.\<close>

primrec type_key :: "contract_type \<Rightarrow> contract_type"
and member_key :: "type_member \<Rightarrow> type_member" where
  "type_key (ContractType n k d ms as b) =
     ContractType n k [] (if k = ''compound'' then map member_key ms else []) [] None"
| "member_key (TypeMember n d ts v) = TypeMember n [] (map type_key ts) None"

lemma type_ref_eq_key:
  "type_ref_eq t t' \<longleftrightarrow> type_key t = type_key t'"
  "members_ref_eq ms ms' \<longleftrightarrow> map member_key ms = map member_key ms'"
  "member_types_eq ts ts' \<longleftrightarrow> map type_key ts = map type_key ts'"
  by (induction t t' and ms ms' and ts ts' rule: type_ref_eq_members_ref_eq_member_types_eq.induct) auto

lemma zip_all_key:
  "length xs = length ys \<and> list_all (\<lambda>(x, y). f x = f y) (zip xs ys) \<longleftrightarrow> map f xs = map f ys"
proof (induction xs arbitrary: ys)
  case (Cons x xs)
  then show ?case by (cases ys) auto
qed simp

lemma map_eq_map_iff:
  "(\<And>x y. f x = f y \<longleftrightarrow> g x = g y) \<Longrightarrow> map f xs = map f ys \<longleftrightarrow> map g xs = map g ys"
  using zip_all_key [of xs ys f] zip_all_key [of xs ys g] by simp

definition function_key :: "contract_function \<Rightarrow> contract_parameter list \<times> contract_type list" where
  "function_key f = (cf_parameters f, cf_outputs f)"

definition event_key :: "contract_event \<Rightarrow> string list \<times> string \<times> (string \<times> string \<times> contract_type) list" where
  "event_key e = (ce_prefix_topics e, ce_data_format e,
     map (\<lambda>p. (ep_name p, ep_location p, type_key (ep_type p))) (ce_params e))"

definition definition_key :: "contract_type \<Rightarrow> string \<times> (string \<times> nat option \<times> contract_type list) list" where
  "definition_key t = (ct_kind t, map (\<lambda>m. (tm_name m, tm_value m, map type_key (tm_types m))) (ct_members t))"

lemma signature_eq_keys:
  "function_signature_eq f g \<longleftrightarrow> function_key f = function_key g"
  "event_signature_eq e e' \<longleftrightarrow> event_key e = event_key e'"
  "type_definition_eq t t' \<longleftrightarrow> definition_key t = definition_key t'"
proof -
  show "function_signature_eq f g \<longleftrightarrow> function_key f = function_key g"
    by (simp add: function_signature_eq_def function_key_def)
  show "event_signature_eq e e' \<longleftrightarrow> event_key e = event_key e'"
    using zip_all_key [of "ce_params e" "ce_params e'" "\<lambda>p. (ep_name p, ep_location p, type_key (ep_type p))"]
    by (simp add: event_signature_eq_def event_key_def type_ref_eq_key)
  show "type_definition_eq t t' \<longleftrightarrow> definition_key t = definition_key t'"
    using zip_all_key [of "ct_members t" "ct_members t'" "\<lambda>m. (tm_name m, tm_value m, map type_key (tm_types m))"]
    by (simp add: type_definition_eq_def definition_key_def type_ref_eq_key)
qed

lemma type_key_compound:
  "type_key (compound n args labels) =
     ContractType n ''compound'' [] (map (\<lambda>(ty, l). TypeMember l [] [type_key ty] None) (zip args labels)) [] None"
  by (auto simp: compound_def)

lemma zip_labels_inject:
  "length as = length ls \<Longrightarrow> length bs = length ls' \<Longrightarrow>
     map (\<lambda>(ty, l). TypeMember l [] [type_key ty] None) (zip as ls) =
     map (\<lambda>(ty, l). TypeMember l [] [type_key ty] None) (zip bs ls') \<longleftrightarrow>
     ls = ls' \<and> map type_key as = map type_key bs"
proof (induction as ls arbitrary: bs ls' rule: list_induct2)
  case Nil
  then show ?case by (cases bs; cases ls') auto
next
  case (Cons a as l ls)
  then show ?case by (cases bs; cases ls') auto
qed

lemma map_type_def_inject: "type_key (map_type_def a) = type_key (map_type_def b) \<Longrightarrow> a = b"
proof (induction a arbitrary: b)
  case (TTuple ts)
  then obtain us where b: "b = TTuple us"
    by (cases b) (simp_all add: Let_def type_key_compound primitive_def)
  with TTuple.prems have "map type_key (map map_type_def ts) = map type_key (map map_type_def us)"
    by (simp add: Let_def type_key_compound zip_labels_inject)
  then have "list_all2 (\<lambda>t u. type_key (map_type_def t) = type_key (map_type_def u)) ts us"
    by (simp add: list_all2_conv_all_nth list_eq_iff_nth_eq)
  then have "ts = us" using TTuple.IH
    by (induction ts us rule: list_all2_induct) auto
  with b show ?case by simp
next
  case (TOption t)
  then show ?case by (cases b) (simp_all add: Let_def type_key_compound primitive_def)
next
  case (TVec t)
  then show ?case by (cases b) (simp_all add: Let_def type_key_compound primitive_def)
next
  case (TResult t e)
  then show ?case by (cases b) (simp_all add: Let_def type_key_compound primitive_def)
next
  case (TMap t e)
  then show ?case by (cases b) (simp_all add: Let_def type_key_compound primitive_def)
qed (simp_all add: primitive_def, (case_tac b; simp add: primitive_def Let_def type_key_compound)+)

section \<open>What a verdict promises\<close>

text \<open>The entry a name stands for: the last one, which is the one the index keeps.\<close>

definition declared_as :: "('a \<Rightarrow> string) \<Rightarrow> 'a list \<Rightarrow> string \<Rightarrow> 'a option" where
  "declared_as name_of items n = find (\<lambda>i. name_of i = n) (rev items)"

definition keeps :: "('a \<Rightarrow> string) \<Rightarrow> ('a \<Rightarrow> 'a \<Rightarrow> bool) \<Rightarrow> 'a list \<Rightarrow> 'a list \<Rightarrow> bool" where
  "keeps name_of eq old new \<longleftrightarrow>
     (\<forall>n x. declared_as name_of old n = Some x \<longrightarrow>
        (\<exists>y. declared_as name_of new n = Some y \<and> eq x y))"

lemma by_name_get: "bt_get (by_name f xs) n = declared_as f xs n"
  unfolding by_name_def declared_as_def bt.lookup_collect by (simp add: rev_map map_of_find)

lemma by_name_mem: "(n, x) \<in> set (by_name f xs) \<longleftrightarrow> declared_as f xs n = Some x"
  using bt.in_entries_iff [OF bt.wf_collect] by (simp add: by_name_get [symmetric] by_name_def)

lemma declared_as_None: "declared_as f xs n = None \<longleftrightarrow> n \<notin> f ` set xs"
  by (auto simp: declared_as_def find_None_iff)

lemma names_subset:
  "f ` set xs \<subseteq> f ` set ys \<longleftrightarrow>
     (\<forall>n x. declared_as f xs n = Some x \<longrightarrow> (\<exists>y. declared_as f ys n = Some y))"
proof -
  have "f ` set xs \<subseteq> f ` set ys \<longleftrightarrow> (\<forall>n. declared_as f ys n = None \<longrightarrow> declared_as f xs n = None)"
    unfolding declared_as_None by blast
  also have "\<dots> \<longleftrightarrow> (\<forall>n x. declared_as f xs n = Some x \<longrightarrow> (\<exists>y. declared_as f ys n = Some y))"
  proof -
    have "(declared_as f ys n = None \<longrightarrow> declared_as f xs n = None) \<longleftrightarrow>
        (\<forall>x. declared_as f xs n = Some x \<longrightarrow> (\<exists>y. declared_as f ys n = Some y))" for n
      by (cases "declared_as f ys n"; cases "declared_as f xs n") simp_all
    then show ?thesis by simp
  qed
  finally show ?thesis .
qed

lemma all_by_name:
  "(\<forall>p\<in>set (by_name f xs). P p) \<longleftrightarrow> (\<forall>n x. declared_as f xs n = Some x \<longrightarrow> P (n, x))"
  using by_name_mem by fastforce

text \<open>The contract shared by the three kinds of entries: they have names, and their comparison is
  the equality of a key.\<close>

locale interface_kind =
  fixes name_of :: "'a \<Rightarrow> string" and key :: "'a \<Rightarrow> 'k" and eq :: "'a \<Rightarrow> 'a \<Rightarrow> bool"
  assumes eq_key: "eq x y \<longleftrightarrow> key x = key y"
begin

lemma keeps_refl: "keeps name_of eq xs xs"
  by (auto simp: keeps_def eq_key)

lemma keeps_trans: "keeps name_of eq xs ys \<Longrightarrow> keeps name_of eq ys zs \<Longrightarrow> keeps name_of eq xs zs"
  unfolding keeps_def eq_key by metis

lemma changed_Nil:
  "changed_entries eq (by_name name_of old) (by_name name_of new) = [] \<longleftrightarrow>
     (\<forall>n x y. declared_as name_of old n = Some x \<and> declared_as name_of new n = Some y \<longrightarrow> eq x y)"
proof -
  have "changed_entries eq (by_name name_of old) (by_name name_of new) = [] \<longleftrightarrow>
      (\<forall>p\<in>set (by_name name_of new). case declared_as name_of old (fst p) of
          None \<Rightarrow> True | Some x \<Rightarrow> eq x (snd p))"
    unfolding changed_entries_def concat_eq_Nil_conv by_name_get set_map ball_simps
    by (intro ball_cong refl) (auto simp: split_beta split: option.split)
  then show ?thesis unfolding all_by_name by (auto split: option.split)
qed

text \<open>Nothing removed and nothing changed is nothing lost.\<close>

lemma keeps_iff:
  "name_of ` set old \<subseteq> name_of ` set new \<and> changed_entries eq (by_name name_of old) (by_name name_of new) = [] \<longleftrightarrow>
     keeps name_of eq old new"
  unfolding changed_Nil keeps_def names_subset by fastforce

end

interpretation fns: interface_kind cf_name function_key function_signature_eq
  by unfold_locales (rule signature_eq_keys)

interpretation evs: interface_kind ce_name event_key event_signature_eq
  by unfold_locales (rule signature_eq_keys)

interpretation tys: interface_kind ct_name definition_key type_definition_eq
  by unfold_locales (rule signature_eq_keys)

lemma diff_set_Nil:
  "fst (diff_set old new) = [] \<longleftrightarrow> set new \<subseteq> set old" "snd (diff_set old new) = [] \<longleftrightarrow> set old \<subseteq> set new"
  by (auto simp: diff_set_def Let_def filter_empty_conv)

lemma diff_specs_fields:
  fixes old new :: contract_spec and so sn :: wasm_summary
  defines "d \<equiv> diff_specs old new so sn"
  shows "sd_removed_functions d = [] \<longleftrightarrow> cf_name ` set (cs_functions old) \<subseteq> cf_name ` set (cs_functions new)"
    "sd_added_functions d = [] \<longleftrightarrow> cf_name ` set (cs_functions new) \<subseteq> cf_name ` set (cs_functions old)"
    "sd_removed_events d = [] \<longleftrightarrow> ce_name ` set (cs_events old) \<subseteq> ce_name ` set (cs_events new)"
    "sd_added_events d = [] \<longleftrightarrow> ce_name ` set (cs_events new) \<subseteq> ce_name ` set (cs_events old)"
    "sd_removed_types d = [] \<longleftrightarrow> ct_name ` set (cs_custom_types old) \<subseteq> ct_name ` set (cs_custom_types new)"
    "sd_added_types d = [] \<longleftrightarrow> ct_name ` set (cs_custom_types new) \<subseteq> ct_name ` set (cs_custom_types old)"
    "sd_changed_functions d = changed_entries function_signature_eq (by_name cf_name (cs_functions old)) (by_name cf_name (cs_functions new))"
    "sd_changed_events d = changed_entries event_signature_eq (by_name ce_name (cs_events old)) (by_name ce_name (cs_events new))"
    "sd_changed_types d = changed_entries type_definition_eq (by_name ct_name (cs_custom_types old)) (by_name ct_name (cs_custom_types new))"
proof -
  have nothing: "filter (\<lambda>(n, f). declared_as cf_name bs n = None) (by_name cf_name as) = [] \<longleftrightarrow>
      cf_name ` set as \<subseteq> cf_name ` set bs" for as bs :: "contract_function list"
    unfolding filter_empty_conv all_by_name by (simp add: names_subset)
  have fs: "sd_removed_functions d = map snd (filter (\<lambda>(n, f). declared_as cf_name (cs_functions new) n = None)
        (by_name cf_name (cs_functions old)))"
    "sd_added_functions d = map snd (filter (\<lambda>(n, f). declared_as cf_name (cs_functions old) n = None)
        (by_name cf_name (cs_functions new)))"
    by (simp_all add: d_def diff_specs_def Let_def bt_contains_key_get by_name_get split_beta)
  show "sd_removed_functions d = [] \<longleftrightarrow> cf_name ` set (cs_functions old) \<subseteq> cf_name ` set (cs_functions new)"
    unfolding fs map_is_Nil_conv by (fact nothing)
  show "sd_added_functions d = [] \<longleftrightarrow> cf_name ` set (cs_functions new) \<subseteq> cf_name ` set (cs_functions old)"
    unfolding fs map_is_Nil_conv by (fact nothing)
qed (simp_all add: d_def diff_specs_def Let_def split_beta diff_set_Nil)

lemma compatible_iff_keeps:
  "uv_compatible (from_diff (diff_specs old new so sn)) \<longleftrightarrow>
     keeps cf_name function_signature_eq (cs_functions old) (cs_functions new) \<and>
     keeps ce_name event_signature_eq (cs_events old) (cs_events new) \<and>
     keeps ct_name type_definition_eq (cs_custom_types old) (cs_custom_types new)"
  unfolding fns.keeps_iff [symmetric] evs.keeps_iff [symmetric] tys.keeps_iff [symmetric]
  by (auto simp: from_diff_def Let_def diff_specs_fields)

text \<open>
  C5. The upgrade verdict is exact: it is compatible if and only if every function, event and type
  the old interface declares is declared by the new one under the same name with an equal
  signature or definition.
\<close>

theorem upgrade_compatible_iff:
  "uv_compatible (upgrade_safety old new) \<longleftrightarrow>
     keeps cf_name function_signature_eq (cs_functions old) (cs_functions new) \<and>
     keeps ce_name event_signature_eq (cs_events old) (cs_events new) \<and>
     keeps ct_name type_definition_eq (cs_custom_types old) (cs_custom_types new)"
  unfolding upgrade_safety_def by (rule compatible_iff_keeps)

text \<open>
  Compatibility composes: an interface is a compatible upgrade of itself, and when each of two
  successive upgrades is compatible, so is upgrading over both at once.
\<close>

theorem upgrade_compatible_preorder:
  "uv_compatible (upgrade_safety s s) \<and>
   (uv_compatible (upgrade_safety a b) \<and> uv_compatible (upgrade_safety b c) \<longrightarrow>
      uv_compatible (upgrade_safety a c))"
  unfolding upgrade_safety_def compatible_iff_keeps
  using fns.keeps_refl evs.keeps_refl tys.keeps_refl fns.keeps_trans evs.keeps_trans tys.keeps_trans
  by blast

text \<open>
  The diff is empty exactly when the two interfaces declare the same names and every common
  name has an equal signature or definition; then no change is counted, whatever the order of the
  declarations.
\<close>

theorem identical_iff:
  "(is_identical (diff_specs old new so sn) \<longleftrightarrow> total_changes (diff_specs old new so sn) = 0) \<and>
   (is_identical (diff_specs old new so sn) \<longleftrightarrow>
     uv_compatible (upgrade_safety old new) \<and>
     cf_name ` set (cs_functions new) \<subseteq> cf_name ` set (cs_functions old) \<and>
     ce_name ` set (cs_events new) \<subseteq> ce_name ` set (cs_events old) \<and>
     ct_name ` set (cs_custom_types new) \<subseteq> ct_name ` set (cs_custom_types old))"
  unfolding upgrade_safety_def
  by (auto simp: is_identical_def total_changes_def from_diff_def Let_def diff_specs_fields)


text \<open>
  Functions, unlike events and types, are compared together with their doc comments: two
  interfaces that differ only in the comment of one parameter are reported as a breaking change.
\<close>

theorem doc_comment_breaks_upgrade:
  "\<exists>old new. length (cs_functions old) = 1 \<and> length (cs_functions new) = 1 \<and>
     sig_of (hd (cs_functions old)) = sig_of (hd (cs_functions new)) \<and>
     map cp_type (cf_parameters (hd (cs_functions old))) = map cp_type (cf_parameters (hd (cs_functions new))) \<and>
     map cp_name (cf_parameters (hd (cs_functions old))) = map cp_name (cf_parameters (hd (cs_functions new))) \<and>
     cf_outputs (hd (cs_functions old)) = cf_outputs (hd (cs_functions new)) \<and>
     \<not> uv_compatible (upgrade_safety old new)"
proof -
  let ?spec = "\<lambda>d. \<lparr>cs_env_meta = None,
     cs_functions = [\<lparr>cf_name = ''pay'', cf_doc = [],
       cf_parameters = [\<lparr>cp_name = ''to'', cp_doc = d, cp_type = map_type_def TAddress\<rparr>], cf_outputs = []\<rparr>],
     cs_custom_types = [], cs_events = []\<rparr>"
  have "\<not> uv_compatible (upgrade_safety (?spec []) (?spec ''who is paid''))"
    unfolding upgrade_safety_def compatible_iff_keeps
    by (simp add: keeps_def declared_as_def function_signature_eq_def)
  then show ?thesis by (intro exI [of _ "?spec []"] exI [of _ "?spec ''who is paid''"]) (simp add: sig_of_def)
qed

text \<open>The byte delta does not wrap for the sizes a file can have.\<close>

lemma size_delta_exact:
  assumes "old < 2 ^ 63" and "new < 2 ^ 63"
  shows "size_delta_bytes old new = int new - int old"
proof -
  have "size_delta_bytes old new = sint (word_of_int (int new - int old) :: 64 word)"
    by (simp add: size_delta_bytes_def)
  also have "\<dots> = signed_take_bit 63 (int new - int old)" by (simp only: sint_sbintrunc') simp
  also have "\<dots> = int new - int old"
    using assms by (intro signed_take_bit_int_eq_self) simp_all
  finally show ?thesis .
qed

theorem upgrade_compatible_preorder_witness:
  "uv_compatible (upgrade_safety
     \<lparr>cs_env_meta = None, cs_functions = [], cs_custom_types = [], cs_events = []\<rparr>
     \<lparr>cs_env_meta = None, cs_functions = [], cs_custom_types = [], cs_events = []\<rparr>)"
  using upgrade_compatible_preorder by blast

end
