(* ===== verification/Network_Profile.thy ===== *)
theory Network_Profile
  imports Rust_Std "HOL-Library.Word"
begin

text \<open>
  Network profiles, \<^verbatim>\<open>sdkt-fuzz/src/network_profile.rs\<close> and \<^verbatim>\<open>profile_bridge.rs\<close>: what was observed of a
  network (identity, protocol, ledger, configuration), how complete it is, whether a stored profile
  is valid, and the hash that identifies it. SHA-256 and the protocol of the pinned host are
  parameters; strings and byte arrays are lists of bytes.
\<close>

section \<open>Observed values\<close>

datatype param_source = LiveConfigSetting | LiveRpcMetadata | Derived | Snapshot | Unavailable

record provenance =
  pv_source :: param_source
  pv_observed_at_ledger :: "32 word option"

definition live_config :: "32 word \<Rightarrow> provenance" where
  "live_config ledger = \<lparr>pv_source = LiveConfigSetting, pv_observed_at_ledger = Some ledger\<rparr>"

definition provenance_unavailable :: provenance where
  "provenance_unavailable = \<lparr>pv_source = Unavailable, pv_observed_at_ledger = None\<rparr>"

record 'a observed =
  ob_value :: "'a option"
  ob_provenance :: provenance

definition observed_live :: "'a \<Rightarrow> 32 word \<Rightarrow> 'a observed" where
  "observed_live v ledger = \<lparr>ob_value = Some v, ob_provenance = live_config ledger\<rparr>"

definition observed_unavailable :: "'a observed" where
  "observed_unavailable = \<lparr>ob_value = None, ob_provenance = provenance_unavailable\<rparr>"

definition is_available :: "'a observed \<Rightarrow> bool" where
  "is_available x = (ob_value x \<noteq> None)"

record cost_param_entry_snapshot =
  ce_cost_type :: string
  ce_index :: "32 word"
  ce_const_term :: "64 word"
  ce_linear_term :: "64 word"

record cost_params_snapshot =
  cp_cpu :: "cost_param_entry_snapshot list"
  cp_mem :: "cost_param_entry_snapshot list"

definition entry_count :: "cost_params_snapshot \<Rightarrow> nat" where
  "entry_count p = min (length (cp_cpu p)) (length (cp_mem p))"

definition is_malformed :: "cost_params_snapshot \<Rightarrow> bool" where
  "is_malformed p = (length (cp_cpu p) \<noteq> length (cp_mem p))"

record network_config_snapshot =
  nc_cpu_limit :: "64 word observed"
  nc_mem_limit :: "64 word observed"
  nc_ledger_max_instructions :: "64 word observed"
  nc_fee_rate_per_instructions_increment :: "64 word observed"
  nc_max_contract_size_bytes :: "32 word observed"
  nc_tx_max_size_bytes :: "32 word observed"
  nc_tx_max_contract_events_size_bytes :: "32 word observed"
  nc_fee_contract_events_1kb :: "64 word observed"
  nc_cost_params :: "cost_params_snapshot observed"

definition default_network_config_snapshot :: network_config_snapshot where
  "default_network_config_snapshot =
     \<lparr>nc_cpu_limit = observed_unavailable, nc_mem_limit = observed_unavailable,
      nc_ledger_max_instructions = observed_unavailable,
      nc_fee_rate_per_instructions_increment = observed_unavailable,
      nc_max_contract_size_bytes = observed_unavailable, nc_tx_max_size_bytes = observed_unavailable,
      nc_tx_max_contract_events_size_bytes = observed_unavailable,
      nc_fee_contract_events_1kb = observed_unavailable, nc_cost_params = observed_unavailable\<rparr>"

section \<open>Profiles\<close>

datatype profile_status = Complete | Incomplete | HostUnsupported

definition is_complete_execution_ready :: "profile_status \<Rightarrow> bool" where
  "is_complete_execution_ready s = (s = Complete)"

fun profile_status_str :: "profile_status \<Rightarrow> string" where
  "profile_status_str Complete = ''COMPLETE''"
| "profile_status_str Incomplete = ''INCOMPLETE''"
| "profile_status_str HostUnsupported = ''HOST_UNSUPPORTED''"

record network_profile =
  np_schema_version :: "32 word"
  np_network_name :: string
  np_passphrase :: string
  np_network_id :: string
  np_protocol_version :: "32 word"
  np_ledger_sequence :: "32 word"
  np_source_endpoint :: string
  np_captured_at_unix :: "64 word"
  np_config :: network_config_snapshot

datatype profile_error =
    SchemaMismatch "32 word" "32 word"
  | NetworkIdMismatch string string
  | Stale "32 word" "32 word" nat
  | MalformedCostParams nat nat
  | CostTypeMapping string
  | StatusContradiction "32 word" "32 word"
  | MissingParameter string
  | UnknownNetwork string

fun profile_error_display :: "profile_error \<Rightarrow> string" where
  "profile_error_display (SchemaMismatch found expected) =
     ''snapshot schema_version '' @ show_nat (unat found) @ '' != '' @ show_nat (unat expected)"
| "profile_error_display (NetworkIdMismatch _ _) = ''network_id does not match SHA-256(passphrase)''"
| "profile_error_display (Stale captured current max_age) =
     ''snapshot captured at ledger '' @ show_nat (unat captured) @ '' is '' @ show_nat (unat current) @
     '' behind (max age '' @ show_nat max_age @ '')''"
| "profile_error_display (MalformedCostParams cpu mem) =
     ''cost params length mismatch: cpu='' @ show_nat cpu @ '' mem='' @ show_nat mem"
| "profile_error_display (CostTypeMapping m) = ''cost type mapping: '' @ m"
| "profile_error_display (StatusContradiction protocol host_max) =
     ''profile protocol '' @ show_nat (unat protocol) @ '' exceeds host max '' @ show_nat (unat host_max) @
     '', yet is marked complete''"
| "profile_error_display (MissingParameter p) = ''missing parameter: '' @ p"
| "profile_error_display (UnknownNetwork p) = ''unknown network passphrase: '' @ p"

definition PROFILE_SCHEMA_VERSION :: "32 word" where
  "PROFILE_SCHEMA_VERSION = 1"

definition MAX_SNAPSHOT_AGE_LEDGERS :: nat where
  "MAX_SNAPSHOT_AGE_LEDGERS = 100"

definition network_id_from_passphrase :: "(string \<Rightarrow> string) \<Rightarrow> string \<Rightarrow> string" where
  "network_id_from_passphrase sha passphrase = sha passphrase"

definition network_name_for_passphrase :: "string \<Rightarrow> string option" where
  "network_name_for_passphrase passphrase =
     (if passphrase = ''Public Global Stellar Network ; September 2015'' then Some ''mainnet''
      else if passphrase = ''Test SDF Network ; September 2015'' then Some ''testnet''
      else if passphrase = ''Test SDF Future Network ; October 2022'' then Some ''futurenet''
      else None)"

definition network_profile_new ::
  "(string \<Rightarrow> string) \<Rightarrow> string \<Rightarrow> 32 word \<Rightarrow> 32 word \<Rightarrow> string \<Rightarrow> 64 word \<Rightarrow> network_config_snapshot \<Rightarrow>
   network_profile" where
  "network_profile_new sha passphrase protocol_version ledger_sequence source_endpoint captured_at_unix config =
     \<lparr>np_schema_version = PROFILE_SCHEMA_VERSION,
      np_network_name = unwrap_or ''custom'' (network_name_for_passphrase passphrase),
      np_passphrase = passphrase,
      np_network_id = network_id_from_passphrase sha passphrase,
      np_protocol_version = protocol_version, np_ledger_sequence = ledger_sequence,
      np_source_endpoint = source_endpoint, np_captured_at_unix = captured_at_unix, np_config = config\<rparr>"

definition has_complete_configuration :: "network_profile \<Rightarrow> bool" where
  "has_complete_configuration p =
     (let c = np_config p;
          basic = is_available (nc_cpu_limit c) \<and> is_available (nc_mem_limit c) \<and>
            is_available (nc_ledger_max_instructions c) \<and> is_available (nc_max_contract_size_bytes c) \<and>
            is_available (nc_tx_max_size_bytes c) \<and> is_available (nc_cost_params c);
          params_ok = unwrap_or False
            (map_option (\<lambda>p. \<not> is_malformed p \<and> cp_cpu p \<noteq> []) (ob_value (nc_cost_params c)))
      in basic \<and> params_ok)"

definition profile_status_of :: "32 word \<Rightarrow> network_profile \<Rightarrow> profile_status" where
  "profile_status_of host_protocol p =
     (if np_protocol_version p > host_protocol then HostUnsupported
      else if \<not> has_complete_configuration p then Incomplete
      else Complete)"

definition check_cost_entry ::
  "unit \<Rightarrow> nat \<times> cost_param_entry_snapshot \<times> cost_param_entry_snapshot \<Rightarrow> (unit, profile_error) result" where
  "check_cost_entry u = (\<lambda>(i, c, m).
     if unat (ce_index c) \<noteq> i \<or> unat (ce_index m) \<noteq> i then
       Err (CostTypeMapping (''entry '' @ show_nat i @ '' declares index cpu='' @ show_nat (unat (ce_index c)) @
         '' mem='' @ show_nat (unat (ce_index m))))
     else if ce_cost_type c \<noteq> ce_cost_type m then
       Err (CostTypeMapping (''entry '' @ show_nat i @ '': cpu type `'' @ ce_cost_type c @
         ''` != mem type `'' @ ce_cost_type m @ ''`''))
     else Ok ())"

definition check_cost_params :: "cost_params_snapshot \<Rightarrow> (unit, profile_error) result" where
  "check_cost_params p =
     (if is_malformed p then Err (MalformedCostParams (length (cp_cpu p)) (length (cp_mem p)))
      else try_fold check_cost_entry () (enumerate 0 (zip (cp_cpu p) (cp_mem p))))"

definition check_currency :: "network_profile \<Rightarrow> 32 word \<Rightarrow> (unit, profile_error) result" where
  "check_currency p current =
     (let age = unat current - unat (np_ledger_sequence p) in
      if current > np_ledger_sequence p \<and> age > MAX_SNAPSHOT_AGE_LEDGERS then
        Err (Stale (np_ledger_sequence p) current MAX_SNAPSHOT_AGE_LEDGERS)
      else if np_ledger_sequence p > current then
        Err (Stale (np_ledger_sequence p) current MAX_SNAPSHOT_AGE_LEDGERS)
      else Ok ())"

definition validate ::
  "(string \<Rightarrow> string) \<Rightarrow> network_profile \<Rightarrow> 32 word option \<Rightarrow> (unit, profile_error) result" where
  "validate sha p current_ledger =
     (if np_schema_version p \<noteq> PROFILE_SCHEMA_VERSION then
        Err (SchemaMismatch (np_schema_version p) PROFILE_SCHEMA_VERSION)
      else
        let expected = network_id_from_passphrase sha (np_passphrase p) in
        if expected \<noteq> np_network_id p then Err (NetworkIdMismatch expected (np_network_id p))
        else
          and_then (case ob_value (nc_cost_params (np_config p)) of
                      Some params \<Rightarrow> check_cost_params params
                    | None \<Rightarrow> Ok ()) (\<lambda>_.
            case current_ledger of Some current \<Rightarrow> check_currency p current | None \<Rightarrow> Ok ()))"

section \<open>The content hash\<close>

text \<open>\<^verbatim>\<open>to_be_bytes\<close> of an integer of \<open>n\<close> bytes.\<close>

fun be_bytes :: "nat \<Rightarrow> nat \<Rightarrow> string" where
  "be_bytes 0 k = []"
| "be_bytes (Suc n) k = be_bytes n (k div 256) @ [char_of k]"

definition u32_bytes :: "32 word \<Rightarrow> string" where
  "u32_bytes w = be_bytes 4 (unat w)"

definition u64_bytes :: "64 word \<Rightarrow> string" where
  "u64_bytes w = be_bytes 8 (unat w)"

definition feed :: "('a \<Rightarrow> string) \<Rightarrow> 'a observed \<Rightarrow> string" where
  "feed bytes x = (case ob_value x of Some v \<Rightarrow> CHR 0x01 # bytes v | None \<Rightarrow> [CHR 0x00])"

definition feed_cost_entry :: "cost_param_entry_snapshot \<times> cost_param_entry_snapshot \<Rightarrow> string" where
  "feed_cost_entry = (\<lambda>(c, m).
     u32_bytes (ce_index c) @ ce_cost_type c @ u64_bytes (ce_const_term c) @ u64_bytes (ce_linear_term c) @
     u64_bytes (ce_const_term m) @ u64_bytes (ce_linear_term m))"

definition feed_cost_params :: "cost_params_snapshot observed \<Rightarrow> string" where
  "feed_cost_params x =
     (case ob_value x of
        Some p \<Rightarrow> CHR 0x01 # be_bytes 8 (length (cp_cpu p)) @
          concat (map feed_cost_entry (zip (cp_cpu p) (cp_mem p)))
      | None \<Rightarrow> [CHR 0x00])"

definition content_preimage :: "network_profile \<Rightarrow> string" where
  "content_preimage p =
     (let cfg = np_config p in
      ''sdkt-fuzz-network-profile-v1'' @ u32_bytes (np_schema_version p) @ np_network_id p @
      u32_bytes (np_protocol_version p) @ u32_bytes (np_ledger_sequence p) @ np_passphrase p @ [CHR 0x00] @
      feed u64_bytes (nc_cpu_limit cfg) @ feed u64_bytes (nc_mem_limit cfg) @
      feed u64_bytes (nc_ledger_max_instructions cfg) @
      feed u64_bytes (nc_fee_rate_per_instructions_increment cfg) @
      feed u32_bytes (nc_max_contract_size_bytes cfg) @ feed u32_bytes (nc_tx_max_size_bytes cfg) @
      feed u32_bytes (nc_tx_max_contract_events_size_bytes cfg) @
      feed u64_bytes (nc_fee_contract_events_1kb cfg) @ feed_cost_params (nc_cost_params cfg))"

definition content_hash :: "(string \<Rightarrow> string) \<Rightarrow> network_profile \<Rightarrow> string" where
  "content_hash sha p = sha (content_preimage p)"

definition config_ledger :: "network_profile \<Rightarrow> 32 word option" where
  "config_ledger p = pv_observed_at_ledger (ob_provenance (nc_cpu_limit (np_config p)))"

definition cost_type_table :: "network_profile \<Rightarrow> (string, 64 word \<times> 64 word) btree_map" where
  "cost_type_table p =
     (case ob_value (nc_cost_params (np_config p)) of
        Some params \<Rightarrow>
          bt_collect (map (\<lambda>e. (ce_cost_type e, ce_const_term e, ce_linear_term e)) (cp_cpu params))
      | None \<Rightarrow> [])"

section \<open>Profiles from a capture\<close>

record capture_input =
  ci_passphrase :: string
  ci_protocol_version :: "32 word"
  ci_ledger_sequence :: "32 word"
  ci_source_endpoint :: string
  ci_captured_at_unix :: "64 word"
  ci_cpu_limit :: "(64 word \<times> 32 word) option"
  ci_mem_limit :: "(64 word \<times> 32 word) option"
  ci_ledger_max_instructions :: "(64 word \<times> 32 word) option"
  ci_fee_rate_per_instructions_increment :: "(64 word \<times> 32 word) option"
  ci_max_contract_size_bytes :: "(32 word \<times> 32 word) option"
  ci_tx_max_size_bytes :: "(32 word \<times> 32 word) option"
  ci_tx_max_contract_events_size_bytes :: "(32 word \<times> 32 word) option"
  ci_fee_contract_events_1kb :: "(64 word \<times> 32 word) option"
  ci_cpu_cost_params :: "cost_param_entry_snapshot list option"
  ci_mem_cost_params :: "cost_param_entry_snapshot list option"
  ci_cost_params_observed_at :: "32 word option"

definition capture_obs :: "('a \<times> 32 word) option \<Rightarrow> 'a observed" where
  "capture_obs v = (case v of Some (x, ledger) \<Rightarrow> observed_live x ledger | None \<Rightarrow> observed_unavailable)"

definition profile_from_capture :: "(string \<Rightarrow> string) \<Rightarrow> capture_input \<Rightarrow> network_profile" where
  "profile_from_capture sha x =
     (let cost_params =
            (case (ci_cpu_cost_params x, ci_mem_cost_params x, ci_cost_params_observed_at x) of
               (Some cpu, Some mem, Some ledger) \<Rightarrow> observed_live \<lparr>cp_cpu = cpu, cp_mem = mem\<rparr> ledger
             | _ \<Rightarrow> observed_unavailable);
          config =
            \<lparr>nc_cpu_limit = capture_obs (ci_cpu_limit x), nc_mem_limit = capture_obs (ci_mem_limit x),
             nc_ledger_max_instructions = capture_obs (ci_ledger_max_instructions x),
             nc_fee_rate_per_instructions_increment = capture_obs (ci_fee_rate_per_instructions_increment x),
             nc_max_contract_size_bytes = capture_obs (ci_max_contract_size_bytes x),
             nc_tx_max_size_bytes = capture_obs (ci_tx_max_size_bytes x),
             nc_tx_max_contract_events_size_bytes = capture_obs (ci_tx_max_contract_events_size_bytes x),
             nc_fee_contract_events_1kb = capture_obs (ci_fee_contract_events_1kb x),
             nc_cost_params = cost_params\<rparr>
      in network_profile_new sha (ci_passphrase x) (ci_protocol_version x) (ci_ledger_sequence x)
           (ci_source_endpoint x) (ci_captured_at_unix x) config)"

section \<open>Prefix codes\<close>

text \<open>
  A byte encoding that can be read back from the front of a byte string. Encodings of this kind
  compose: the hash input of a profile is a sequence of them.
\<close>

locale prefix_code =
  fixes enc :: "'a \<Rightarrow> string"
  assumes decodable: "enc x @ r = enc y @ s \<Longrightarrow> x = y \<and> r = s"
begin

lemma enc_append: "enc x @ r = enc y @ s \<longleftrightarrow> x = y \<and> r = s"
  using decodable by blast

lemma feed_append: "feed enc x @ r = feed enc y @ s \<longleftrightarrow> ob_value x = ob_value y \<and> r = s"
  by (auto simp: feed_def enc_append split: option.splits)

end

lemma length_be_bytes [simp]: "length (be_bytes n k) = n"
  by (induction n arbitrary: k) simp_all

lemma be_bytes_eq_iff: "be_bytes n a = be_bytes n b \<longleftrightarrow> a mod 256 ^ n = b mod 256 ^ n"
proof (induction n arbitrary: a b)
  case (Suc n)
  have split: "x mod 256 ^ Suc n = 256 * (x div 256 mod 256 ^ n) + x mod 256" for x :: nat
    by (simp add: mod_mult2_eq)
  have digits: "256 * c + d = 256 * c' + d' \<longleftrightarrow> c = c' \<and> d = d'" if "d < 256" "d' < 256" for c d c' d' :: nat
    using that by (cases c c' rule: linorder_cases) auto
  have "(char_of a :: char) = char_of b \<longleftrightarrow> a mod 256 = b mod 256"
    by (metis char_of_mod_256 of_char_of)
  then show ?case unfolding split by (subst digits) (auto simp: Suc.IH)
qed simp

lemma be_bytes_append:
  assumes "a < 256 ^ n" "b < 256 ^ n"
  shows "be_bytes n a @ r = be_bytes n b @ s \<longleftrightarrow> a = b \<and> r = s"
  using assms by (simp add: be_bytes_eq_iff)

interpretation u32: prefix_code u32_bytes
proof
  fix x y :: "32 word" and r s
  assume "u32_bytes x @ r = u32_bytes y @ s"
  moreover have "unat w < 256 ^ 4" for w :: "32 word" using unsigned_less [of w, where 'a = nat] by simp
  ultimately have "unat x = unat y \<and> r = s"
    unfolding u32_bytes_def by (subst (asm) be_bytes_append) simp_all
  then show "x = y \<and> r = s" by (auto intro: unsigned_word_eqI)
qed

interpretation u64: prefix_code u64_bytes
proof
  fix x y :: "64 word" and r s
  assume "u64_bytes x @ r = u64_bytes y @ s"
  moreover have "unat w < 256 ^ 8" for w :: "64 word" using unsigned_less [of w, where 'a = nat] by simp
  ultimately have "unat x = unat y \<and> r = s"
    unfolding u64_bytes_def by (subst (asm) be_bytes_append) simp_all
  then show "x = y \<and> r = s" by (auto intro: unsigned_word_eqI)
qed

lemma terminated_append:
  assumes "c \<notin> set xs" "c \<notin> set ys"
  shows "xs @ c # r = ys @ c # s \<longleftrightarrow> xs = ys \<and> r = s"
  using assms
proof (induction xs arbitrary: ys)
  case Nil
  then show ?case by (cases ys) auto
next
  case (Cons x xs)
  then show ?case by (cases ys) auto
qed

section \<open>The hash identifies the profile\<close>

text \<open>
  What a replay depends on: identity, protocol, ledger and every observed value, without where and
  when they were captured.
\<close>

definition config_values :: "network_config_snapshot \<Rightarrow>
  64 word option list \<times> 32 word option list \<times> cost_params_snapshot option" where
  "config_values c =
     ([ob_value (nc_cpu_limit c), ob_value (nc_mem_limit c), ob_value (nc_ledger_max_instructions c),
       ob_value (nc_fee_rate_per_instructions_increment c), ob_value (nc_fee_contract_events_1kb c)],
      [ob_value (nc_max_contract_size_bytes c), ob_value (nc_tx_max_size_bytes c),
       ob_value (nc_tx_max_contract_events_size_bytes c)],
      ob_value (nc_cost_params c))"

definition same_network_state :: "network_profile \<Rightarrow> network_profile \<Rightarrow> bool" where
  "same_network_state p q \<longleftrightarrow>
     np_schema_version p = np_schema_version q \<and> np_network_id p = np_network_id q \<and>
     np_protocol_version p = np_protocol_version q \<and> np_ledger_sequence p = np_ledger_sequence q \<and>
     np_passphrase p = np_passphrase q \<and> config_values (np_config p) = config_values (np_config q)"

text \<open>The cost types of a table are those of the host, in its order.\<close>

definition host_named :: "string list \<Rightarrow> network_profile \<Rightarrow> bool" where
  "host_named names p \<longleftrightarrow>
     (case ob_value (nc_cost_params (np_config p)) of
        None \<Rightarrow> True
      | Some params \<Rightarrow> length (cp_cpu params) \<le> length names \<and>
          map ce_cost_type (cp_cpu params) = take (length (cp_cpu params)) names)"

lemma check_cost_entry_Ok:
  "check_cost_entry u (i, c, m) = Ok v \<longleftrightarrow>
     unat (ce_index c) = i \<and> unat (ce_index m) = i \<and> ce_cost_type c = ce_cost_type m"
  by (auto simp: check_cost_entry_def)

lemma check_cost_params_Ok:
  "check_cost_params p = Ok u \<longleftrightarrow> length (cp_mem p) = length (cp_cpu p) \<and>
     (\<forall>i < length (cp_cpu p). unat (ce_index (cp_cpu p ! i)) = i \<and> unat (ce_index (cp_mem p ! i)) = i \<and>
        ce_cost_type (cp_cpu p ! i) = ce_cost_type (cp_mem p ! i))"
proof -
  have fold: "try_fold check_cost_entry () (enumerate n xs) = Ok () \<longleftrightarrow>
      (\<forall>i < length xs. check_cost_entry () (n + i, xs ! i) = Ok ())" for n xs
  proof (induction xs arbitrary: n)
    case (Cons x xs)
    show ?case using all_nth_Cons [of x xs "\<lambda>i y. check_cost_entry () (i, y) = Ok ()" n] Cons.IH by simp
  qed simp
  show ?thesis unfolding check_cost_params_def using fold [of 0 "zip (cp_cpu p) (cp_mem p)"]
    by (auto simp: is_malformed_def check_cost_entry_Ok)
qed

lemma feed_entries_decodable:
  assumes "length cs = length ms" "length ms = length cs'" "length cs' = length ms'"
    and "map ce_cost_type cs = map ce_cost_type cs'"
    and "map ce_cost_type ms = map ce_cost_type cs" "map ce_cost_type ms' = map ce_cost_type cs'"
    and "map ce_index ms = map ce_index cs" "map ce_index ms' = map ce_index cs'"
    and "concat (map feed_cost_entry (zip cs ms)) @ r = concat (map feed_cost_entry (zip cs' ms')) @ s"
  shows "cs = cs' \<and> ms = ms' \<and> r = s"
  using assms
proof (induction cs ms cs' ms' rule: list_induct4)
  case (Cons c cs m ms c' cs' m' ms')
  then have "ce_index c = ce_index c'" "ce_const_term c = ce_const_term c'" "ce_linear_term c = ce_linear_term c'"
    "ce_const_term m = ce_const_term m'" "ce_linear_term m = ce_linear_term m'"
    "concat (map feed_cost_entry (zip cs ms)) @ r = concat (map feed_cost_entry (zip cs' ms')) @ s"
    by (simp_all add: feed_cost_entry_def u32.enc_append u64.enc_append)
  with Cons show ?case by (simp add: cost_param_entry_snapshot.equality)
qed simp

lemma feed_cost_params_decodable:
  assumes p: "ob_value x = Some a \<Longrightarrow> check_cost_params a = Ok ()" "ob_value y = Some b \<Longrightarrow> check_cost_params b = Ok ()"
    and names: "ob_value x = Some a \<Longrightarrow> length (cp_cpu a) \<le> length names \<and>
        map ce_cost_type (cp_cpu a) = take (length (cp_cpu a)) names"
      "ob_value y = Some b \<Longrightarrow> length (cp_cpu b) \<le> length names \<and>
        map ce_cost_type (cp_cpu b) = take (length (cp_cpu b)) names"
    and size: "length names < 2 ^ 31"
    and xy: "ob_value x = Some a" "ob_value y = Some b" and eq: "feed_cost_params x = feed_cost_params y"
  shows "a = b"
proof -
  have len: "length (cp_cpu a) = length (cp_cpu b)"
    and body: "concat (map feed_cost_entry (zip (cp_cpu a) (cp_mem a))) =
        concat (map feed_cost_entry (zip (cp_cpu b) (cp_mem b)))"
    using eq xy names size
    by (auto simp: feed_cost_params_def be_bytes_eq_iff)
  have tables: "length (cp_mem t) = length (cp_cpu t)" "map ce_cost_type (cp_mem t) = map ce_cost_type (cp_cpu t)"
    "map ce_index (cp_mem t) = map ce_index (cp_cpu t)" if "check_cost_params t = Ok ()" for t
    using that by (auto simp: check_cost_params_Ok word_unat_eq_iff intro!: nth_equalityI)
  note ta = tables [OF p(1) [OF xy(1)]] and tb = tables [OF p(2) [OF xy(2)]]
  have "map ce_cost_type (cp_cpu a) = map ce_cost_type (cp_cpu b)" using names xy len by simp
  then have "cp_cpu a = cp_cpu b \<and> cp_mem a = cp_mem b \<and> ([]::string) = []"
    using ta tb len body by (intro feed_entries_decodable) simp_all
  then show ?thesis by (simp add: cost_params_snapshot.equality)
qed

text \<open>
  C19. The content hash identifies the observed network state. For valid profiles whose cost types are
  the host's, two hashes agree exactly when the profiles agree in everything a replay depends on, or
  when SHA-256 collides on their two encodings. Where and when a profile was captured does not matter.
\<close>

theorem content_hash_identifies:
  assumes sha: "\<And>x. length (sha x) = 32"
    and valid: "validate sha p None = Ok ()" "validate sha q None = Ok ()"
    and named: "host_named names p" "host_named names q" "length names < 2 ^ 31"
    and nul: "CHR 0x00 \<notin> set (np_passphrase p)" "CHR 0x00 \<notin> set (np_passphrase q)"
  shows "content_hash sha p = content_hash sha q \<longleftrightarrow>
    same_network_state p q \<or>
    (content_preimage p \<noteq> content_preimage q \<and> sha (content_preimage p) = sha (content_preimage q))"
proof -
  have ids: "np_network_id p = sha (np_passphrase p)" "np_network_id q = sha (np_passphrase q)"
    using valid by (auto simp: validate_def network_id_from_passphrase_def Let_def split: if_splits)
  have checked: "ob_value (nc_cost_params (np_config p)) = Some a \<Longrightarrow> check_cost_params a = Ok ()"
    "ob_value (nc_cost_params (np_config q)) = Some b \<Longrightarrow> check_cost_params b = Ok ()" for a b
    using valid by (auto simp: validate_def Let_def split: if_splits)
  have costs: "feed_cost_params (nc_cost_params (np_config p)) = feed_cost_params (nc_cost_params (np_config q)) \<longleftrightarrow>
      ob_value (nc_cost_params (np_config p)) = ob_value (nc_cost_params (np_config q))"
  proof (cases "ob_value (nc_cost_params (np_config p))"; cases "ob_value (nc_cost_params (np_config q))")
    fix a b
    assume ab: "ob_value (nc_cost_params (np_config p)) = Some a" "ob_value (nc_cost_params (np_config q)) = Some b"
    then show ?thesis
      using feed_cost_params_decodable [of "nc_cost_params (np_config p)" a "nc_cost_params (np_config q)" b names]
        checked named by (auto simp: host_named_def feed_cost_params_def)
  qed (auto simp: feed_cost_params_def)
  have "content_preimage p = content_preimage q \<longleftrightarrow> same_network_state p q"
    using nul sha
    by (auto simp: content_preimage_def same_network_state_def config_values_def Let_def ids u32.enc_append
        u32.feed_append u64.feed_append terminated_append costs)
  then show ?thesis by (auto simp: content_hash_def)
qed

text \<open>
  Without the host's names the encoding is ambiguous: a cost type is fed without its length, so bytes
  can move between the names of two entries.
\<close>

definition zero_block :: string where
  "zero_block = replicate 35 (CHR 0x00) @ [CHR 0x01]"

definition shifted_table :: "string \<Rightarrow> string \<Rightarrow> cost_params_snapshot" where
  "shifted_table a b =
     (let es = [\<lparr>ce_cost_type = a, ce_index = 0, ce_const_term = 0, ce_linear_term = 0\<rparr>,
                \<lparr>ce_cost_type = b, ce_index = 1, ce_const_term = 0, ce_linear_term = 0\<rparr>]
      in \<lparr>cp_cpu = es, cp_mem = es\<rparr>)"

definition shifted_profile :: "(string \<Rightarrow> string) \<Rightarrow> string \<Rightarrow> string \<Rightarrow> network_profile" where
  "shifted_profile sha a b = network_profile_new sha ''net'' 22 1000 ''rpc'' 0
     (default_network_config_snapshot \<lparr>nc_cost_params := observed_live (shifted_table a b) 1000\<rparr>)"

lemma shifted_valid: "validate sha (shifted_profile sha a b) None = Ok ()"
  by (simp add: validate_def shifted_profile_def network_profile_new_def observed_live_def
      check_cost_params_def is_malformed_def shifted_table_def check_cost_entry_def Let_def)

lemma be_bytes_0: "be_bytes n 0 = replicate n CHR 0x00"
proof (induction n)
  case (Suc n)
  have "(char_of (0::nat) :: char) = CHR 0x00" by (simp add: char_of_def)
  with Suc show ?case by (simp add: replicate_append_same)
qed simp

lemma u64_bytes_0: "u64_bytes 0 = replicate 8 CHR 0x00"
  by (simp add: u64_bytes_def be_bytes_0)

lemma u32_bytes_1: "u32_bytes 1 = replicate 3 CHR 0x00 @ [CHR 0x01]"
proof -
  have "be_bytes (Suc 3) 1 = replicate 3 CHR 0x00 @ [CHR 0x01]"
    unfolding be_bytes.simps by (simp add: be_bytes_0 char_of_def bit_0)
  then show ?thesis by (simp add: u32_bytes_def)
qed

lemma content_preimage_ambiguous:
  "content_preimage (shifted_profile sha ''A'' (zero_block @ ''B'')) =
     content_preimage (shifted_profile sha (''A'' @ zero_block) ''B'')"
  "\<not> same_network_state (shifted_profile sha ''A'' (zero_block @ ''B'')) (shifted_profile sha (''A'' @ zero_block) ''B'')"
proof -
  have "zero_block @ zero_block @ x = u64_bytes 0 @ u64_bytes 0 @ u64_bytes 0 @ u64_bytes 0 @ u32_bytes 1 @ zero_block @ x" for x
    by (simp add: zero_block_def u64_bytes_0 u32_bytes_1 flip: replicate_add append_assoc)
  then show "content_preimage (shifted_profile sha ''A'' (zero_block @ ''B'')) =
     content_preimage (shifted_profile sha (''A'' @ zero_block) ''B'')"
    by (simp add: content_preimage_def shifted_profile_def network_profile_new_def observed_live_def shifted_table_def
        feed_cost_params_def feed_cost_entry_def Let_def)
  show "\<not> same_network_state (shifted_profile sha ''A'' (zero_block @ ''B'')) (shifted_profile sha (''A'' @ zero_block) ''B'')"
    by (simp add: same_network_state_def config_values_def shifted_profile_def network_profile_new_def
        observed_live_def shifted_table_def zero_block_def Let_def)
qed

theorem content_hash_identifies_witness:
  "content_hash (\<lambda>x. replicate 32 CHR ''h'') (shifted_profile (\<lambda>x. replicate 32 CHR ''h'') ''WasmInsnExec'' ''MemAlloc'') =
   content_hash (\<lambda>x. replicate 32 CHR ''h'')
     ((shifted_profile (\<lambda>x. replicate 32 CHR ''h'') ''WasmInsnExec'' ''MemAlloc'') \<lparr>np_source_endpoint := ''other''\<rparr>)"
proof -
  let ?sha = "\<lambda>x :: string. replicate 32 CHR ''h''"
  let ?p = "shifted_profile ?sha ''WasmInsnExec'' ''MemAlloc''"
  let ?q = "?p \<lparr>np_source_endpoint := ''other''\<rparr>"
  have valid: "validate ?sha ?p None = Ok ()" "validate ?sha ?q None = Ok ()"
    using shifted_valid [of ?sha "''WasmInsnExec''" "''MemAlloc''"] by (simp_all add: validate_def Let_def cong: if_cong)
  have named: "host_named [''WasmInsnExec'', ''MemAlloc''] ?p" "host_named [''WasmInsnExec'', ''MemAlloc''] ?q"
    by (simp_all add: host_named_def shifted_profile_def network_profile_new_def observed_live_def shifted_table_def Let_def)
  have nul: "CHR 0x00 \<notin> set (np_passphrase ?p)" "CHR 0x00 \<notin> set (np_passphrase ?q)"
    by (simp_all add: shifted_profile_def network_profile_new_def)
  have "same_network_state ?p ?q" by (simp add: same_network_state_def)
  with content_hash_identifies [of ?sha, OF _ valid named _ nul] show ?thesis by simp
qed

end
