(* ===== verification/Fuzz_Budget.thy ===== *)
theory Fuzz_Budget
  imports Network_Profile
begin

text \<open>
  Execution environments of \<^verbatim>\<open>sdkt-fuzz\<close>: the error types (\<^verbatim>\<open>error.rs\<close>), the campaign configuration
  (\<^verbatim>\<open>config.rs\<close>), the protocol-initial cost tables (\<^verbatim>\<open>network_cost.rs\<close>) and the budget plans of
  \<^verbatim>\<open>environment.rs\<close>. What the pinned Soroban host knows of cost types, and which budgets it accepts, is
  the parameter \<open>budget_host\<close>; a host budget is described by the arguments it is built from.
\<close>

section \<open>Errors\<close>

datatype setup_error =
    SetupWasm string
  | BaselineEntry string
  | AuthStepLengthMismatch nat nat

datatype fuzz_error =
    InvalidConfig string
  | InvalidSetup setup_error
  | HostConstruction string
  | Execution string
  | ObservationFailed string
  | InvalidArtifact string

fun setup_error_display :: "setup_error \<Rightarrow> string" where
  "setup_error_display (SetupWasm e) = ''wasm rejected: '' @ e"
| "setup_error_display (BaselineEntry e) = ''baseline ledger entry rejected: '' @ e"
| "setup_error_display (AuthStepLengthMismatch auth_len steps) =
     ''auth_per_step length '' @ show_nat auth_len @ '' does not match '' @ show_nat steps @
     '' steps (expected 0 or '' @ show_nat steps @ '')''"

fun fuzz_error_display :: "fuzz_error \<Rightarrow> string" where
  "fuzz_error_display (InvalidConfig e) = ''invalid fuzz configuration: '' @ e"
| "fuzz_error_display (InvalidSetup e) = ''invalid WASM or baseline setup: '' @ setup_error_display e"
| "fuzz_error_display (HostConstruction e) = ''host construction failed: '' @ e"
| "fuzz_error_display (Execution e) = ''execution failed: '' @ e"
| "fuzz_error_display (ObservationFailed e) = ''observation failed: '' @ e"
| "fuzz_error_display (InvalidArtifact e) = ''invalid artifact: '' @ e"

definition sum_result :: "('e \<Rightarrow> 'f) \<Rightarrow> 'e + 'a \<Rightarrow> ('a, 'f) result" where
  "sum_result f r = (case r of Inl e \<Rightarrow> Err (f e) | Inr x \<Rightarrow> Ok x)"

lemma sum_result_iffs [simp]:
  "sum_result f r = Ok x \<longleftrightarrow> r = Inr x"
  "sum_result f r = Err e \<longleftrightarrow> (\<exists>m. r = Inl m \<and> e = f m)"
  "sum_result f r \<noteq> Panic"
  by (auto simp: sum_result_def split: sum.splits)

section \<open>Configuration\<close>

record ledger_config =
  lg_sequence_number :: "32 word"
  lg_timestamp :: "64 word"

definition default_ledger_config :: ledger_config where
  "default_ledger_config = \<lparr>lg_sequence_number = 1000000, lg_timestamp = 0\<rparr>"

record budget_config =
  bc_cpu_limit :: "64 word option"
  bc_mem_limit :: "64 word option"

record fuzz_config =
  cfg_seed :: string
  cfg_network_id :: string
  cfg_ledger :: ledger_config
  cfg_budget :: budget_config

definition default_fuzz_config :: fuzz_config where
  "default_fuzz_config =
     \<lparr>cfg_seed = ''sdkt-fuzz-phase1-default-seed!!!'', cfg_network_id = replicate 32 (char_of (5::nat)),
      cfg_ledger = default_ledger_config, cfg_budget = \<lparr>bc_cpu_limit = None, bc_mem_limit = None\<rparr>\<rparr>"

definition BASELINE_TTL_WINDOW :: "32 word" where
  "BASELINE_TTL_WINDOW = 1000000"

definition config_validate :: "fuzz_config \<Rightarrow> (unit, fuzz_error) result" where
  "config_validate config =
     (let seq = lg_sequence_number (cfg_ledger config) in
      if seq > - 1 - BASELINE_TTL_WINDOW then
        Err (InvalidConfig (''ledger sequence_number '' @ show_nat (unat seq) @
          '' leaves no room for the baseline TTL window''))
      else if bc_cpu_limit (cfg_budget config) \<noteq> None \<or> bc_mem_limit (cfg_budget config) \<noteq> None then
        Err (InvalidConfig (''custom budget limits require the network cost-parameter table; '' @
          ''Phase 1 only supports the default budget''))
      else Ok ())"

text \<open>\<^verbatim>\<open>u32::saturating_add\<close>\<close>

definition saturating_add :: "32 word \<Rightarrow> 32 word \<Rightarrow> 32 word" where
  "saturating_add a b = (if unat a + unat b \<ge> 2 ^ 32 then - 1 else a + b)"

section \<open>Cost tables\<close>

record budget_host =
  bh_protocol :: "32 word"
  bh_cost_types :: "string list"
  bh_cost_params :: "(64 word \<times> 64 word) list \<Rightarrow> string + unit"
  bh_try_from_configs ::
    "64 word \<Rightarrow> 64 word \<Rightarrow> (64 word \<times> 64 word) list \<Rightarrow> (64 word \<times> 64 word) list \<Rightarrow> string + unit"

datatype host_budget =
    DefaultBudget
  | ConfiguredBudget "64 word" "64 word" "(64 word \<times> 64 word) list" "(64 word \<times> 64 word) list"

definition NETWORK_CPU_LIMIT :: "64 word" where
  "NETWORK_CPU_LIMIT = 2500000"

definition NETWORK_MEM_LIMIT :: "64 word" where
  "NETWORK_MEM_LIMIT = 2000000"

definition V20_CPU :: "(64 word \<times> 64 word) list" where
  "V20_CPU = [(4, 0), (434, 16), (42, 16), (44, 16), (310, 0), (61, 0), (230, 29), (59052, 4001), (3738, 7012),
     (40253, 0), (377524, 4068), (451626, 45405), (451626, 45405), (1948, 0), (3766, 5969), (710, 0), (2315295, 0),
     (4404, 0), (4947, 0), (4911, 0), (4286, 0), (913, 0), (1058, 501)]"

definition V20_MEM :: "(64 word \<times> 64 word) list" where
  "V20_MEM = [(0, 0), (16, 128), (0, 0), (0, 0), (0, 0), (0, 0), (242, 384), (0, 384), (0, 0), (0, 0), (0, 0),
     (130065, 5064), (130065, 5064), (14, 0), (0, 0), (0, 0), (181, 0), (99, 0), (99, 0), (99, 0), (99, 0), (99, 0),
     (0, 0)]"

definition v20_cost_types :: "string list" where
  "v20_cost_types = [''WasmInsnExec'', ''MemAlloc'', ''MemCpy'', ''MemCmp'', ''DispatchHostFunction'',
     ''VisitObject'', ''ValSer'', ''ValDeser'', ''ComputeSha256Hash'', ''ComputeEd25519PubKey'',
     ''VerifyEd25519Sig'', ''VmInstantiation'', ''VmCachedInstantiation'', ''InvokeVmFunction'',
     ''ComputeKeccak256Hash'', ''DecodeEcdsaCurve256Sig'', ''RecoverEcdsaSecp256k1Key'', ''Int256AddSub'',
     ''Int256Mul'', ''Int256Div'', ''Int256Pow'', ''Int256Shift'', ''ChaCha20DrawBytes'']"

text \<open>\<^verbatim>\<open>ContractCostType::try_from\<close>, by the name of the variant.\<close>

definition cost_type_at :: "budget_host \<Rightarrow> nat \<Rightarrow> string option" where
  "cost_type_at H i = (if i < length (bh_cost_types H) then Some (bh_cost_types H ! i) else None)"

definition invalid_cost_type :: "nat \<Rightarrow> string" where
  "invalid_cost_type i = ''cost type index '' @ show_nat i @ '' is not a valid ContractCostType''"

definition push_table_entry ::
  "budget_host \<Rightarrow> (64 word \<times> 64 word) list \<Rightarrow> nat \<times> 64 word \<times> 64 word \<Rightarrow>
   ((64 word \<times> 64 word) list, string) result" where
  "push_table_entry H entries = (\<lambda>(i, const_term, linear_term).
     and_then (ok_or (invalid_cost_type i) (cost_type_at H i)) (\<lambda>cost_type.
     and_then (unwrap (if i < length v20_cost_types then Some (v20_cost_types ! i) else None)) (\<lambda>expected.
       if cost_type \<noteq> expected then
         Err (''cost type order mismatch at index '' @ show_nat i @ '': expected '' @ expected @
           '', got '' @ cost_type)
       else Ok (entries @ [(const_term, linear_term)]))))"

definition params_from_table ::
  "budget_host \<Rightarrow> (64 word \<times> 64 word) list \<Rightarrow> ((64 word \<times> 64 word) list, string) result" where
  "params_from_table H table =
     and_then (try_fold (push_table_entry H) [] (enumerate 0 table)) (\<lambda>entries.
     and_then (sum_result (\<lambda>e. ''cost params conversion: '' @ e) (bh_cost_params H entries)) (\<lambda>_.
       Ok entries))"

definition network_cpu_cost_params :: "budget_host \<Rightarrow> ((64 word \<times> 64 word) list, string) result" where
  "network_cpu_cost_params H = params_from_table H V20_CPU"

definition network_mem_cost_params :: "budget_host \<Rightarrow> ((64 word \<times> 64 word) list, string) result" where
  "network_mem_cost_params H = params_from_table H V20_MEM"

section \<open>Budget plans\<close>

record budget_coverage =
  cov_profile_status :: profile_status
  cov_covered_cost_types :: nat
  cov_host_cost_types :: nat
  cov_complete :: bool

definition coverage_for_profile :: "budget_host \<Rightarrow> network_profile \<Rightarrow> nat \<Rightarrow> budget_coverage" where
  "coverage_for_profile H profile host_cost_types =
     (let covered = unwrap_or 0 (map_option entry_count (ob_value (nc_cost_params (np_config profile))));
          st = profile_status_of (bh_protocol H) profile
      in \<lparr>cov_profile_status = st, cov_covered_cost_types = covered, cov_host_cost_types = host_cost_types,
          cov_complete = (st = Complete \<and> covered \<ge> host_cost_types)\<rparr>)"

definition coverage_str :: "budget_coverage \<Rightarrow> string" where
  "coverage_str c =
     (if cov_complete c then ''COMPLETE''
      else if cov_profile_status c = HostUnsupported then ''HOST_UNSUPPORTED''
      else if cov_covered_cost_types c < cov_host_cost_types c then ''INCOMPLETE''
      else ''UNSUPPORTED'')"

definition host_cost_type_count :: "budget_host \<Rightarrow> nat" where
  "host_cost_type_count H = length (bh_cost_types H)"

definition push_snapshot_entry ::
  "budget_host \<Rightarrow> (64 word \<times> 64 word) list \<Rightarrow> nat \<times> cost_param_entry_snapshot \<Rightarrow>
   ((64 word \<times> 64 word) list, fuzz_error) result" where
  "push_snapshot_entry H entries = (\<lambda>(i, e).
     if unat (ce_index e) \<noteq> i then
       Err (InvalidConfig (''profile cost params: entry '' @ show_nat i @ '' declares index '' @
         show_nat (unat (ce_index e))))
     else
       and_then (ok_or (InvalidConfig (invalid_cost_type i)) (cost_type_at H i)) (\<lambda>cost_type.
         if cost_type \<noteq> ce_cost_type e then
           Err (InvalidConfig (''profile cost params: index '' @ show_nat i @ '' is `'' @ cost_type @
             ''` on the host but `'' @ ce_cost_type e @ ''` in the profile''))
         else Ok (entries @ [(ce_const_term e, ce_linear_term e)])))"

definition cost_params_from_snapshot ::
  "budget_host \<Rightarrow> cost_param_entry_snapshot list \<Rightarrow> cost_param_entry_snapshot list \<Rightarrow> bool \<Rightarrow>
   ((64 word \<times> 64 word) list, fuzz_error) result" where
  "cost_params_from_snapshot H cpu mem for_cpu =
     (let dim = (if for_cpu then cpu else mem) in
      and_then (try_fold (push_snapshot_entry H) [] (enumerate 0 dim)) (\<lambda>entries.
      and_then (sum_result (\<lambda>e. InvalidConfig (''profile cost params: '' @ e)) (bh_cost_params H entries)) (\<lambda>_.
        Ok entries)))"

datatype budget_plan =
    BudgetDefault
  | Capped "64 word" "64 word"
  | ProtocolInitial
  | NetworkFaithful network_profile budget_coverage

definition network_faithful_plan :: "budget_host \<Rightarrow> network_profile \<Rightarrow> budget_plan" where
  "network_faithful_plan H profile =
     NetworkFaithful profile (coverage_for_profile H profile (host_cost_type_count H))"

record environment =
  env_ledger :: ledger_config
  env_budget :: budget_plan

definition default_environment :: environment where
  "default_environment = \<lparr>env_ledger = default_ledger_config, env_budget = BudgetDefault\<rparr>"

definition environment_from_config :: "fuzz_config \<Rightarrow> environment" where
  "environment_from_config config = \<lparr>env_ledger = cfg_ledger config, env_budget = BudgetDefault\<rparr>"

record ledger_info =
  li_protocol_version :: "32 word"
  li_sequence_number :: "32 word"
  li_timestamp :: "64 word"
  li_network_id :: string
  li_base_reserve :: "32 word"
  li_min_temp_entry_ttl :: "32 word"
  li_min_persistent_entry_ttl :: "32 word"
  li_max_entry_ttl :: "32 word"

definition ledger_info_of :: "budget_host \<Rightarrow> environment \<Rightarrow> string \<Rightarrow> ledger_info" where
  "ledger_info_of H env network_id =
     \<lparr>li_protocol_version = bh_protocol H, li_sequence_number = lg_sequence_number (env_ledger env),
      li_timestamp = lg_timestamp (env_ledger env), li_network_id = network_id, li_base_reserve = 5000000,
      li_min_temp_entry_ttl = 16, li_min_persistent_entry_ttl = 100000, li_max_entry_ttl = 10000000\<rparr>"

text \<open>\<^verbatim>\<open>Budget::try_from_configs\<close>, with the message the caller puts in front of the host's.\<close>

definition try_from_configs ::
  "budget_host \<Rightarrow> string \<Rightarrow> 64 word \<Rightarrow> 64 word \<Rightarrow> (64 word \<times> 64 word) list \<Rightarrow> (64 word \<times> 64 word) list \<Rightarrow>
   (host_budget, fuzz_error) result" where
  "try_from_configs H what cpu mem cpu_params mem_params =
     and_then (sum_result (\<lambda>e. InvalidConfig (what @ '': '' @ e)) (bh_try_from_configs H cpu mem cpu_params mem_params))
       (\<lambda>_. Ok (ConfiguredBudget cpu mem cpu_params mem_params))"

definition network_budget ::
  "budget_host \<Rightarrow> network_profile \<Rightarrow> budget_coverage \<Rightarrow> (host_budget, fuzz_error) result" where
  "network_budget H profile coverage =
     (if \<not> cov_complete coverage then
        Err (InvalidConfig (''NetworkFaithful budget unavailable: '' @ coverage_str coverage @ '' (profile '' @
          profile_status_str (cov_profile_status coverage) @ '', covered '' @
          show_nat (cov_covered_cost_types coverage) @ ''/'' @ show_nat (cov_host_cost_types coverage) @
          '' cost types)''))
      else
        and_then (ok_or (InvalidConfig ''NetworkFaithful budget: profile has no cost params'')
                    (ob_value (nc_cost_params (np_config profile)))) (\<lambda>params.
        and_then (ok_or (InvalidConfig ''NetworkFaithful budget: profile has no CPU limit'')
                    (ob_value (nc_cpu_limit (np_config profile)))) (\<lambda>cpu.
        and_then (ok_or (InvalidConfig ''NetworkFaithful budget: profile has no memory limit'')
                    (ob_value (nc_mem_limit (np_config profile)))) (\<lambda>mem.
        and_then (cost_params_from_snapshot H (cp_cpu params) (cp_mem params) True) (\<lambda>cpu_params.
        and_then (cost_params_from_snapshot H (cp_cpu params) (cp_mem params) False) (\<lambda>mem_params.
          try_from_configs H ''network-faithful budget'' cpu mem cpu_params mem_params))))))"

definition make_budget :: "budget_host \<Rightarrow> environment \<Rightarrow> (host_budget, fuzz_error) result" where
  "make_budget H env =
     (case env_budget env of
        BudgetDefault \<Rightarrow> Ok DefaultBudget
      | Capped cpu mem \<Rightarrow>
          and_then (sum_result (\<lambda>e. InvalidConfig (''cost params: '' @ e)) (bh_cost_params H [(1, 0)])) (\<lambda>_.
            try_from_configs H ''budget'' cpu mem [(1, 0)] [(1, 0)])
      | ProtocolInitial \<Rightarrow>
          and_then (map_err (\<lambda>e. InvalidConfig (''network cpu cost params: '' @ e)) (network_cpu_cost_params H))
            (\<lambda>cpu_params.
          and_then (map_err (\<lambda>e. InvalidConfig (''network mem cost params: '' @ e)) (network_mem_cost_params H))
            (\<lambda>mem_params.
            try_from_configs H ''protocol-initial budget'' NETWORK_CPU_LIMIT NETWORK_MEM_LIMIT cpu_params mem_params))
      | NetworkFaithful profile coverage \<Rightarrow> network_budget H profile coverage)"

definition environment_validate :: "environment \<Rightarrow> fuzz_config \<Rightarrow> (unit, fuzz_error) result" where
  "environment_validate env config =
     and_then (config_validate config) (\<lambda>_.
       let seq = lg_sequence_number (env_ledger env) in
       if seq > - 1 - BASELINE_TTL_WINDOW then
         Err (InvalidConfig (''environment ledger sequence_number '' @ show_nat (unat seq) @
           '' leaves no room for the baseline TTL window''))
       else Ok ())"

definition baseline_live_until :: "environment \<Rightarrow> 32 word" where
  "baseline_live_until env = saturating_add (lg_sequence_number (env_ledger env)) BASELINE_TTL_WINDOW"

section \<open>The baseline stays live\<close>

lemma validated_live_until:
  assumes "environment_validate env config = Ok ()"
  shows "unat (baseline_live_until env) = unat (lg_sequence_number (env_ledger env)) + 1000000"
proof -
  from assms have "lg_sequence_number (env_ledger env) \<le> - 1 - BASELINE_TTL_WINDOW"
    by (auto simp: environment_validate_def Let_def not_less split: if_splits)
  then have "unat (lg_sequence_number (env_ledger env)) \<le> 2 ^ 32 - 1 - 1000000"
    by (simp add: word_le_nat_alt BASELINE_TTL_WINDOW_def)
  then show ?thesis
    by (simp add: baseline_live_until_def saturating_add_def BASELINE_TTL_WINDOW_def unat_add_lem [THEN iffD1])
qed

section \<open>Budgets are built from what was observed\<close>

definition cost_terms :: "cost_param_entry_snapshot list \<Rightarrow> (64 word \<times> 64 word) list" where
  "cost_terms es = map (\<lambda>e. (ce_const_term e, ce_linear_term e)) es"

text \<open>A table that prices exactly the host's cost types, in the host's order.\<close>

definition prices_host :: "budget_host \<Rightarrow> cost_param_entry_snapshot list \<Rightarrow> bool" where
  "prices_host H es \<longleftrightarrow> map ce_cost_type es = bh_cost_types H \<and> map (\<lambda>e. unat (ce_index e)) es = [0..<length es]"

lemma push_snapshot_entry_Ok:
  "push_snapshot_entry H acc (i, e) = Ok out \<longleftrightarrow>
     unat (ce_index e) = i \<and> cost_type_at H i = Some (ce_cost_type e) \<and> out = acc @ [(ce_const_term e, ce_linear_term e)]"
  by (auto simp: push_snapshot_entry_def)

lemma push_snapshot_fold:
  "try_fold (push_snapshot_entry H) acc (enumerate n es) = Ok out \<longleftrightarrow>
     out = acc @ cost_terms es \<and>
     (\<forall>i < length es. unat (ce_index (es ! i)) = n + i \<and> cost_type_at H (n + i) = Some (ce_cost_type (es ! i)))"
proof (induction es arbitrary: acc n)
  case (Cons e es)
  note all = all_nth_Cons [of e es "\<lambda>i e. unat (ce_index e) = i \<and> cost_type_at H i = Some (ce_cost_type e)" n]
  show ?case unfolding all by (auto simp: push_snapshot_entry_Ok Cons.IH cost_terms_def)
qed (auto simp: cost_terms_def)

lemma cost_params_from_snapshot_Ok:
  assumes "length (bh_cost_types H) \<le> length (if for_cpu then cpu else mem)"
  shows "cost_params_from_snapshot H cpu mem for_cpu = Ok out \<longleftrightarrow>
    prices_host H (if for_cpu then cpu else mem) \<and> out = cost_terms (if for_cpu then cpu else mem) \<and>
    bh_cost_params H out = Inr ()"
proof -
  have "(\<forall>i < length es. unat (ce_index (es ! i)) = i \<and> cost_type_at H i = Some (ce_cost_type (es ! i))) \<longleftrightarrow> prices_host H es"
    if len: "length (bh_cost_types H) \<le> length es" for es
  proof
    assume *: "\<forall>i < length es. unat (ce_index (es ! i)) = i \<and> cost_type_at H i = Some (ce_cost_type (es ! i))"
    then have "\<forall>i < length es. i < length (bh_cost_types H)" by (auto simp: cost_type_at_def split: if_splits)
    with len have "length es = length (bh_cost_types H)" by (metis le_antisym less_irrefl not_le)
    with * show "prices_host H es"
      by (auto simp: prices_host_def cost_type_at_def intro!: nth_equalityI)
  next
    assume "prices_host H es"
    then have "bh_cost_types H = map ce_cost_type es" and idx: "map (\<lambda>e. unat (ce_index e)) es = [0..<length es]"
      by (auto simp: prices_host_def)
    moreover from idx have "unat (ce_index (es ! i)) = i" if "i < length es" for i
      using that by (metis add_0 diff_zero nth_map nth_upt)
    ultimately show "\<forall>i < length es. unat (ce_index (es ! i)) = i \<and> cost_type_at H i = Some (ce_cost_type (es ! i))"
      by (auto simp: cost_type_at_def)
  qed
  from this [OF assms] show ?thesis
    using push_snapshot_fold [of H "[]" 0 "if for_cpu then cpu else mem"]
    by (auto simp: cost_params_from_snapshot_def Let_def)
qed

text \<open>
  C20. A network-faithful budget is the observed one or none. The budget of a plan made from a profile
  is built exactly when the profile is complete, both observed tables price exactly the host's cost
  types in the host's order, and the host accepts them; it then has the observed limits and the
  observed tables. No part of it is ever defaulted.
\<close>

theorem network_budget_faithful:
  "make_budget H \<lparr>env_ledger = ledger, env_budget = network_faithful_plan H profile\<rparr> = Ok b \<longleftrightarrow>
     (\<exists>params cpu mem.
        profile_status_of (bh_protocol H) profile = Complete \<and>
        ob_value (nc_cost_params (np_config profile)) = Some params \<and>
        ob_value (nc_cpu_limit (np_config profile)) = Some cpu \<and>
        ob_value (nc_mem_limit (np_config profile)) = Some mem \<and>
        prices_host H (cp_cpu params) \<and> prices_host H (cp_mem params) \<and>
        bh_cost_params H (cost_terms (cp_cpu params)) = Inr () \<and>
        bh_cost_params H (cost_terms (cp_mem params)) = Inr () \<and>
        bh_try_from_configs H cpu mem (cost_terms (cp_cpu params)) (cost_terms (cp_mem params)) = Inr () \<and>
        b = ConfiguredBudget cpu mem (cost_terms (cp_cpu params)) (cost_terms (cp_mem params)))"
  (is "?built \<longleftrightarrow> ?faithful")
proof (cases "ob_value (nc_cost_params (np_config profile))")
  case None
  then show ?thesis
    by (auto simp: make_budget_def network_faithful_plan_def network_budget_def)
next
  case (Some params)
  let ?n = "length (bh_cost_types H)"
  have prices: "prices_host H es \<Longrightarrow> length es = ?n" for es by (metis length_map prices_host_def)
  have complete: "cov_complete (coverage_for_profile H profile (host_cost_type_count H)) \<longleftrightarrow>
      profile_status_of (bh_protocol H) profile = Complete \<and> ?n \<le> length (cp_cpu params) \<and> ?n \<le> length (cp_mem params)"
    using Some by (auto simp: coverage_for_profile_def host_cost_type_count_def entry_count_def Let_def)
  show ?thesis
  proof (cases "cov_complete (coverage_for_profile H profile (host_cost_type_count H))")
    case True
    with complete have "?n \<le> length (cp_cpu params)" "?n \<le> length (cp_mem params)" by auto
    then show ?thesis using True complete Some
      by (auto simp: make_budget_def network_faithful_plan_def network_budget_def try_from_configs_def
          cost_params_from_snapshot_Ok)
  next
    case False
    then show ?thesis using complete Some prices
      by (auto simp: make_budget_def network_faithful_plan_def network_budget_def)
  qed
qed

text \<open>A budget that cannot be built is a configuration error, never a setup error or a panic.\<close>

lemma params_from_table_no_panic:
  assumes "length table \<le> length v20_cost_types"
  shows "params_from_table H table \<noteq> Panic"
proof -
  have "try_fold (push_table_entry H) [] (enumerate 0 table) \<noteq> Panic"
  proof (rule try_fold_no_panic)
    fix acc x
    assume "x \<in> set (enumerate 0 table)"
    with assms show "push_table_entry H acc x \<noteq> Panic"
      by (cases x) (auto simp: push_table_entry_def and_then_Panic_iff in_set_enumerate_eq split: if_splits)
  qed
  then show ?thesis by (auto simp: params_from_table_def and_then_Panic_iff)
qed

lemma cost_params_from_snapshot_outcome:
  "cost_params_from_snapshot H cpu mem for_cpu \<noteq> Panic"
  "cost_params_from_snapshot H cpu mem for_cpu = Err e \<Longrightarrow> \<exists>m. e = InvalidConfig m"
proof -
  have fold: "case try_fold (push_snapshot_entry H) acc xs of Ok _ \<Rightarrow> True | Err e \<Rightarrow> \<exists>m. e = InvalidConfig m | Panic \<Rightarrow> False"
    for acc xs
  proof (induction xs arbitrary: acc)
    case (Cons x xs)
    obtain i e where x: "x = (i, e)" by (cases x)
    have "push_snapshot_entry H acc x \<noteq> Panic"
      unfolding x by (cases "cost_type_at H i") (simp_all add: push_snapshot_entry_def)
    moreover have "\<exists>m. y = InvalidConfig m" if "push_snapshot_entry H acc x = Err y" for y
      using that unfolding x by (cases "cost_type_at H i") (auto simp: push_snapshot_entry_def split: if_splits)
    ultimately show ?case using Cons.IH by (cases "push_snapshot_entry H acc x") auto
  qed simp
  show "cost_params_from_snapshot H cpu mem for_cpu \<noteq> Panic"
    "cost_params_from_snapshot H cpu mem for_cpu = Err e \<Longrightarrow> \<exists>m. e = InvalidConfig m"
    using fold [of "[]" "enumerate 0 (if for_cpu then cpu else mem)"]
    by (auto simp: cost_params_from_snapshot_def and_then_Err_iff and_then_Panic_iff Let_def split: result.splits)
qed

lemma try_from_configs_outcome:
  "try_from_configs H what cpu mem c m \<noteq> Panic"
  "try_from_configs H what cpu mem c m = Err e \<Longrightarrow> \<exists>msg. e = InvalidConfig msg"
  by (auto simp: try_from_configs_def and_then_Err_iff and_then_Panic_iff)

lemma make_budget_outcome:
  "make_budget H env \<noteq> Panic"
  "make_budget H env = Err e \<Longrightarrow> \<exists>m. e = InvalidConfig m"
proof -
  have tables: "network_cpu_cost_params H \<noteq> Panic" "network_mem_cost_params H \<noteq> Panic"
    unfolding network_cpu_cost_params_def network_mem_cost_params_def
    by (rule params_from_table_no_panic, simp add: V20_CPU_def V20_MEM_def v20_cost_types_def)+
  show "make_budget H env \<noteq> Panic"
    using tables
    by (auto simp: make_budget_def network_budget_def and_then_Panic_iff try_from_configs_outcome(1)
        cost_params_from_snapshot_outcome(1) split: budget_plan.split)
  show "make_budget H env = Err e \<Longrightarrow> \<exists>m. e = InvalidConfig m"
    by (auto simp: make_budget_def network_budget_def and_then_Err_iff split: budget_plan.splits if_splits
        dest: try_from_configs_outcome(2) cost_params_from_snapshot_outcome(2))
qed

end
