(* ===== verification/Fuzz_Exec.thy ===== *)
theory Fuzz_Exec
  imports Fuzz_Budget "HOL-Library.Countable"
begin

text \<open>
  The execution core of \<^verbatim>\<open>sdkt-fuzz\<close>: fuzz cases (\<^verbatim>\<open>case.rs\<close>), the executor's checks and the mapping of
  a host result to an observation (\<^verbatim>\<open>executor.rs\<close>, \<^verbatim>\<open>observation.rs\<close>).

  The XDR values of the \<^verbatim>\<open>stellar_xdr\<close> crate are datatypes; the Soroban host and the XDR encoders and
  decoders are the fields of the parameter \<open>fuzz_tools\<close>.
\<close>

section \<open>Values and ledger entries\<close>

datatype sc_address =
    AddrAccount string
  | AddrContract string
  | AddrMuxed "64 word" string
  | AddrClaimableBalance string
  | AddrLiquidityPool string

datatype sc_val =
    VBool bool
  | VVoid
  | VError string
  | VU32 "32 word"
  | VI32 "32 word"
  | VU64 "64 word"
  | VI64 "64 word"
  | VTimepoint "64 word"
  | VDuration "64 word"
  | VU128 "64 word" "64 word"
  | VI128 "64 word" "64 word"
  | VU256 "64 word" "64 word" "64 word" "64 word"
  | VI256 "64 word" "64 word" "64 word" "64 word"
  | VBytes string
  | VString string
  | VSymbol string
  | VVec "sc_val list option"
  | VMap "(sc_val \<times> sc_val) list option"
  | VAddress sc_address
  | VContractInstance string "(sc_val \<times> sc_val) list option"
  | VLedgerKeyContractInstance
  | VLedgerKeyNonce "64 word"

instance sc_address :: countable by countable_datatype
instance sc_val :: countable by countable_datatype

datatype durability = Temporary | Persistent

datatype ledger_data =
    ContractData string sc_val durability sc_val
  | ContractCode string string
  | OtherData string

record ledger_entry =
  ent_last_modified :: nat
  ent_data :: ledger_data
  ent_ext :: string

datatype ledger_key =
    KeyContractData string sc_val durability
  | KeyContractCode string
  | KeyOther string

record function_call =
  fc_function :: string
  fc_args :: "sc_val list"

section \<open>Observations\<close>

datatype execution_status =
    Returned sc_val
  | ContractError string nat
  | ReturnedVoid

datatype state_change = Created | StateUpdated | Deleted | StateUnchanged

record state_entry =
  se_key_xdr :: string
  se_value_xdr :: "string option"
  se_change :: state_change

record event_record =
  er_contract_id :: "string option"
  er_event_type :: string
  er_topics :: "sc_val list"
  er_data :: sc_val

record budget_usage =
  bu_consumed_cpu :: nat
  bu_consumed_mem :: nat
  bu_remaining_cpu :: nat
  bu_remaining_mem :: nat

record observation =
  obs_case_id :: string
  obs_function :: string
  obs_status :: execution_status
  obs_state :: "state_entry list"
  obs_events :: "event_record list"
  obs_budget :: budget_usage

definition is_success :: "observation \<Rightarrow> bool" where
  "is_success obs = (case obs_status obs of ContractError _ _ \<Rightarrow> False | _ \<Rightarrow> True)"

definition return_value :: "observation \<Rightarrow> sc_val option" where
  "return_value obs = (case obs_status obs of Returned v \<Rightarrow> Some v | _ \<Rightarrow> None)"

section \<open>The host\<close>

datatype sc_error_type =
  EtContract | EtWasmVm | EtContext | EtStorage | EtObject | EtCrypto | EtEvents | EtBudget | EtValue | EtAuth

record host_error =
  he_type :: "sc_error_type option"
  he_code :: nat

record ledger_entry_change =
  lc_encoded_key :: string
  lc_encoded_new_value :: "string option"

record host_result =
  hr_invoke_result :: "host_error + string"
  hr_ledger_changes :: "ledger_entry_change list"
  hr_events :: "string list"
  hr_budget :: budget_usage

text \<open>
  \<open>ft_budgets\<close> is what the host knows of budgets. \<open>ft_invoke\<close> is one run of a fresh host with the given
  budget and ledger: it encodes the footprint (the instance entry, then the data entries, each live
  until the given ledger) and the call, and runs it with the given authorization entries.
  \<open>ft_contract_id\<close> is the contract id of the campaign, a hash of its network \<open>ft_network_id\<close>, deployer
  and salt, and \<open>ft_wasm_hash\<close> the hash of its code. The other fields are the codecs of XDR values, of
  their base64 texts, the order of XDR values and Rust's debug text of a string.
\<close>

record fuzz_tools =
  ft_contract_id :: string
  ft_wasm_hash :: string
  ft_network_id :: string
  ft_budgets :: budget_host
  ft_invoke ::
    "host_budget \<Rightarrow> ledger_info \<Rightarrow> 32 word \<Rightarrow> ledger_entry \<Rightarrow> ledger_entry list \<Rightarrow> function_call \<Rightarrow>
     string list \<Rightarrow> (host_result, fuzz_error) result"
  ft_val_from_xdr :: "string \<Rightarrow> string + sc_val"
  ft_event_from_xdr :: "string \<Rightarrow> string + event_record"
  ft_key_from_xdr :: "string \<Rightarrow> string + ledger_key"
  ft_entry_from_xdr :: "string \<Rightarrow> string + ledger_entry"
  ft_key_from_base64 :: "string \<Rightarrow> string + ledger_key"
  ft_key_to_base64 :: "ledger_key \<Rightarrow> string + string"
  ft_entry_from_base64 :: "string \<Rightarrow> string + ledger_entry"
  ft_entry_to_base64 :: "ledger_entry \<Rightarrow> string + string"
  ft_debug_str :: "string \<Rightarrow> string"
  ft_key_xdr :: "ledger_key \<Rightarrow> string"
  ft_entry_xdr :: "ledger_entry \<Rightarrow> string"
  ft_to_key :: "ledger_entry \<Rightarrow> ledger_key"
  ft_val_le :: "sc_val \<Rightarrow> sc_val \<Rightarrow> bool"

fun error_type_name :: "sc_error_type \<Rightarrow> string" where
  "error_type_name EtContract = ''Contract''"
| "error_type_name EtWasmVm = ''WasmVm''"
| "error_type_name EtContext = ''Context''"
| "error_type_name EtStorage = ''Storage''"
| "error_type_name EtObject = ''Object''"
| "error_type_name EtCrypto = ''Crypto''"
| "error_type_name EtEvents = ''Events''"
| "error_type_name EtBudget = ''Budget''"
| "error_type_name EtValue = ''Value''"
| "error_type_name EtAuth = ''Auth''"

definition error_type_and_code :: "host_error \<Rightarrow> (string \<times> nat, fuzz_error) result" where
  "error_type_and_code e =
     map_ok (\<lambda>t. (error_type_name t, he_code e))
       (ok_or (ObservationFailed ''undecodable host error type'') (he_type e))"

definition footprint_change :: "(string, string) btree_map \<Rightarrow> ledger_entry_change \<Rightarrow> state_change" where
  "footprint_change baseline c =
     (case lc_encoded_new_value c of
        None \<Rightarrow> (case bt_get baseline (lc_encoded_key c) of Some _ \<Rightarrow> Deleted | None \<Rightarrow> StateUnchanged)
      | Some new_value \<Rightarrow>
          (case bt_get baseline (lc_encoded_key c) of
             None \<Rightarrow> Created
           | Some old \<Rightarrow> if old = new_value then StateUnchanged else StateUpdated))"

definition state_entries_from_footprint ::
  "ledger_entry_change list \<Rightarrow> (string, string) btree_map \<Rightarrow> state_entry list" where
  "state_entries_from_footprint changes baseline =
     sort_key se_key_xdr
       (map (\<lambda>c. \<lparr>se_key_xdr = lc_encoded_key c, se_value_xdr = lc_encoded_new_value c,
                  se_change = footprint_change baseline c\<rparr>) changes)"

definition decode_events :: "fuzz_tools \<Rightarrow> string list \<Rightarrow> (event_record list, fuzz_error) result" where
  "decode_events T encoded =
     try_map (\<lambda>bytes. case ft_event_from_xdr T bytes of
        Inl e \<Rightarrow> Err (ObservationFailed (''event did not decode: '' @ e))
      | Inr event \<Rightarrow> Ok event) encoded"

section \<open>Cases\<close>

record fuzz_case =
  fz_case_id :: string
  fz_contract_id :: string
  fz_call :: function_call
  fz_baseline_entries :: "ledger_entry list"
  fz_instance_storage :: "(sc_val \<times> sc_val) list"
  fz_external_instance_entry :: "ledger_entry option"

definition executor_case :: "fuzz_tools \<Rightarrow> string \<Rightarrow> function_call \<Rightarrow> ledger_entry list \<Rightarrow> fuzz_case" where
  "executor_case T case_id call baseline =
     \<lparr>fz_case_id = case_id, fz_contract_id = ft_contract_id T, fz_call = call,
      fz_baseline_entries = baseline, fz_instance_storage = [], fz_external_instance_entry = None\<rparr>"

definition with_instance_storage :: "fuzz_case \<Rightarrow> (sc_val \<times> sc_val) list \<Rightarrow> fuzz_case" where
  "with_instance_storage c storage = c \<lparr>fz_instance_storage := storage\<rparr>"

text \<open>The stable sort by key and the removal of repeated keys.\<close>

fun insert_by :: "('k \<Rightarrow> 'k \<Rightarrow> bool) \<Rightarrow> 'k \<times> 'v \<Rightarrow> ('k \<times> 'v) list \<Rightarrow> ('k \<times> 'v) list" where
  "insert_by le x [] = [x]"
| "insert_by le x (y # ys) = (if le (fst x) (fst y) then x # y # ys else y # insert_by le x ys)"

fun dedup_by_key :: "('k \<times> 'v) list \<Rightarrow> ('k \<times> 'v) list" where
  "dedup_by_key (x # y # ys) =
     (if fst x = fst y then dedup_by_key (x # ys) else x # dedup_by_key (y # ys))"
| "dedup_by_key xs = xs"

definition instance_entry :: "fuzz_tools \<Rightarrow> string \<Rightarrow> (sc_val \<times> sc_val) list \<Rightarrow> ledger_entry" where
  "instance_entry T contract storage =
     (let entries = dedup_by_key (foldr (insert_by (ft_val_le T)) storage []);
          m = (if entries = [] then None else Some entries)
      in \<lparr>ent_last_modified = 0,
          ent_data = ContractData contract VLedgerKeyContractInstance Persistent
            (VContractInstance (ft_wasm_hash T) m),
          ent_ext = ''v0''\<rparr>)"

section \<open>The executor\<close>

definition baseline_error :: "string \<Rightarrow> ('a, fuzz_error) result" where
  "baseline_error m = Err (InvalidSetup (BaselineEntry m))"

definition check_baseline_entry :: "string \<Rightarrow> ledger_entry \<Rightarrow> (ledger_entry, fuzz_error) result" where
  "check_baseline_entry contract entry =
     (case ent_data entry of
        ContractData c key _ _ \<Rightarrow>
          if c \<noteq> contract then baseline_error ''baseline entry belongs to another contract''
          else if key = VLedgerKeyContractInstance then
            baseline_error (''the contract instance entry is seeded by the executor; '' @
              ''do not include it in baseline_entries'')
          else Ok entry
      | _ \<Rightarrow> baseline_error ''only LedgerEntryData::ContractData baseline entries are supported'')"

definition case_instance :: "fuzz_tools \<Rightarrow> fuzz_case \<Rightarrow> (ledger_entry, fuzz_error) result" where
  "case_instance T c =
     (case fz_external_instance_entry c of
        None \<Rightarrow> Ok (instance_entry T (fz_contract_id c) (fz_instance_storage c))
      | Some entry \<Rightarrow>
          (case ent_data entry of
             ContractData owner key _ _ \<Rightarrow>
               if owner \<noteq> fz_contract_id c then
                 baseline_error ''external instance entry belongs to another contract''
               else if key \<noteq> VLedgerKeyContractInstance then
                 baseline_error ''external instance entry is not a contract instance''
               else Ok entry
           | _ \<Rightarrow> baseline_error ''external instance entry must be a ContractData entry''))"

definition push_footprint_key ::
  "fuzz_tools \<Rightarrow> ledger_key list \<Rightarrow> ledger_entry \<Rightarrow> (ledger_key list, fuzz_error) result" where
  "push_footprint_key T read_write entry =
     (let key = ft_to_key T entry in
      if key \<in> set read_write then baseline_error ''duplicate baseline entry key''
      else Ok (read_write @ [key]))"

definition baseline_map :: "fuzz_tools \<Rightarrow> ledger_entry list \<Rightarrow> (string, string) btree_map" where
  "baseline_map T entries = bt_collect (map (\<lambda>e. (ft_key_xdr T (ft_to_key T e), ft_entry_xdr T e)) entries)"

definition result_status :: "fuzz_tools \<Rightarrow> host_error + string \<Rightarrow> (execution_status, fuzz_error) result" where
  "result_status T r =
     (case r of
        Inr bytes \<Rightarrow>
          (case ft_val_from_xdr T bytes of
             Inl e \<Rightarrow> Err (ObservationFailed (''invoke result did not decode: '' @ e))
           | Inr v \<Rightarrow> Ok (if v = VVoid then ReturnedVoid else Returned v))
      | Inl host_error \<Rightarrow> map_ok (\<lambda>(t, c). ContractError t c) (error_type_and_code host_error))"

text \<open>The run itself: the name of the called function has to be a symbol, of at most 32 bytes.\<close>

definition invoke_contract ::
  "fuzz_tools \<Rightarrow> host_budget \<Rightarrow> environment \<Rightarrow> ledger_entry \<Rightarrow> ledger_entry list \<Rightarrow> function_call \<Rightarrow>
   string list \<Rightarrow> (host_result, fuzz_error) result" where
  "invoke_contract T budget environment inst data_entries call auth_entries =
     (if length (fc_function call) > 32 then
        Err (Execution (''function name is not a valid ScSymbol: '' @ fc_function call))
      else ft_invoke T budget (ledger_info_of (ft_budgets T) environment (ft_network_id T))
             (baseline_live_until environment) inst data_entries call auth_entries)"

definition execute_with_auth ::
  "fuzz_tools \<Rightarrow> fuzz_case \<Rightarrow> environment \<Rightarrow> string list \<Rightarrow> (observation, fuzz_error) result" where
  "execute_with_auth T c environment auth_entries =
     and_then (make_budget (ft_budgets T) environment) (\<lambda>budget.
     and_then (try_map (check_baseline_entry (fz_contract_id c)) (fz_baseline_entries c)) (\<lambda>data_entries.
     and_then (case_instance T c) (\<lambda>inst.
     and_then (try_fold (push_footprint_key T) [ft_to_key T inst] data_entries) (\<lambda>_.
     and_then (invoke_contract T budget environment inst data_entries (fz_call c) auth_entries) (\<lambda>res.
     and_then (result_status T (hr_invoke_result res)) (\<lambda>status.
     and_then (decode_events T (hr_events res)) (\<lambda>events.
       Ok \<lparr>obs_case_id = fz_case_id c, obs_function = fc_function (fz_call c), obs_status = status,
           obs_state = state_entries_from_footprint (hr_ledger_changes res)
             (baseline_map T (inst # data_entries)),
           obs_events = events, obs_budget = hr_budget res\<rparr>)))))))"

definition execute_with :: "fuzz_tools \<Rightarrow> fuzz_case \<Rightarrow> environment \<Rightarrow> (observation, fuzz_error) result" where
  "execute_with T c environment = execute_with_auth T c environment []"

end
