(* ===== verification/State_Capture.thy ===== *)
theory State_Capture
  imports Fuzz_Exec
begin

text \<open>
  State capture, \<^verbatim>\<open>sdkt-fuzz/src/state_capture.rs\<close> and the row adapter of \<^verbatim>\<open>sequence.rs\<close>: which captured
  ledger state may stand for the state an RPC simulation ran on, and the decoding of the state
  changes the simulation reports.
\<close>

section \<open>Captures\<close>

datatype entry_source = LedgerEntriesRead | AbsentAtRead

record captured_entry =
  ca_key_b64 :: string
  ca_entry :: ledger_entry
  ca_last_modified_ledger_seq :: "32 word"
  ca_live_until_ledger_seq :: "32 word option"
  ca_source :: entry_source

datatype state_unverified =
    StateOlderThanSimulation "32 word" "32 word"
  | EntryNotLive string "32 word" "32 word"
  | EntryModifiedAfterSimulation string "32 word" "32 word"
  | FootprintKeyMissing string
  | FootprintKeyAbsentUnverified string
  | ValueMismatchWithSimulation string

fun unverified_category :: "state_unverified \<Rightarrow> string" where
  "unverified_category (StateOlderThanSimulation _ _) = ''state_older_than_simulation''"
| "unverified_category (EntryNotLive _ _ _) = ''entry_not_live''"
| "unverified_category (EntryModifiedAfterSimulation _ _ _) = ''entry_modified_after_simulation''"
| "unverified_category (FootprintKeyMissing _) = ''footprint_key_missing''"
| "unverified_category (FootprintKeyAbsentUnverified _) = ''footprint_key_absent_unverified''"
| "unverified_category (ValueMismatchWithSimulation _) = ''value_mismatch_with_simulation''"

text \<open>The entries, the ledger of the read and the ledger of the simulation.\<close>

datatype state_capture_outcome =
    Verified "captured_entry list" "32 word" "32 word"
  | Blocked state_unverified "captured_entry list" "32 word" "32 word"

fun verified_entries :: "state_capture_outcome \<Rightarrow> captured_entry list option" where
  "verified_entries (Verified entries _ _) = Some entries"
| "verified_entries (Blocked _ _ _ _) = None"

fun is_blocked :: "state_capture_outcome \<Rightarrow> bool" where
  "is_blocked (Blocked _ _ _ _) = True"
| "is_blocked (Verified _ _ _) = False"

fun block_reason :: "state_capture_outcome \<Rightarrow> state_unverified option" where
  "block_reason (Blocked reason _ _ _) = Some reason"
| "block_reason (Verified _ _ _) = None"

fun outcome_entries :: "state_capture_outcome \<Rightarrow> captured_entry list" where
  "outcome_entries (Verified entries _ _) = entries"
| "outcome_entries (Blocked _ entries _ _) = entries"

fun fetch_latest_ledger :: "state_capture_outcome \<Rightarrow> 32 word" where
  "fetch_latest_ledger (Verified _ fetch _) = fetch"
| "fetch_latest_ledger (Blocked _ _ fetch _) = fetch"

fun simulation_latest_ledger :: "state_capture_outcome \<Rightarrow> 32 word" where
  "simulation_latest_ledger (Verified _ _ sim) = sim"
| "simulation_latest_ledger (Blocked _ _ _ sim) = sim"

record raw_capture =
  rc_key_b64 :: string
  rc_entry :: "ledger_entry option"
  rc_last_modified_ledger_seq :: "32 word"
  rc_live_until_ledger_seq :: "32 word option"

definition absent_placeholder :: "fuzz_tools \<Rightarrow> string \<Rightarrow> ledger_entry" where
  "absent_placeholder T key_b64 =
     (let (contract, key_val, durability) =
            (case ft_key_from_base64 T key_b64 of
               Inr (KeyContractData c k d) \<Rightarrow> (c, k, d)
             | _ \<Rightarrow> (replicate 32 CHR 0x00, VLedgerKeyContractInstance, Persistent))
      in \<lparr>ent_last_modified = 0, ent_data = ContractData contract key_val durability VVoid, ent_ext = ''v0''\<rparr>)"

definition captured :: "fuzz_tools \<Rightarrow> raw_capture \<Rightarrow> captured_entry" where
  "captured T r =
     \<lparr>ca_key_b64 = rc_key_b64 r,
      ca_entry = (case rc_entry r of Some e \<Rightarrow> e | None \<Rightarrow> absent_placeholder T (rc_key_b64 r)),
      ca_last_modified_ledger_seq = rc_last_modified_ledger_seq r,
      ca_live_until_ledger_seq = rc_live_until_ledger_seq r,
      ca_source = (if rc_entry r \<noteq> None then LedgerEntriesRead else AbsentAtRead)\<rparr>"

definition entry_unverified :: "32 word \<Rightarrow> captured_entry \<Rightarrow> state_unverified option" where
  "entry_unverified sim e =
     (case ca_live_until_ledger_seq e of
        Some live_until \<Rightarrow>
          if live_until \<noteq> 0 \<and> live_until < sim then Some (EntryNotLive (ca_key_b64 e) live_until sim)
          else if ca_source e = LedgerEntriesRead \<and> ca_last_modified_ledger_seq e > sim then
            Some (EntryModifiedAfterSimulation (ca_key_b64 e) (ca_last_modified_ledger_seq e) sim)
          else None
      | None \<Rightarrow>
          if ca_source e = LedgerEntriesRead \<and> ca_last_modified_ledger_seq e > sim then
            Some (EntryModifiedAfterSimulation (ca_key_b64 e) (ca_last_modified_ledger_seq e) sim)
          else None)"

fun first_some :: "('a \<Rightarrow> 'b option) \<Rightarrow> 'a list \<Rightarrow> 'b option" where
  "first_some f [] = None"
| "first_some f (x # xs) = (case f x of Some y \<Rightarrow> Some y | None \<Rightarrow> first_some f xs)"

definition build_capture ::
  "fuzz_tools \<Rightarrow> string list \<Rightarrow> raw_capture list \<Rightarrow> 32 word \<Rightarrow> 32 word \<Rightarrow> state_capture_outcome" where
  "build_capture T footprint_keys raw fetch sim =
     (let by_key = bt_collect (map (\<lambda>r. (rc_key_b64 r, r)) raw);
          entries = map (captured T) raw
      in case find (\<lambda>key. \<not> bt_contains_key by_key key) footprint_keys of
        Some key \<Rightarrow> Blocked (FootprintKeyMissing key) entries fetch sim
      | None \<Rightarrow>
          if fetch < sim then Blocked (StateOlderThanSimulation fetch sim) entries fetch sim
          else case first_some (entry_unverified sim) entries of
            Some reason \<Rightarrow> Blocked reason entries fetch sim
          | None \<Rightarrow> Verified entries fetch sim)"

definition value_mismatch :: "fuzz_tools \<Rightarrow> captured_entry list \<Rightarrow> string \<times> string \<Rightarrow> state_unverified option" where
  "value_mismatch T entries = (\<lambda>(key_b64, before_b64).
     case find (\<lambda>e. ca_key_b64 e = key_b64) entries of
       None \<Rightarrow> None
     | Some held \<Rightarrow>
         if ca_source held \<noteq> LedgerEntriesRead then None
         else case ft_entry_to_base64 T (ca_entry held) of
           Inl _ \<Rightarrow> None
         | Inr held_b64 \<Rightarrow>
             if held_b64 \<noteq> before_b64 then Some (ValueMismatchWithSimulation key_b64) else None)"

definition verify_against_state_changes ::
  "fuzz_tools \<Rightarrow> state_capture_outcome \<Rightarrow> (string \<times> string) list \<Rightarrow> state_capture_outcome" where
  "verify_against_state_changes T outcome state_changes =
     (case first_some (value_mismatch T (outcome_entries outcome)) state_changes of
        Some reason \<Rightarrow>
          Blocked reason (outcome_entries outcome) (fetch_latest_ledger outcome) (simulation_latest_ledger outcome)
      | None \<Rightarrow> outcome)"

section \<open>Keys the executor owns\<close>

definition is_nonce :: "sc_val \<Rightarrow> bool" where
  "is_nonce v = (case v of VLedgerKeyNonce _ \<Rightarrow> True | _ \<Rightarrow> False)"

definition is_executor_owned_key :: "ledger_key \<Rightarrow> bool" where
  "is_executor_owned_key key =
     (case key of
        KeyContractCode _ \<Rightarrow> True
      | KeyContractData _ k _ \<Rightarrow> k = VLedgerKeyContractInstance \<or> is_nonce k
      | KeyOther _ \<Rightarrow> False)"

section \<open>Reported state changes\<close>

datatype state_change_kind = RowCreated | RowUpdated | RowDeleted

record decoded_state_change =
  sx_key_b64 :: string
  sx_kind :: state_change_kind
  sx_before :: "ledger_entry option"
  sx_after :: "ledger_entry option"

datatype decode_error =
    MalformedRow string
  | UnknownKind string
  | BadXdr string string
  | RowKeyMismatch string string

fun decode_error_display :: "fuzz_tools \<Rightarrow> decode_error \<Rightarrow> string" where
  "decode_error_display T (MalformedRow detail) = ''stateChanges row is malformed: '' @ detail"
| "decode_error_display T (UnknownKind v) = ''unknown stateChanges kind: '' @ ft_debug_str T v"
| "decode_error_display T (BadXdr field detail) = ''stateChanges '' @ field @ '' failed to decode: '' @ detail"
| "decode_error_display T (RowKeyMismatch row_key entry_key) =
     ''stateChanges row key '' @ row_key @ '' does not match decoded entry key '' @ entry_key"

fun kind_debug :: "state_change_kind \<Rightarrow> string" where
  "kind_debug RowCreated = ''Created''"
| "kind_debug RowUpdated = ''Updated''"
| "kind_debug RowDeleted = ''Deleted''"

definition show_bool :: "bool \<Rightarrow> string" where
  "show_bool b = (if b then ''true'' else ''false'')"

definition parse_kind :: "string \<Rightarrow> (state_change_kind, decode_error) result" where
  "parse_kind kind =
     (if kind = ''created'' then Ok RowCreated
      else if kind = ''updated'' then Ok RowUpdated
      else if kind = ''deleted'' then Ok RowDeleted
      else Err (UnknownKind kind))"

definition decode_value :: "fuzz_tools \<Rightarrow> string \<Rightarrow> string option \<Rightarrow> (ledger_entry option, decode_error) result" where
  "decode_value T field v =
     (case v of
        None \<Rightarrow> Ok None
      | Some b64 \<Rightarrow> map_ok Some (sum_result (BadXdr field) (ft_entry_from_base64 T b64)))"

fun presence_ok :: "state_change_kind \<Rightarrow> bool \<Rightarrow> bool \<Rightarrow> bool" where
  "presence_ok RowCreated before after = (\<not> before \<and> after)"
| "presence_ok RowUpdated before after = (before \<and> after)"
| "presence_ok RowDeleted before after = (before \<and> \<not> after)"

definition check_row_key :: "fuzz_tools \<Rightarrow> string \<Rightarrow> unit \<Rightarrow> ledger_entry \<Rightarrow> (unit, decode_error) result" where
  "check_row_key T key_b64 u entry =
     and_then (sum_result (BadXdr ''key'') (ft_key_to_base64 T (ft_to_key T entry))) (\<lambda>entry_key.
       if entry_key \<noteq> key_b64 then Err (RowKeyMismatch key_b64 entry_key) else Ok ())"

definition option_list :: "'a option \<Rightarrow> 'a list" where
  "option_list x = (case x of Some y \<Rightarrow> [y] | None \<Rightarrow> [])"

definition decode_state_change ::
  "fuzz_tools \<Rightarrow> string \<Rightarrow> string \<Rightarrow> string option \<Rightarrow> string option \<Rightarrow> (decoded_state_change, decode_error) result" where
  "decode_state_change T key_b64 kind before_b64 after_b64 =
     and_then (parse_kind kind) (\<lambda>kind.
     and_then (decode_value T ''before'' before_b64) (\<lambda>before.
     and_then (decode_value T ''after'' after_b64) (\<lambda>after.
       if \<not> presence_ok kind (before \<noteq> None) (after \<noteq> None) then
         Err (MalformedRow (''kind '' @ kind_debug kind @
           '' requires before/after presence that the row does not have (before='' @ show_bool (before \<noteq> None) @
           '', after='' @ show_bool (after \<noteq> None) @ '')''))
       else
         and_then (try_fold (check_row_key T key_b64) () (option_list before @ option_list after)) (\<lambda>_.
           Ok \<lparr>sx_key_b64 = key_b64, sx_kind = kind, sx_before = before, sx_after = after\<rparr>))))"

text \<open>The rows as they arrive, JSON values.\<close>

datatype json =
    JNull
  | JBool bool
  | JNumber string
  | JString string
  | JArray "json list"
  | JObject "(string \<times> json) list"

definition as_str :: "json \<Rightarrow> string option" where
  "as_str v = (case v of JString s \<Rightarrow> Some s | _ \<Rightarrow> None)"

definition str_field :: "(string \<times> json) list \<Rightarrow> string \<Rightarrow> string option" where
  "str_field obj name = Option.bind (map_of obj name) as_str"

definition decode_state_change_row :: "fuzz_tools \<Rightarrow> json \<Rightarrow> (decoded_state_change, decode_error) result" where
  "decode_state_change_row T row =
     and_then (ok_or (MalformedRow ''row is not a JSON object'') (case row of JObject obj \<Rightarrow> Some obj | _ \<Rightarrow> None)) (\<lambda>obj.
     and_then (ok_or (MalformedRow ''row has no string `key` field'') (str_field obj ''key'')) (\<lambda>key.
     and_then (ok_or (MalformedRow ''row has no string `type` field'') (str_field obj ''type'')) (\<lambda>kind.
       decode_state_change T key kind (str_field obj ''before'') (str_field obj ''after''))))"

definition decode_simulate_state_changes :: "fuzz_tools \<Rightarrow> json list \<Rightarrow> (decoded_state_change list, decode_error) result" where
  "decode_simulate_state_changes T rows = try_map (decode_state_change_row T) rows"

section \<open>When a capture stands for the simulated state\<close>

lemma first_some_None: "first_some f xs = None \<longleftrightarrow> (\<forall>x \<in> set xs. f x = None)"
  by (induction xs) (auto split: option.splits)

lemma first_some_Some: "first_some f xs = Some y \<Longrightarrow> \<exists>x \<in> set xs. f x = Some y"
  by (induction xs) (auto split: option.splits)

text \<open>An entry that was live at the ledger of the simulation and not written since.\<close>

definition unchanged_since :: "32 word \<Rightarrow> raw_capture \<Rightarrow> bool" where
  "unchanged_since sim r \<longleftrightarrow>
     (\<forall>live. rc_live_until_ledger_seq r = Some live \<longrightarrow> live = 0 \<or> live \<ge> sim) \<and>
     (rc_entry r \<noteq> None \<longrightarrow> rc_last_modified_ledger_seq r \<le> sim)"

text \<open>The first captured value of a key is what the simulation reports to have read there.\<close>

definition agrees_with :: "fuzz_tools \<Rightarrow> raw_capture list \<Rightarrow> string \<times> string \<Rightarrow> bool" where
  "agrees_with T raw change \<longleftrightarrow>
     (case find (\<lambda>r. rc_key_b64 r = fst change) raw of
        None \<Rightarrow> True
      | Some r \<Rightarrow> (case rc_entry r of None \<Rightarrow> True
          | Some e \<Rightarrow> (case ft_entry_to_base64 T e of Inl _ \<Rightarrow> True | Inr b64 \<Rightarrow> b64 = snd change)))"

lemma entry_unverified_None: "entry_unverified sim (captured T r) = None \<longleftrightarrow> unchanged_since sim r"
  by (cases "rc_live_until_ledger_seq r"; cases "rc_entry r")
     (auto simp: entry_unverified_def captured_def unchanged_since_def not_less)

lemma find_map_captured:
  "find (\<lambda>e. ca_key_b64 e = k) (map (captured T) raw) = map_option (captured T) (find (\<lambda>r. rc_key_b64 r = k) raw)"
  by (induction raw) (auto simp: captured_def)

lemma value_mismatch_None: "value_mismatch T (map (captured T) raw) c = None \<longleftrightarrow> agrees_with T raw c"
proof -
  obtain k b where c: "c = (k, b)" by (cases c)
  show ?thesis
  proof (cases "find (\<lambda>r. rc_key_b64 r = k) raw")
    case (Some r)
    then show ?thesis by (cases "rc_entry r") (auto simp: c value_mismatch_def agrees_with_def find_map_captured captured_def split: sum.splits)
  qed (simp add: c value_mismatch_def agrees_with_def find_map_captured)
qed


text \<open>An entry that was absent at the read never blocks a capture, explained or not.\<close>

lemma absent_never_blocks:
  assumes "build_capture T keys raw fetch sim = Blocked reason entries f s \<or>
      verify_against_state_changes T (Verified (map (captured T) raw) fetch sim) changes = Blocked reason entries f s"
  shows "reason \<noteq> FootprintKeyAbsentUnverified key"
  using assms
  by (auto simp: build_capture_def verify_against_state_changes_def Let_def entry_unverified_def value_mismatch_def
      split: option.splits if_splits sum.splits prod.splits dest!: first_some_Some)

end
