(* ===== verification/Fuzz_Sequence.thy ===== *)
theory Fuzz_Sequence
  imports State_Capture "HOL-Library.Countable"
begin

text \<open>
  Stateful sequences, \<^verbatim>\<open>sdkt-fuzz/src/sequence.rs\<close>: every call runs on a fresh host, and the state it
  leaves is carried to the next call as contract-data entries and the instance storage map. The
  second half chains the state changes an RPC simulation reports onto a baseline.
\<close>

section \<open>The carried state\<close>

record sequence_state =
  sq_data_entries :: "ledger_entry list"
  sq_instance_storage :: "(sc_val \<times> sc_val) list"

definition read_storage_map :: "(sc_val \<times> sc_val) list option \<Rightarrow> (sc_val \<times> sc_val) list" where
  "read_storage_map m = unwrap_or [] m"

definition push_baseline :: "sequence_state \<Rightarrow> ledger_entry \<Rightarrow> (sequence_state, fuzz_error) result" where
  "push_baseline st entry =
     (case ent_data entry of
        ContractData _ key _ val \<Rightarrow>
          if key = VLedgerKeyContractInstance then
            Ok (case val of
                  VContractInstance _ m \<Rightarrow> st \<lparr>sq_instance_storage := read_storage_map m\<rparr>
                | _ \<Rightarrow> st)
          else Ok (st \<lparr>sq_data_entries := sq_data_entries st @ [entry]\<rparr>)
      | ContractCode _ _ \<Rightarrow> baseline_error ''sequence baselines carry contract-data entries only''
      | OtherData _ \<Rightarrow>
          baseline_error ''only LedgerEntryData::ContractData sequence entries are supported'')"

definition from_baseline :: "ledger_entry list \<Rightarrow> (sequence_state, fuzz_error) result" where
  "from_baseline baseline = try_fold push_baseline \<lparr>sq_data_entries = [], sq_instance_storage = []\<rparr> baseline"

definition decode_entry :: "fuzz_tools \<Rightarrow> string \<Rightarrow> (ledger_entry, fuzz_error) result" where
  "decode_entry T bytes =
     (case ft_entry_from_xdr T bytes of
        Inl e \<Rightarrow> Err (ObservationFailed (''state value did not decode: '' @ e))
      | Inr entry \<Rightarrow> Ok entry)"

definition retain_other :: "fuzz_tools \<Rightarrow> ledger_key \<Rightarrow> ledger_entry list \<Rightarrow> ledger_entry list" where
  "retain_other T key = filter (\<lambda>e. ft_to_key T e \<noteq> key)"

definition apply_delta_entry ::
  "fuzz_tools \<Rightarrow> sequence_state \<Rightarrow> state_entry \<Rightarrow> (sequence_state, fuzz_error) result" where
  "apply_delta_entry T out entry =
     (if se_change entry = StateUnchanged then Ok out
      else case ft_key_from_xdr T (se_key_xdr entry) of
        Inl e \<Rightarrow> Err (ObservationFailed (''state key did not decode: '' @ e))
      | Inr key \<Rightarrow>
          (case key of
             KeyContractCode _ \<Rightarrow> Ok out
           | KeyContractData _ k _ \<Rightarrow>
               if k = VLedgerKeyContractInstance then
                 (case se_value_xdr entry of
                    Some value_xdr \<Rightarrow>
                      map_ok (\<lambda>updated. case ent_data updated of
                          ContractData _ _ _ (VContractInstance _ m) \<Rightarrow>
                            out \<lparr>sq_instance_storage := read_storage_map m\<rparr>
                        | _ \<Rightarrow> out) (decode_entry T value_xdr)
                  | None \<Rightarrow> Ok (out \<lparr>sq_instance_storage := []\<rparr>))
               else if is_nonce k then Ok out
               else
                 (let kept = out \<lparr>sq_data_entries := retain_other T key (sq_data_entries out)\<rparr> in
                  case se_value_xdr entry of
                    Some value_xdr \<Rightarrow>
                      map_ok (\<lambda>e. kept \<lparr>sq_data_entries := sq_data_entries kept @ [e]\<rparr>)
                        (decode_entry T value_xdr)
                  | None \<Rightarrow> Ok kept)
           | KeyOther _ \<Rightarrow> Ok out))"

definition apply_state_delta ::
  "fuzz_tools \<Rightarrow> sequence_state \<Rightarrow> observation \<Rightarrow> (sequence_state, fuzz_error) result" where
  "apply_state_delta T st obs = try_fold (apply_delta_entry T) st (obs_state obs)"

section \<open>Running a sequence\<close>

record step_observation =
  so_step_index :: nat
  so_function :: string
  so_observation :: observation

record sequence_run =
  sr_case_id :: string
  sr_steps :: "step_observation list"
  sr_final_observation :: observation
  sr_state :: sequence_state

definition run_step ::
  "fuzz_tools \<Rightarrow> environment \<Rightarrow> string \<Rightarrow> string list list \<Rightarrow>
   sequence_state \<times> step_observation list \<Rightarrow> nat \<times> function_call \<Rightarrow>
   (sequence_state \<times> step_observation list, fuzz_error) result" where
  "run_step T environment case_id auth_per_step = (\<lambda>(st, observed) (i, call).
     let c = with_instance_storage
               (executor_case T (case_id @ ''/step'' @ show_nat i) call (sq_data_entries st))
               (sq_instance_storage st)
     in and_then (if i < length auth_per_step
                  then execute_with_auth T c environment (auth_per_step ! i)
                  else execute_with T c environment) (\<lambda>obs.
        and_then (apply_state_delta T st obs) (\<lambda>st'.
          Ok (st', observed @ [\<lparr>so_step_index = i, so_function = fc_function call, so_observation = obs\<rparr>]))))"

definition execute_sequence_auth ::
  "fuzz_tools \<Rightarrow> ledger_entry list \<Rightarrow> environment \<Rightarrow> function_call list \<Rightarrow> string \<Rightarrow> string list list \<Rightarrow>
   (sequence_run, fuzz_error) result" where
  "execute_sequence_auth T baseline environment steps case_id auth_per_step =
     (if steps = [] then Err (InvalidConfig ''sequence must contain at least one step'')
      else
        and_then (from_baseline baseline) (\<lambda>state.
        and_then (try_fold (run_step T environment case_id auth_per_step) (state, []) (enumerate 0 steps))
          (\<lambda>(state', observed).
        and_then (unwrap (if observed = [] then None else Some (so_observation (last observed)))) (\<lambda>final.
          Ok \<lparr>sr_case_id = case_id, sr_steps = observed, sr_final_observation = final, sr_state = state'\<rparr>))))"

definition execute_sequence ::
  "fuzz_tools \<Rightarrow> ledger_entry list \<Rightarrow> environment \<Rightarrow> function_call list \<Rightarrow> string \<Rightarrow>
   (sequence_run, fuzz_error) result" where
  "execute_sequence T baseline environment steps case_id =
     execute_sequence_auth T baseline environment steps case_id []"

section \<open>Chaining RPC state changes\<close>

datatype chain_error =
    UnsupportedKey string
  | UnsupportedEntry string
  | KeyMismatch string
  | BaselineMismatch string string string

fun chain_error_display :: "chain_error \<Rightarrow> string" where
  "chain_error_display (UnsupportedKey k) =
     ''stateChanges row key '' @ k @ '' is not contract-data state the sequence can carry''"
| "chain_error_display (UnsupportedEntry k) =
     ''stateChanges row '' @ k @ '' is not a contract-data entry the sequence can carry''"
| "chain_error_display (KeyMismatch k) =
     ''stateChanges row '' @ k @ '' decodes to a different key than reported''"
| "chain_error_display (BaselineMismatch k kind detail) =
     ''stateChanges '' @ kind @ '' row '' @ k @ '' is inconsistent with the baseline: '' @ detail"

definition is_contract_data :: "ledger_entry \<Rightarrow> bool" where
  "is_contract_data e = (case ent_data e of ContractData _ _ _ _ \<Rightarrow> True | _ \<Rightarrow> False)"

text \<open>The \<^verbatim>\<open>after\<close> value of a row that creates or updates its key.\<close>

definition row_after ::
  "fuzz_tools \<Rightarrow> ledger_key \<Rightarrow> decoded_state_change \<Rightarrow> (ledger_entry, chain_error) result" where
  "row_after T key change =
     and_then (ok_or (UnsupportedEntry (sx_key_b64 change)) (sx_after change)) (\<lambda>after.
       if ft_to_key T after \<noteq> key then Err (KeyMismatch (sx_key_b64 change))
       else if \<not> is_contract_data after then Err (UnsupportedEntry (sx_key_b64 change))
       else Ok after)"

text \<open>The checks of the \<^verbatim>\<open>before\<close> value of a row that updates or deletes its key.\<close>

definition row_before ::
  "fuzz_tools \<Rightarrow> ledger_key \<Rightarrow> string \<Rightarrow> ledger_entry option \<Rightarrow> decoded_state_change \<Rightarrow> (unit, chain_error) result" where
  "row_before T key kind baseline_entry change =
     and_then (ok_or (BaselineMismatch (sx_key_b64 change) kind ''key does not exist in the baseline'')
                 baseline_entry) (\<lambda>held.
     and_then (ok_or (BaselineMismatch (sx_key_b64 change) kind (kind @ '' row carries no before value''))
                 (sx_before change)) (\<lambda>before.
       if ft_to_key T before \<noteq> key then
         Err (BaselineMismatch (sx_key_b64 change) kind
                ''before value decodes to a different key than reported'')
       else if before \<noteq> held then
         Err (BaselineMismatch (sx_key_b64 change) kind ''before value does not match the baseline entry'')
       else Ok ()))"

definition chain_row ::
  "fuzz_tools \<Rightarrow> sequence_state \<Rightarrow> decoded_state_change \<Rightarrow> (sequence_state, chain_error) result" where
  "chain_row T out change =
     (case ft_key_from_base64 T (sx_key_b64 change) of
        Inl _ \<Rightarrow> Err (UnsupportedKey (sx_key_b64 change))
      | Inr key \<Rightarrow>
          if is_executor_owned_key key then Ok out
          else (case key of
             KeyContractData _ _ _ \<Rightarrow>
               (let held = find (\<lambda>e. ft_to_key T e = key) (sq_data_entries out);
                    kept = retain_other T key (sq_data_entries out)
                in case sx_kind change of
                  RowCreated \<Rightarrow>
                    if held \<noteq> None then
                      Err (BaselineMismatch (sx_key_b64 change) ''created''
                             ''key already exists in the baseline'')
                    else map_ok (\<lambda>after. out \<lparr>sq_data_entries := sq_data_entries out @ [after]\<rparr>)
                           (row_after T key change)
                | RowUpdated \<Rightarrow>
                    and_then (row_before T key ''updated'' held change) (\<lambda>_.
                      map_ok (\<lambda>after. out \<lparr>sq_data_entries := kept @ [after]\<rparr>) (row_after T key change))
                | RowDeleted \<Rightarrow>
                    map_ok (\<lambda>_. out \<lparr>sq_data_entries := kept\<rparr>)
                      (row_before T key ''deleted'' held change))
           | _ \<Rightarrow> Err (UnsupportedKey (sx_key_b64 change))))"

definition state_changes_into_sequence_state ::
  "fuzz_tools \<Rightarrow> sequence_state \<Rightarrow> decoded_state_change list \<Rightarrow> (sequence_state, chain_error) result" where
  "state_changes_into_sequence_state T baseline changes = try_fold (chain_row T) baseline changes"

text \<open>Running a sequence on the state a simulation left.\<close>

definition execute_sequence_from_simulation ::
  "fuzz_tools \<Rightarrow> sequence_state \<Rightarrow> json list \<Rightarrow> environment \<Rightarrow>
   function_call list \<Rightarrow> string \<Rightarrow> string list list \<Rightarrow> (sequence_run, fuzz_error) result" where
  "execute_sequence_from_simulation T baseline state_changes environment steps case_id auth_per_step =
     (if sq_instance_storage baseline \<noteq> [] then
        baseline_error (''execute_sequence_from_simulation cannot seed instance storage: the '' @
          ''baseline carries '' @ show_nat (length (sq_instance_storage baseline)) @
          '' instance-storage entries, but the sequence API accepts a plain entry baseline and '' @
          ''this wrapper will not silently drop them'')
      else if auth_per_step \<noteq> [] \<and> length auth_per_step \<noteq> length steps then
        Err (InvalidSetup (AuthStepLengthMismatch (length auth_per_step) (length steps)))
      else
        and_then (map_err (\<lambda>e. ObservationFailed (''stateChanges decode failed: '' @ decode_error_display T e))
                    (decode_simulate_state_changes T state_changes)) (\<lambda>changes.
        and_then (map_err (\<lambda>e. InvalidSetup (BaselineEntry
                    (''stateChanges are inconsistent with the baseline: '' @ chain_error_display e)))
                    (state_changes_into_sequence_state T baseline changes)) (\<lambda>chained.
          execute_sequence_auth T (sq_data_entries chained) environment steps case_id auth_per_step)))"

section \<open>What is relied on of the host\<close>

text \<open>The key of an entry, as the XDR crate defines it; encoding and decoding are inverse; a run
  reports every key at most once, with values of that key, and contract data of the campaign's
  contract only.\<close>

definition key_laws :: "fuzz_tools \<Rightarrow> bool" where
  "key_laws T \<longleftrightarrow>
     (\<forall>e. case ent_data e of
        ContractData c k d _ \<Rightarrow> ft_to_key T e = KeyContractData c k d
      | _ \<Rightarrow> (\<forall>c k d. ft_to_key T e \<noteq> KeyContractData c k d))"

definition xdr_roundtrip :: "fuzz_tools \<Rightarrow> bool" where
  "xdr_roundtrip T \<longleftrightarrow>
     (\<forall>k. ft_key_from_xdr T (ft_key_xdr T k) = Inr k) \<and>
     (\<forall>e. ft_entry_from_xdr T (ft_entry_xdr T e) = Inr e)"

definition reported_change :: "fuzz_tools \<Rightarrow> ledger_entry_change \<Rightarrow> bool" where
  "reported_change T c \<longleftrightarrow>
     (\<exists>k. lc_encoded_key c = ft_key_xdr T k \<and>
        (\<forall>owner key d. k = KeyContractData owner key d \<longrightarrow> owner = ft_contract_id T) \<and>
        (\<forall>v. lc_encoded_new_value c = Some v \<longrightarrow> (\<exists>e. v = ft_entry_xdr T e \<and> ft_to_key T e = k)))"

definition host_laws :: "fuzz_tools \<Rightarrow> bool" where
  "host_laws T \<longleftrightarrow> key_laws T \<and> xdr_roundtrip T \<and>
     (\<forall>budget info live inst data call auth res. ft_invoke T budget info live inst data call auth = Ok res \<longrightarrow>
        distinct (map lc_encoded_key (hr_ledger_changes res)) \<and>
        (\<forall>c \<in> set (hr_ledger_changes res). reported_change T c))"

text \<open>The ledger a carried state stands for, and the states the executor accepts.\<close>

definition data_map :: "fuzz_tools \<Rightarrow> sequence_state \<Rightarrow> ledger_key \<rightharpoonup> ledger_entry" where
  "data_map T st = map_of (map (\<lambda>e. (ft_to_key T e, e)) (sq_data_entries st))"

definition carried_ok :: "fuzz_tools \<Rightarrow> sequence_state \<Rightarrow> bool" where
  "carried_ok T st \<longleftrightarrow> distinct (map (ft_to_key T) (sq_data_entries st)) \<and>
     list_all (\<lambda>e. check_baseline_entry (ft_contract_id T) e = Ok e) (sq_data_entries st)"

definition storage_key :: "ledger_key \<Rightarrow> bool" where
  "storage_key key = (case key of KeyContractData _ k _ \<Rightarrow> k \<noteq> VLedgerKeyContractInstance \<and> \<not> is_nonce k | _ \<Rightarrow> False)"

lemma storage_key_owned: "storage_key k \<longleftrightarrow> \<not> is_executor_owned_key k \<and> (\<exists>c v d. k = KeyContractData c v d)"
  by (cases k) (auto simp: storage_key_def is_executor_owned_key_def)

lemma check_baseline_entry_Ok:
  "check_baseline_entry contract e = Ok e \<longleftrightarrow>
     (\<exists>k d v. ent_data e = ContractData contract k d v \<and> k \<noteq> VLedgerKeyContractInstance)"
  by (auto simp: check_baseline_entry_def baseline_error_def split: ledger_data.splits)

lemma entry_of_key:
  assumes "key_laws T" and "ft_to_key T e = KeyContractData c k d"
  shows "\<exists>v. ent_data e = ContractData c k d v"
  using assms unfolding key_laws_def by (cases "ent_data e") (auto dest!: spec [of _ e])

lemma storage_entry_accepted:
  assumes "key_laws T" and "storage_key (ft_to_key T e)"
    and "\<And>c k d. ft_to_key T e = KeyContractData c k d \<Longrightarrow> c = ft_contract_id T"
  shows "check_baseline_entry (ft_contract_id T) e = Ok e"
proof -
  from assms(2) obtain c k d where k: "ft_to_key T e = KeyContractData c k d" "k \<noteq> VLedgerKeyContractInstance"
    by (auto simp: storage_key_def split: ledger_key.splits)
  with entry_of_key [OF assms(1) k(1)] assms(3) show ?thesis by (auto simp: check_baseline_entry_Ok)
qed

text \<open>Replacing the entry of a key is updating the ledger.\<close>

lemma map_of_retain:
  "map_of (map (\<lambda>e. (ft_to_key T e, e)) (retain_other T key es)) k =
     (if k = key then None else map_of (map (\<lambda>e. (ft_to_key T e, e)) es) k)"
  by (induction es) (auto simp: retain_other_def)

lemma data_map_retain:
  "data_map T (st \<lparr>sq_data_entries := retain_other T key (sq_data_entries st)\<rparr>) = (data_map T st)(key := None)"
  by (rule ext) (simp add: data_map_def map_of_retain)

lemma data_map_replace:
  "ft_to_key T e = key \<Longrightarrow>
   data_map T (st \<lparr>sq_data_entries := retain_other T key (sq_data_entries st) @ [e]\<rparr>) = (data_map T st)(key \<mapsto> e)"
  by (rule ext) (auto simp: data_map_def map_add_def map_of_retain split: option.split)

lemma carried_ok_retain:
  "carried_ok T st \<Longrightarrow> carried_ok T (st \<lparr>sq_data_entries := retain_other T key (sq_data_entries st)\<rparr>)"
  by (auto simp: carried_ok_def retain_other_def list_all_iff distinct_map intro: inj_on_subset)

lemma carried_ok_replace:
  assumes "carried_ok T st" and "ft_to_key T e = key" and "check_baseline_entry (ft_contract_id T) e = Ok e"
  shows "carried_ok T (st \<lparr>sq_data_entries := retain_other T key (sq_data_entries st) @ [e]\<rparr>)"
  using carried_ok_retain [OF assms(1), of key] assms(2,3)
  by (auto simp: carried_ok_def list_all_iff retain_other_def)

lemma carried_ok_instance [simp]:
  "carried_ok T (st \<lparr>sq_instance_storage := m\<rparr>) = carried_ok T st"
  "data_map T (st \<lparr>sq_instance_storage := m\<rparr>) = data_map T st"
  by (simp_all add: carried_ok_def data_map_def)

text \<open>The effect of one entry of an observation: no error, and the ledger is updated at its key.\<close>

definition entry_value :: "fuzz_tools \<Rightarrow> state_entry \<Rightarrow> ledger_entry option" where
  "entry_value T entry =
     Option.bind (se_value_xdr entry) (\<lambda>v. case ft_entry_from_xdr T v of Inr e \<Rightarrow> Some e | Inl _ \<Rightarrow> None)"

lemma apply_delta_entry_effect:
  assumes laws: "key_laws T" "xdr_roundtrip T" and ok: "carried_ok T out"
    and key: "se_key_xdr entry = ft_key_xdr T k"
    and owner: "\<And>c key d. k = KeyContractData c key d \<Longrightarrow> c = ft_contract_id T"
    and val: "\<And>v. se_value_xdr entry = Some v \<Longrightarrow> \<exists>e. v = ft_entry_xdr T e \<and> ft_to_key T e = k"
  shows "\<exists>out'. apply_delta_entry T out entry = Ok out' \<and> carried_ok T out' \<and>
     data_map T out' = (if se_change entry \<noteq> StateUnchanged \<and> storage_key k
       then (data_map T out)(k := entry_value T entry) else data_map T out)"
proof (cases "se_change entry = StateUnchanged")
  case True
  then show ?thesis using ok by (simp add: apply_delta_entry_def)
next
  case changed: False
  have dk: "ft_key_from_xdr T (se_key_xdr entry) = Inr k"
    using laws(2) key by (simp add: xdr_roundtrip_def)
  have de: "decode_entry T (ft_entry_xdr T e) = Ok e" "ft_entry_from_xdr T (ft_entry_xdr T e) = Inr e" for e
    using laws(2) by (simp_all add: decode_entry_def xdr_roundtrip_def)
  show ?thesis
  proof (cases "storage_key k")
    case st: True
    then obtain c v d where k: "k = KeyContractData c v d" "v \<noteq> VLedgerKeyContractInstance" "\<not> is_nonce v"
      by (auto simp: storage_key_def split: ledger_key.splits)
    show ?thesis
    proof (cases "se_value_xdr entry")
      case None
      then show ?thesis using changed dk k st ok
        by (simp add: apply_delta_entry_def Let_def carried_ok_retain data_map_retain entry_value_def)
    next
      case (Some x)
      from val [OF Some] obtain e where e: "x = ft_entry_xdr T e" "ft_to_key T e = k" by blast
      have "check_baseline_entry (ft_contract_id T) e = Ok e"
        using storage_entry_accepted [OF laws(1)] st owner e by metis
      then show ?thesis using changed dk k st ok Some e de
        by (simp add: apply_delta_entry_def Let_def carried_ok_replace data_map_replace entry_value_def)
    qed
  next
    case st: False
    have "\<exists>out'. apply_delta_entry T out entry = Ok out' \<and> carried_ok T out' \<and> data_map T out' = data_map T out"
    proof (cases k)
      case (KeyContractData c v d)
      show ?thesis
      proof (cases "se_value_xdr entry")
        case None
        then show ?thesis using changed dk st ok KeyContractData
          by (auto simp: apply_delta_entry_def storage_key_def)
      next
        case (Some x)
        with val obtain e where "x = ft_entry_xdr T e" by blast
        then show ?thesis using changed dk st ok KeyContractData Some de
          by (auto simp: apply_delta_entry_def storage_key_def split: ledger_data.splits sc_val.splits)
      qed
    qed (use changed dk ok in \<open>simp_all add: apply_delta_entry_def\<close>)
    then show ?thesis using st by simp
  qed
qed

text \<open>The effect of a list of entries with different keys.\<close>

definition delta_value :: "fuzz_tools \<Rightarrow> state_entry list \<Rightarrow> (ledger_key \<rightharpoonup> ledger_entry) \<Rightarrow> ledger_key \<rightharpoonup> ledger_entry" where
  "delta_value T entries m k =
     (case find (\<lambda>s. se_key_xdr s = ft_key_xdr T k) entries of
        Some s \<Rightarrow> if se_change s = StateUnchanged then m k else entry_value T s
      | None \<Rightarrow> m k)"

definition reported_entry :: "fuzz_tools \<Rightarrow> state_entry \<Rightarrow> bool" where
  "reported_entry T s \<longleftrightarrow>
     reported_change T \<lparr>lc_encoded_key = se_key_xdr s, lc_encoded_new_value = se_value_xdr s\<rparr>"

lemma key_xdr_inject: "xdr_roundtrip T \<Longrightarrow> ft_key_xdr T k = ft_key_xdr T k' \<longleftrightarrow> k = k'"
  unfolding xdr_roundtrip_def by (metis sum.inject(2))

lemma apply_entries_effect:
  assumes laws: "key_laws T" "xdr_roundtrip T"
  shows "carried_ok T out \<Longrightarrow> distinct (map se_key_xdr entries) \<Longrightarrow> \<forall>s \<in> set entries. reported_entry T s \<Longrightarrow>
    \<exists>out'. try_fold (apply_delta_entry T) out entries = Ok out' \<and> carried_ok T out' \<and>
      (\<forall>k. storage_key k \<longrightarrow> data_map T out' k = delta_value T entries (data_map T out) k)"
proof (induction entries arbitrary: out)
  case Nil
  then show ?case by (simp add: delta_value_def)
next
  case (Cons s entries)
  from Cons.prems(3) obtain k where k: "se_key_xdr s = ft_key_xdr T k"
    and o: "\<And>c key d. k = KeyContractData c key d \<Longrightarrow> c = ft_contract_id T"
    and v: "\<And>v. se_value_xdr s = Some v \<Longrightarrow> \<exists>e. v = ft_entry_xdr T e \<and> ft_to_key T e = k"
    by (auto simp: reported_entry_def reported_change_def)
  have "\<exists>out'. apply_delta_entry T out s = Ok out' \<and> carried_ok T out' \<and>
     data_map T out' = (if se_change s \<noteq> StateUnchanged \<and> storage_key k
       then (data_map T out)(k := entry_value T s) else data_map T out)"
    by (rule apply_delta_entry_effect [OF laws Cons.prems(1) k]) (use o v in blast)+
  then obtain out1
    where s1: "apply_delta_entry T out s = Ok out1" "carried_ok T out1"
      "data_map T out1 = (if se_change s \<noteq> StateUnchanged \<and> storage_key k
         then (data_map T out)(k := entry_value T s) else data_map T out)" by blast
  from Cons.IH [OF s1(2)] Cons.prems obtain out'
    where s2: "try_fold (apply_delta_entry T) out1 entries = Ok out'" "carried_ok T out'"
      "\<forall>k. storage_key k \<longrightarrow> data_map T out' k = delta_value T entries (data_map T out1) k" by auto
  have "delta_value T entries (data_map T out1) k' = delta_value T (s # entries) (data_map T out) k'"
    if "storage_key k'" for k'
  proof (cases "k' = k")
    case True
    have "find (\<lambda>s. se_key_xdr s = ft_key_xdr T k) entries = None"
      using Cons.prems(2) k by (force simp: find_None_iff)
    then show ?thesis using True that s1(3) k by (simp add: delta_value_def)
  next
    case False
    then have "se_key_xdr s \<noteq> ft_key_xdr T k'" using k key_xdr_inject [OF laws(2)] by auto
    then show ?thesis using False s1(3) by (simp add: delta_value_def split: option.split)
  qed
  with s1 s2 show ?case by auto
qed

section \<open>A step carries the host's ledger\<close>

text \<open>The ledger after a run: the reported values, and the old ones elsewhere.\<close>

definition host_post :: "fuzz_tools \<Rightarrow> host_result \<Rightarrow> (ledger_key \<rightharpoonup> ledger_entry) \<Rightarrow> ledger_key \<rightharpoonup> ledger_entry" where
  "host_post T res m k =
     (case find (\<lambda>c. lc_encoded_key c = ft_key_xdr T k) (hr_ledger_changes res) of
        None \<Rightarrow> m k
      | Some c \<Rightarrow> Option.bind (lc_encoded_new_value c) (\<lambda>v. case ft_entry_from_xdr T v of Inr e \<Rightarrow> Some e | Inl _ \<Rightarrow> None))"

lemma entry_xdr_inject: "xdr_roundtrip T \<Longrightarrow> ft_entry_xdr T e = ft_entry_xdr T e' \<longleftrightarrow> e = e'"
  unfolding xdr_roundtrip_def by (metis sum.inject(2))

lemma find_map_distinct:
  assumes "distinct (map f xs)" and "x \<in> set xs"
  shows "find (\<lambda>y. f y = f x) xs = Some x"
  using assms by (induction xs) (auto simp: image_iff)

lemma find_map_option: "find P (map f xs) = map_option f (find (\<lambda>x. P (f x)) xs)"
  by (induction xs) simp_all

lemma find_key_sort:
  assumes "distinct (map f xs)"
  shows "find (\<lambda>y. f y = k) (sort_key g xs) = find (\<lambda>y. f y = k) xs"
proof (cases "find (\<lambda>y. f y = k) xs")
  case None
  then have "find (\<lambda>y. f y = k) (sort_key g xs) = None" by (auto simp: find_None_iff)
  with None show ?thesis by simp
next
  case (Some x)
  then have "x \<in> set xs" "f x = k" by (auto simp: find_Some_iff)
  moreover have "distinct (map f (sort_key g xs))"
    using assms by (simp add: distinct_map distinct_sort)
  ultimately show ?thesis using find_map_distinct [of f "sort_key g xs" x] find_map_distinct [OF assms, of x] by simp
qed

lemma baseline_map_get:
  assumes "xdr_roundtrip T" and "distinct (map (ft_to_key T) es)"
  shows "bt_get (baseline_map T es) (ft_key_xdr T k) =
    map_option (ft_entry_xdr T) (map_of (map (\<lambda>e. (ft_to_key T e, e)) es) k)"
proof -
  have inj: "inj (ft_key_xdr T)" using key_xdr_inject [OF assms(1)] by (auto intro: injI)
  let ?ps = "map (\<lambda>e. (ft_key_xdr T (ft_to_key T e), ft_entry_xdr T e)) es"
  have "distinct (map fst ?ps)"
    using assms(2) inj by (simp add: comp_def distinct_map inj_on_def)
  then have "bt_get (baseline_map T es) (ft_key_xdr T k) = map_of ?ps (ft_key_xdr T k)"
    unfolding baseline_map_def by (rule bt.lookup_collect_distinct)
  also have "\<dots> = map_option (ft_entry_xdr T) (map_of (map (\<lambda>e. (ft_to_key T e, e)) es) k)"
    by (induction es) (auto simp: inj_eq [OF inj])
  finally show ?thesis .
qed

lemma footprint_delta:
  assumes T: "xdr_roundtrip T" and d: "distinct (map (ft_to_key T) (inst # sq_data_entries st))"
    and dk: "distinct (map lc_encoded_key (hr_ledger_changes res))"
    and rep: "\<forall>c \<in> set (hr_ledger_changes res). reported_change T c"
    and k: "k \<noteq> ft_to_key T inst"
  shows "delta_value T (state_entries_from_footprint (hr_ledger_changes res)
      (baseline_map T (inst # sq_data_entries st))) (data_map T st) k = host_post T res (data_map T st) k"
proof -
  let ?bm = "baseline_map T (inst # sq_data_entries st)"
  define row where "row = (\<lambda>c. \<lparr>se_key_xdr = lc_encoded_key c, se_value_xdr = lc_encoded_new_value c,
    se_change = footprint_change ?bm c\<rparr>)"
  have key [simp]: "se_key_xdr (row c) = lc_encoded_key c" for c by (simp add: row_def)
  have rows: "state_entries_from_footprint (hr_ledger_changes res) ?bm =
      sort_key se_key_xdr (map row (hr_ledger_changes res))"
    by (simp add: state_entries_from_footprint_def row_def)
  have "distinct (map se_key_xdr (map row (hr_ledger_changes res)))" using dk by (simp add: comp_def)
  then have "find (\<lambda>s. se_key_xdr s = ft_key_xdr T k) (state_entries_from_footprint (hr_ledger_changes res) ?bm) =
      find (\<lambda>s. se_key_xdr s = ft_key_xdr T k) (map row (hr_ledger_changes res))"
    unfolding rows by (rule find_key_sort)
  also have "\<dots> = map_option row (find (\<lambda>c. lc_encoded_key c = ft_key_xdr T k) (hr_ledger_changes res))"
    using find_map_option [of "\<lambda>s. se_key_xdr s = ft_key_xdr T k" row] by simp
  finally have f: "find (\<lambda>s. se_key_xdr s = ft_key_xdr T k) (state_entries_from_footprint (hr_ledger_changes res) ?bm) =
      map_option row (find (\<lambda>c. lc_encoded_key c = ft_key_xdr T k) (hr_ledger_changes res))" .
  have held: "bt_get ?bm (ft_key_xdr T k) = map_option (ft_entry_xdr T) (data_map T st k)"
    using baseline_map_get [OF T d, of k] k by (simp add: data_map_def)
  show ?thesis
  proof (cases "find (\<lambda>c. lc_encoded_key c = ft_key_xdr T k) (hr_ledger_changes res)")
    case None
    then show ?thesis by (simp add: delta_value_def host_post_def f)
  next
    case (Some c)
    then have c: "c \<in> set (hr_ledger_changes res)" "lc_encoded_key c = ft_key_xdr T k"
      by (auto simp: find_Some_iff)
    have val: "entry_value T (row c) = host_post T res (data_map T st) k"
      using Some by (simp add: entry_value_def row_def host_post_def)
    have "host_post T res (data_map T st) k = data_map T st k" if un: "footprint_change ?bm c = StateUnchanged"
    proof (cases "lc_encoded_new_value c")
      case None
      then show ?thesis using un held c Some
        by (auto simp: footprint_change_def host_post_def split: option.splits)
    next
      case (Some v)
      with rep c(1) obtain e where e: "v = ft_entry_xdr T e" unfolding reported_change_def by blast
      from un held c(2) Some e have "data_map T st k = Some e"
        by (auto simp: footprint_change_def entry_xdr_inject [OF T] split: option.splits if_splits)
      then show ?thesis using \<open>find _ _ = Some c\<close> Some e T by (simp add: host_post_def xdr_roundtrip_def)
    qed
    then show ?thesis using Some val by (simp add: delta_value_def f row_def)
  qed
qed

text \<open>The executor accepts a carried state.\<close>

lemma carried_accepted:
  assumes "key_laws T" and "carried_ok T st" and "\<And>c k d. ft_to_key T inst = KeyContractData c k d \<Longrightarrow> k = VLedgerKeyContractInstance"
  shows "try_map (check_baseline_entry (ft_contract_id T)) (sq_data_entries st) = Ok (sq_data_entries st)"
    "\<exists>ks. try_fold (push_footprint_key T) [ft_to_key T inst] (sq_data_entries st) = Ok ks"
    "distinct (map (ft_to_key T) (inst # sq_data_entries st))"
proof -
  show "try_map (check_baseline_entry (ft_contract_id T)) (sq_data_entries st) = Ok (sq_data_entries st)"
    using assms(2) by (simp add: try_map_Ok_iff list_all2_same carried_ok_def list_all_iff)
  have "ft_to_key T inst \<noteq> ft_to_key T e" if "e \<in> set (sq_data_entries st)" for e
  proof -
    from assms(2) that have "check_baseline_entry (ft_contract_id T) e = Ok e"
      by (simp add: carried_ok_def list_all_iff)
    then obtain k d v where e: "ent_data e = ContractData (ft_contract_id T) k d v" "k \<noteq> VLedgerKeyContractInstance"
      by (auto simp: check_baseline_entry_Ok)
    from assms(1) e(1) have "ft_to_key T e = KeyContractData (ft_contract_id T) k d"
      unfolding key_laws_def by (auto dest!: spec [of _ e])
    then show ?thesis using assms(3) e(2) by metis
  qed
  then show d: "distinct (map (ft_to_key T) (inst # sq_data_entries st))"
    using assms(2) by (auto simp: carried_ok_def)
  have "distinct (ks @ map (ft_to_key T) es) \<Longrightarrow> try_fold (push_footprint_key T) ks es = Ok (ks @ map (ft_to_key T) es)" for ks es
    by (induction es arbitrary: ks) (auto simp: push_footprint_key_def Let_def)
  from this [of "[ft_to_key T inst]" "sq_data_entries st"] d
  show "\<exists>ks. try_fold (push_footprint_key T) [ft_to_key T inst] (sq_data_entries st) = Ok ks" by auto
qed

lemma instance_entry_key:
  "key_laws T \<Longrightarrow> ft_to_key T (instance_entry T contract m) = KeyContractData contract VLedgerKeyContractInstance Persistent"
  unfolding key_laws_def by (auto dest!: spec [of _ "instance_entry T contract m"] simp: instance_entry_def Let_def)

definition step_instance :: "fuzz_tools \<Rightarrow> sequence_state \<Rightarrow> ledger_entry" where
  "step_instance T st = instance_entry T (ft_contract_id T) (sq_instance_storage st)"

definition step_auth :: "string list list \<Rightarrow> nat \<Rightarrow> string list" where
  "step_auth auths i = (if i < length auths then auths ! i else [])"

text \<open>What a run reports of a step, when the host can run it at all.\<close>

lemma run_step_cases:
  assumes laws: "host_laws T" and ok: "carried_ok T st"
  shows "case and_then (make_budget (ft_budgets T) env) (\<lambda>b.
      invoke_contract T b env (step_instance T st) (sq_data_entries st) call (step_auth auths i)) of
    Ok res \<Rightarrow>
      (case run_step T env case_id auths (st, observed) (i, call) of
         Ok (st', observed') \<Rightarrow> carried_ok T st' \<and> length observed' = Suc (length observed) \<and>
           (\<forall>k. storage_key k \<longrightarrow> data_map T st' k = host_post T res (data_map T st) k)
       | Err e \<Rightarrow> (\<exists>m. e = ObservationFailed m)
       | Panic \<Rightarrow> False)
  | Err e \<Rightarrow> run_step T env case_id auths (st, observed) (i, call) = Err e
  | Panic \<Rightarrow> run_step T env case_id auths (st, observed) (i, call) = Panic"
proof -
  let ?inst = "step_instance T st"
  let ?c = "with_instance_storage (executor_case T (case_id @ ''/step'' @ show_nat i) call (sq_data_entries st))
    (sq_instance_storage st)"
  have kl: "key_laws T" and xr: "xdr_roundtrip T" using laws by (simp_all add: host_laws_def)
  have ik: "ft_to_key T ?inst = KeyContractData (ft_contract_id T) VLedgerKeyContractInstance Persistent"
    using instance_entry_key [OF kl] by (simp add: step_instance_def)
  note acc = carried_accepted [OF kl ok, of ?inst]
  from acc(2) ik obtain ks where ks: "try_fold (push_footprint_key T) [ft_to_key T ?inst] (sq_data_entries st) = Ok ks" by auto
  have exec: "(if i < length auths then execute_with_auth T ?c env (auths ! i) else execute_with T ?c env) =
      execute_with_auth T ?c env (step_auth auths i)" by (simp add: step_auth_def execute_with_def)
  have run: "run_step T env case_id auths (st, observed) (i, call) =
      and_then (execute_with_auth T ?c env (step_auth auths i)) (\<lambda>obs. and_then (apply_state_delta T st obs) (\<lambda>st'.
        Ok (st', observed @ [\<lparr>so_step_index = i, so_function = fc_function call, so_observation = obs\<rparr>])))"
    unfolding run_step_def exec [symmetric] by (simp add: Let_def)
  have body: "execute_with_auth T ?c env (step_auth auths i) =
      and_then (make_budget (ft_budgets T) env) (\<lambda>b.
      and_then (invoke_contract T b env ?inst (sq_data_entries st) call (step_auth auths i)) (\<lambda>res.
      and_then (result_status T (hr_invoke_result res)) (\<lambda>status.
      and_then (decode_events T (hr_events res)) (\<lambda>events.
        Ok \<lparr>obs_case_id = case_id @ ''/step'' @ show_nat i, obs_function = fc_function call, obs_status = status,
            obs_state = state_entries_from_footprint (hr_ledger_changes res) (baseline_map T (?inst # sq_data_entries st)),
            obs_events = events, obs_budget = hr_budget res\<rparr>))))"
    using acc(1) ik ks
    by (simp add: execute_with_auth_def executor_case_def with_instance_storage_def case_instance_def
        step_instance_def)
  show ?thesis
  proof (cases "and_then (make_budget (ft_budgets T) env) (\<lambda>b. invoke_contract T b env ?inst (sq_data_entries st) call (step_auth auths i))")
    case (Ok res)
    then obtain b where inv: "make_budget (ft_budgets T) env = Ok b" "invoke_contract T b env ?inst (sq_data_entries st) call (step_auth auths i) = Ok res" by auto
    have rep: "distinct (map lc_encoded_key (hr_ledger_changes res))" "\<forall>c \<in> set (hr_ledger_changes res). reported_change T c"
      using laws inv(2) unfolding host_laws_def invoke_contract_def by (fastforce split: if_splits)+
    let ?rows = "state_entries_from_footprint (hr_ledger_changes res) (baseline_map T (?inst # sq_data_entries st))"
    have "distinct (map se_key_xdr ?rows)" "\<forall>s \<in> set ?rows. reported_entry T s"
      using rep by (auto simp: state_entries_from_footprint_def reported_entry_def reported_change_def
          distinct_map comp_def inj_on_def distinct_sort)
    from apply_entries_effect [OF kl xr ok this] obtain st' where st': "try_fold (apply_delta_entry T) st ?rows = Ok st'"
      "carried_ok T st'" "\<forall>k. storage_key k \<longrightarrow> data_map T st' k = delta_value T ?rows (data_map T st) k" by blast
    have post: "delta_value T ?rows (data_map T st) k = host_post T res (data_map T st) k" if "storage_key k" for k
      using that ik acc(3) rep by (intro footprint_delta [OF xr]) (auto simp: storage_key_def)
    have status: "result_status T r \<noteq> Panic" "result_status T r = Err e \<Longrightarrow> \<exists>m. e = ObservationFailed m" for r e
      by (auto simp: result_status_def error_type_and_code_def split: sum.splits if_splits)
    have events: "decode_events T es \<noteq> Panic" "decode_events T es = Err e \<Longrightarrow> \<exists>m. e = ObservationFailed m" for es e
    proof -
      show "decode_events T es \<noteq> Panic"
        unfolding decode_events_def by (rule try_map_no_panic) (simp split: sum.split)
      assume "decode_events T es = Err e"
      then obtain x where "(case ft_event_from_xdr T x of
          Inl m \<Rightarrow> Err (ObservationFailed (''event did not decode: '' @ m)) | Inr event \<Rightarrow> Ok event) = Err e"
        unfolding decode_events_def by (blast dest: try_map_Err)
      then show "\<exists>m. e = ObservationFailed m" by (cases "ft_event_from_xdr T x") auto
    qed
    show ?thesis unfolding Ok run body using inv status events st' post
      by (cases "result_status T (hr_invoke_result res)"; cases "decode_events T (hr_events res)")
         (auto simp: apply_state_delta_def)
  qed (use run body in \<open>auto simp: and_then_Err_iff and_then_Panic_iff\<close>)
qed

text \<open>
  C15. State is carried exactly. After a step that ran, the carried contract data is the ledger the
  host left: for every key of the contract's storage the value the host reports for it, and the
  value carried so far where the host reports nothing. The step ran on the carried entries and on
  the instance entry rebuilt from the carried instance storage.
\<close>

theorem step_carries_host_ledger:
  assumes "host_laws T" and "carried_ok T st"
    and "run_step T env case_id auths (st, observed) (i, call) = Ok (st', observed')"
  shows "\<exists>b res. make_budget (ft_budgets T) env = Ok b \<and>
    invoke_contract T b env (step_instance T st) (sq_data_entries st) call (step_auth auths i) = Ok res \<and>
    (\<forall>k. storage_key k \<longrightarrow> data_map T st' k = host_post T res (data_map T st) k)"
proof (cases "and_then (make_budget (ft_budgets T) env) (\<lambda>b.
    invoke_contract T b env (step_instance T st) (sq_data_entries st) call (step_auth auths i))")
  case (Ok res)
  then show ?thesis
    using run_step_cases [OF assms(1,2), where env = env and call = call and auths = auths and i = i and case_id = case_id and observed = observed] assms(3) by auto
qed (use run_step_cases [OF assms(1,2), where env = env and call = call and auths = auths and i = i and case_id = case_id and observed = observed] assms(3) in auto)

text \<open>
  C16. A sequence never trips over its own state. When the executor accepts the baseline, no later
  step is refused by its checks (a foreign, duplicate or instance entry), no step panics, and a
  completed run has one observation per call, with the last one as its result, and a state the
  executor accepts again. The hypotheses on the host are that running a call does not itself report
  a setup error or panic.
\<close>

theorem sequence_accepts_own_state:
  assumes laws: "host_laws T" and base: "from_baseline baseline = Ok st" "carried_ok T st" and steps: "steps \<noteq> []"
    and host: "\<And>b info live inst data call auth e. ft_invoke T b info live inst data call auth \<noteq> Err (InvalidSetup e)"
      "\<And>b info live inst data call auth. ft_invoke T b info live inst data call auth \<noteq> Panic"
  shows "case execute_sequence_auth T baseline env steps case_id auths of
      Ok run \<Rightarrow> carried_ok T (sr_state run) \<and> length (sr_steps run) = length steps \<and>
        sr_final_observation run = so_observation (last (sr_steps run))
    | Err e \<Rightarrow> \<forall>x. e \<noteq> InvalidSetup x
    | Panic \<Rightarrow> False"
proof -
  have fold: "case try_fold (run_step T env case_id auths) (st0, observed) (enumerate n calls) of
      Ok (st', observed') \<Rightarrow> carried_ok T st' \<and> length observed' = length observed + length calls
    | Err e \<Rightarrow> \<forall>x. e \<noteq> InvalidSetup x
    | Panic \<Rightarrow> False" if "carried_ok T st0" for st0 observed n calls
    using that
  proof (induction calls arbitrary: st0 observed n)
    case (Cons call calls)
    let ?inv = "and_then (make_budget (ft_budgets T) env) (\<lambda>b.
      invoke_contract T b env (step_instance T st0) (sq_data_entries st0) call (step_auth auths n))"
    note step = run_step_cases [OF laws Cons.prems, where env = env and call = call and auths = auths and i = n and case_id = case_id
      and observed = observed]
    have "?inv \<noteq> Panic" "\<And>x. ?inv \<noteq> Err (InvalidSetup x)"
      using host make_budget_outcome [of "ft_budgets T" env]
      by (auto simp: and_then_Panic_iff and_then_Err_iff invoke_contract_def split: if_splits)
    then have step': "case run_step T env case_id auths (st0, observed) (n, call) of
        Ok (st', observed') \<Rightarrow> carried_ok T st' \<and> length observed' = Suc (length observed)
      | Err e \<Rightarrow> \<forall>x. e \<noteq> InvalidSetup x
      | Panic \<Rightarrow> False"
      using step by (cases ?inv) (auto split: result.splits)
    show ?case
    proof (cases "run_step T env case_id auths (st0, observed) (n, call)")
      case (Ok p)
      obtain st1 observed1 where p: "p = (st1, observed1)" by (cases p)
      from step' Ok p have "carried_ok T st1" "length observed1 = Suc (length observed)" by auto
      then show ?thesis using Cons.IH [of st1 observed1 "Suc n"] Ok p
        by (auto split: result.splits)
    qed (use step' in auto)
  qed simp
  from fold [OF base(2), where observed = "[]" and n = 0 and calls = steps] steps show ?thesis
    using base(1) by (auto simp: execute_sequence_auth_def split: result.splits prod.splits)
qed

section \<open>Chaining replays the rows\<close>

text \<open>The effect of a row on the ledger, and when it is consistent with it.\<close>

definition row_effect :: "fuzz_tools \<Rightarrow> (ledger_key \<rightharpoonup> ledger_entry) \<Rightarrow> decoded_state_change \<Rightarrow> ledger_key \<rightharpoonup> ledger_entry" where
  "row_effect T m row =
     (case ft_key_from_base64 T (sx_key_b64 row) of
        Inl _ \<Rightarrow> m
      | Inr key \<Rightarrow> if is_executor_owned_key key then m
                 else m(key := (if sx_kind row = RowDeleted then None else sx_after row)))"

definition row_ok :: "fuzz_tools \<Rightarrow> (ledger_key \<rightharpoonup> ledger_entry) \<Rightarrow> decoded_state_change \<Rightarrow> bool" where
  "row_ok T m row \<longleftrightarrow>
     (\<exists>key. ft_key_from_base64 T (sx_key_b64 row) = Inr key \<and>
       (is_executor_owned_key key \<or> storage_key key \<and>
         (sx_kind row = RowCreated \<longrightarrow> m key = None) \<and>
         (sx_kind row \<noteq> RowCreated \<longrightarrow> m key \<noteq> None \<and> sx_before row = m key) \<and>
         (sx_kind row \<noteq> RowDeleted \<longrightarrow>
            (\<exists>e. sx_after row = Some e \<and> ft_to_key T e = key \<and> is_contract_data e))))"

fun rows_ok :: "fuzz_tools \<Rightarrow> (ledger_key \<rightharpoonup> ledger_entry) \<Rightarrow> decoded_state_change list \<Rightarrow> bool" where
  "rows_ok T m [] = True"
| "rows_ok T m (row # rows) = (row_ok T m row \<and> rows_ok T (row_effect T m row) rows)"

lemma find_data_map: "find (\<lambda>e. ft_to_key T e = key) (sq_data_entries st) = data_map T st key"
proof -
  have "find (\<lambda>e. ft_to_key T e = key) es = map_of (map (\<lambda>e. (ft_to_key T e, e)) es) key" for es
    by (induction es) auto
  then show ?thesis by (simp add: data_map_def)
qed

lemma data_map_key: "data_map T st key = Some e \<Longrightarrow> ft_to_key T e = key"
  unfolding find_data_map [symmetric] by (auto simp: find_Some_iff)

lemma data_map_push:
  "data_map T st (ft_to_key T e) = None \<Longrightarrow>
   data_map T (st \<lparr>sq_data_entries := sq_data_entries st @ [e]\<rparr>) = (data_map T st)(ft_to_key T e \<mapsto> e)"
  by (rule ext) (auto simp: data_map_def map_add_def split: option.split)

lemma row_after_cases:
  obtains (good) e where "row_after T key row = Ok e" "sx_after row = Some e" "ft_to_key T e = key" "is_contract_data e"
  | (bad) x where "row_after T key row = Err x" "\<nexists>e. sx_after row = Some e \<and> ft_to_key T e = key \<and> is_contract_data e"
proof (cases "sx_after row")
  case None
  then show ?thesis by (intro bad) (simp_all add: row_after_def)
next
  case (Some e)
  then show ?thesis
  proof (cases "ft_to_key T e = key \<and> is_contract_data e")
    case True
    then show ?thesis using Some by (intro good) (auto simp: row_after_def)
  next
    case False
    then have "\<exists>x. row_after T key row = Err x" using Some by (auto simp: row_after_def)
    then show ?thesis using False Some bad by auto
  qed
qed

lemma row_before_cases:
  obtains (good) "row_before T key kind (data_map T st key) row = Ok ()" "data_map T st key \<noteq> None" "sx_before row = data_map T st key"
  | (bad) x where "row_before T key kind (data_map T st key) row = Err x" "\<not> (data_map T st key \<noteq> None \<and> sx_before row = data_map T st key)"
proof (cases "data_map T st key \<noteq> None \<and> sx_before row = data_map T st key")
  case True
  then show ?thesis using data_map_key [of T st key] by (intro good) (auto simp: row_before_def)
next
  case False
  then have "\<exists>x. row_before T key kind (data_map T st key) row = Err x"
    by (cases "data_map T st key"; cases "sx_before row") (auto simp: row_before_def)
  then show ?thesis using False bad by blast
qed

lemma chain_row_cases:
  "case chain_row T st row of
     Ok st' \<Rightarrow> row_ok T (data_map T st) row \<and> data_map T st' = row_effect T (data_map T st) row \<and>
       sq_instance_storage st' = sq_instance_storage st
   | Err _ \<Rightarrow> \<not> row_ok T (data_map T st) row
   | Panic \<Rightarrow> False"
proof (cases "ft_key_from_base64 T (sx_key_b64 row)")
  case (Inl e)
  then show ?thesis by (simp add: chain_row_def row_ok_def)
next
  case (Inr key)
  show ?thesis
  proof (cases "storage_key key")
    case True
    then obtain c k d where key: "key = KeyContractData c k d" and no: "\<not> is_executor_owned_key key"
      by (auto simp: storage_key_owned)
    show ?thesis
    proof (cases "sx_kind row")
      case RowCreated
      show ?thesis using RowCreated Inr True key no
        by (cases rule: row_after_cases [of T key row])
           (auto simp: chain_row_def Let_def find_data_map row_ok_def row_effect_def data_map_push)
    next
      case RowUpdated
      show ?thesis using RowUpdated Inr True key no
        by (cases rule: row_after_cases [of T key row]; cases rule: row_before_cases [of T key "''updated''" st row])
           (auto simp: chain_row_def Let_def find_data_map row_ok_def row_effect_def data_map_replace)
    next
      case RowDeleted
      show ?thesis using RowDeleted Inr True key no
        by (cases rule: row_before_cases [of T key "''deleted''" st row])
           (auto simp: chain_row_def Let_def find_data_map row_ok_def row_effect_def data_map_retain)
    qed
  next
    case False
    then show ?thesis using Inr
      by (cases key) (auto simp: chain_row_def row_ok_def row_effect_def storage_key_owned)
  qed
qed

text \<open>
  Chaining is exact: the rows of a simulation are accepted if and only if each of them fits the
  ledger the rows before it left (a created key is new, an updated or deleted one holds the
  reported previous value, the new value belongs to the key), and then the new baseline is the old
  one with the rows replayed in order, with the instance storage untouched.
\<close>

theorem chaining_replays_rows:
  "case state_changes_into_sequence_state T baseline rows of
     Ok st \<Rightarrow> rows_ok T (data_map T baseline) rows \<and>
       data_map T st = foldl (row_effect T) (data_map T baseline) rows \<and>
       sq_instance_storage st = sq_instance_storage baseline
   | Err _ \<Rightarrow> \<not> rows_ok T (data_map T baseline) rows
   | Panic \<Rightarrow> False"
  unfolding state_changes_into_sequence_state_def
proof (induction rows arbitrary: baseline)
  case (Cons row rows)
  show ?case
  proof (cases "chain_row T baseline row")
    case (Ok st)
    then show ?thesis using chain_row_cases [of T baseline row] Cons.IH [of st] by (auto split: result.splits)
  qed (use chain_row_cases [of T baseline row] in auto)
qed simp

section \<open>Witnesses\<close>

text \<open>A host whose every run writes one entry, with an injective encoding of keys and entries.\<close>

instance durability :: countable by countable_datatype
instance ledger_data :: countable by countable_datatype
instance ledger_key :: countable by countable_datatype
instance ledger_entry_ext :: (countable) countable
  by (rule countable_classI [of "\<lambda>e. to_nat (ent_last_modified e, ent_data e, ent_ext e, ledger_entry.more e)"])
     (simp add: ledger_entry.equality)

definition demo_entry :: ledger_entry where
  "demo_entry = \<lparr>ent_last_modified = 7, ent_data = ContractData ''C'' (VSymbol ''count'') Persistent (VU32 1), ent_ext = []\<rparr>"

definition demo_to_key :: "ledger_entry \<Rightarrow> ledger_key" where
  "demo_to_key e = (case ent_data e of
     ContractData c k d _ \<Rightarrow> KeyContractData c k d | ContractCode h _ \<Rightarrow> KeyContractCode h | OtherData x \<Rightarrow> KeyOther x)"

definition encode_demo :: "'a::countable \<Rightarrow> string" where
  "encode_demo x = show_nat (to_nat x)"

definition decode_demo :: "string \<Rightarrow> string + 'a::countable" where
  "decode_demo s = Inr (from_nat (digits_value s))"

lemma decode_encode_demo [simp]: "decode_demo (encode_demo x) = Inr x"
  by (simp add: decode_demo_def encode_demo_def)

definition demo_tools :: fuzz_tools where
  "demo_tools =
     \<lparr>ft_contract_id = ''C'', ft_wasm_hash = ''W'', ft_network_id = ''N'',
      ft_budgets = \<lparr>bh_protocol = 29, bh_cost_types = [], bh_cost_params = (\<lambda>_. Inr ()),
        bh_try_from_configs = (\<lambda>_ _ _ _. Inr ())\<rparr>,
      ft_invoke = (\<lambda>budget info live inst data call auth. Ok \<lparr>hr_invoke_result = Inr [],
         hr_ledger_changes = [\<lparr>lc_encoded_key = encode_demo (demo_to_key demo_entry),
           lc_encoded_new_value = Some (encode_demo demo_entry)\<rparr>], hr_events = [],
         hr_budget = \<lparr>bu_consumed_cpu = 0, bu_consumed_mem = 0, bu_remaining_cpu = 0, bu_remaining_mem = 0\<rparr>\<rparr>),
      ft_val_from_xdr = (\<lambda>_. Inr VVoid), ft_event_from_xdr = (\<lambda>_. Inl []),
      ft_key_from_xdr = decode_demo, ft_entry_from_xdr = decode_demo, ft_key_from_base64 = decode_demo,
      ft_key_to_base64 = (\<lambda>k. Inr (encode_demo k)), ft_entry_from_base64 = decode_demo,
      ft_entry_to_base64 = (\<lambda>e. Inr (encode_demo e)), ft_debug_str = (\<lambda>s. s),
      ft_key_xdr = encode_demo, ft_entry_xdr = encode_demo, ft_to_key = demo_to_key, ft_val_le = (\<lambda>_ _. True)\<rparr>"

lemma demo_laws: "host_laws demo_tools"
proof -
  have "reported_change demo_tools \<lparr>lc_encoded_key = encode_demo (demo_to_key demo_entry),
      lc_encoded_new_value = Some (encode_demo demo_entry)\<rparr>"
    unfolding reported_change_def
    by (rule exI [of _ "demo_to_key demo_entry"]) (auto simp: demo_tools_def demo_to_key_def demo_entry_def)
  then show ?thesis
    unfolding host_laws_def key_laws_def xdr_roundtrip_def
    by (auto simp: demo_tools_def demo_to_key_def split: ledger_data.splits)
qed

lemma demo_host:
  "\<exists>res. ft_invoke demo_tools b info live inst data call auth = Ok res"
  "ft_invoke demo_tools b info live inst data call auth \<noteq> Err e" "ft_invoke demo_tools b info live inst data call auth \<noteq> Panic"
  by (simp_all add: demo_tools_def)

definition demo_state :: sequence_state where
  "demo_state = \<lparr>sq_data_entries = [], sq_instance_storage = []\<rparr>"

lemma demo_carried: "carried_ok demo_tools demo_state" by (simp add: carried_ok_def demo_state_def)

definition demo_call :: function_call where
  "demo_call = \<lparr>fc_function = ''inc'', fc_args = []\<rparr>"

lemma demo_run: "\<exists>st' observed'. run_step demo_tools default_environment ''w'' [] (demo_state, []) (0, demo_call) = Ok (st', observed')"
  by (simp add: run_step_def execute_with_def execute_with_auth_def executor_case_def with_instance_storage_def
      make_budget_def default_environment_def invoke_contract_def demo_call_def case_instance_def demo_tools_def demo_state_def result_status_def decode_events_def apply_state_delta_def
      state_entries_from_footprint_def apply_delta_entry_def decode_entry_def demo_to_key_def demo_entry_def is_nonce_def Let_def)

theorem step_carries_host_ledger_witness:
  "\<exists>st' observed'. run_step demo_tools default_environment ''w'' [] (demo_state, []) (0, demo_call) = Ok (st', observed') \<and>
     data_map demo_tools st' (demo_to_key demo_entry) = Some demo_entry"
proof -
  obtain st' observed' where run: "run_step demo_tools default_environment ''w'' [] (demo_state, []) (0, demo_call) = Ok (st', observed')"
    using demo_run by blast
  from step_carries_host_ledger [OF demo_laws demo_carried run] obtain b res where
    res: "invoke_contract demo_tools b default_environment (step_instance demo_tools demo_state) (sq_data_entries demo_state) demo_call (step_auth [] 0) = Ok res"
    and post: "\<forall>k. storage_key k \<longrightarrow> data_map demo_tools st' k = host_post demo_tools res (data_map demo_tools demo_state) k" by blast
  have "storage_key (demo_to_key demo_entry)" by (simp add: storage_key_def demo_to_key_def demo_entry_def is_nonce_def)
  moreover have "host_post demo_tools res (data_map demo_tools demo_state) (demo_to_key demo_entry) = Some demo_entry"
    using res by (auto simp: host_post_def demo_tools_def invoke_contract_def split: if_splits)
  ultimately show ?thesis using run post by auto
qed

theorem sequence_accepts_own_state_witness:
  "case execute_sequence_auth demo_tools [demo_entry] default_environment [demo_call, demo_call] ''w'' [] of
      Ok run \<Rightarrow> carried_ok demo_tools (sr_state run) \<and> length (sr_steps run) = 2 \<and>
        sr_final_observation run = so_observation (last (sr_steps run))
    | Err e \<Rightarrow> \<forall>x. e \<noteq> InvalidSetup x
    | Panic \<Rightarrow> False"
proof -
  have "from_baseline [demo_entry] = Ok \<lparr>sq_data_entries = [demo_entry], sq_instance_storage = []\<rparr>"
    "carried_ok demo_tools \<lparr>sq_data_entries = [demo_entry], sq_instance_storage = []\<rparr>"
    by (simp_all add: from_baseline_def push_baseline_def demo_entry_def carried_ok_def demo_tools_def check_baseline_entry_def)
  from sequence_accepts_own_state [OF demo_laws this, where steps = "[demo_call, demo_call]" and env = default_environment
      and case_id = "''w''" and auths = "[]"]
  show ?thesis by (auto simp: demo_host split: result.splits)
qed

end
