(* ===== verification/Fuzz_Oracle.thy ===== *)
theory Fuzz_Oracle
  imports Fuzz_Sequence
begin

text \<open>
  The oracle of \<^verbatim>\<open>sdkt-fuzz/src/oracle.rs\<close>: an observation is compared with a declared expectation,
  and only a violated declaration is a finding.
\<close>

datatype expected_behavior =
    ExpectSuccess "sc_val option"
  | ExpectError string nat
  | ExpectAny

record expected =
  ex_behavior :: expected_behavior
  ex_state :: "(string, string) btree_map option"
  ex_events :: "event_record list option"
  ex_auth_required :: bool
  ex_resource_limit_is_finding :: bool

datatype reason_code =
  ReturnMismatch | StateMismatch | EventMismatch | AuthorizationBypass | UnexpectedError | ResourceLimit

fun reason_name :: "reason_code \<Rightarrow> string" where
  "reason_name ReturnMismatch = ''RETURN_MISMATCH''"
| "reason_name StateMismatch = ''STATE_MISMATCH''"
| "reason_name EventMismatch = ''EVENT_MISMATCH''"
| "reason_name AuthorizationBypass = ''AUTHORIZATION_BYPASS''"
| "reason_name UnexpectedError = ''UNEXPECTED_ERROR''"
| "reason_name ResourceLimit = ''RESOURCE_LIMIT''"

definition reason_from_name :: "string \<Rightarrow> reason_code option" where
  "reason_from_name s =
     (if s = ''RETURN_MISMATCH'' then Some ReturnMismatch
      else if s = ''STATE_MISMATCH'' then Some StateMismatch
      else if s = ''EVENT_MISMATCH'' then Some EventMismatch
      else if s = ''AUTHORIZATION_BYPASS'' then Some AuthorizationBypass
      else if s = ''UNEXPECTED_ERROR'' then Some UnexpectedError
      else if s = ''RESOURCE_LIMIT'' then Some ResourceLimit
      else None)"

datatype classification = Pass | ExpectedError | Finding reason_code

datatype auth_mode = NoAuth | CorrectAuth | WrongAuth

record fuzz_oracle =
  or_expected :: expected
  or_auth_mode :: auth_mode

definition is_budget_error :: "string \<Rightarrow> bool" where
  "is_budget_error error_type \<longleftrightarrow> error_type = ''Budget''"

text \<open>The checks of the call outcome; \<open>None\<close> is falling through to the checks below them.\<close>

definition classify_outcome :: "expected \<Rightarrow> observation \<Rightarrow> classification option" where
  "classify_outcome ex obs =
     (case obs_status obs of
        ContractError error_type code \<Rightarrow>
          Some (case ex_behavior ex of
            ExpectError want_type want_code \<Rightarrow>
              if want_type = error_type \<and> want_code = code then ExpectedError else Finding UnexpectedError
          | ExpectAny \<Rightarrow> Pass
          | ExpectSuccess _ \<Rightarrow>
              if ex_resource_limit_is_finding ex \<and> is_budget_error error_type then Finding ResourceLimit
              else Finding UnexpectedError)
      | _ \<Rightarrow>
          (case ex_behavior ex of
             ExpectError _ _ \<Rightarrow> Some (Finding ReturnMismatch)
           | ExpectAny \<Rightarrow> None
           | ExpectSuccess None \<Rightarrow> None
           | ExpectSuccess (Some want) \<Rightarrow>
               if unwrap_or VVoid (return_value obs) \<noteq> want then Some (Finding ReturnMismatch) else None))"

definition entry_mismatch :: "(string, string) btree_map \<Rightarrow> state_entry \<Rightarrow> bool" where
  "entry_mismatch want_state entry =
     (case bt_get want_state (se_key_xdr entry) of
        Some want \<Rightarrow> se_change entry = Deleted \<or> se_value_xdr entry \<noteq> Some want
      | None \<Rightarrow> se_change entry = Created)"

definition state_mismatch :: "(string, string) btree_map \<Rightarrow> state_entry list \<Rightarrow> bool" where
  "state_mismatch want_state state \<longleftrightarrow>
     list_ex (entry_mismatch want_state) state \<or>
     list_ex (\<lambda>(key, value). \<not> list_ex (\<lambda>e. se_key_xdr e = key \<and> se_value_xdr e = Some value) state) want_state"

definition classify :: "fuzz_oracle \<Rightarrow> observation \<Rightarrow> classification" where
  "classify oracle obs =
     (let ex = or_expected oracle in
      case classify_outcome ex obs of
        Some c \<Rightarrow> c
      | None \<Rightarrow>
          if ex_auth_required ex \<and> is_success obs \<and> or_auth_mode oracle \<noteq> CorrectAuth
          then Finding AuthorizationBypass
          else if (case ex_state ex of Some want \<Rightarrow> state_mismatch want (obs_state obs) | None \<Rightarrow> False)
          then Finding StateMismatch
          else if (case ex_events ex of Some want \<Rightarrow> obs_events obs \<noteq> want | None \<Rightarrow> False)
          then Finding EventMismatch
          else Pass)"

definition default_expected :: expected where
  "default_expected = \<lparr>ex_behavior = ExpectAny, ex_state = None, ex_events = None, ex_auth_required = False,
     ex_resource_limit_is_finding = False\<rparr>"

definition oracle_new :: "expected \<Rightarrow> fuzz_oracle" where
  "oracle_new e = \<lparr>or_expected = e, or_auth_mode = NoAuth\<rparr>"

definition oracle_with_auth_mode :: "expected \<Rightarrow> auth_mode \<Rightarrow> fuzz_oracle" where
  "oracle_with_auth_mode e mode = \<lparr>or_expected = e, or_auth_mode = mode\<rparr>"

definition default_oracle :: fuzz_oracle where
  "default_oracle = \<lparr>or_expected = default_expected, or_auth_mode = NoAuth\<rparr>"

lemma classify_default_oracle: "classify default_oracle obs = Pass"
  by (cases "obs_status obs") (simp_all add: classify_def classify_outcome_def default_oracle_def default_expected_def)

section \<open>What the oracle decides\<close>

text \<open>The declaration as a specification: the outcome, the authorization, the final values of the
  declared keys with nothing undeclared created, and the events.\<close>

definition outcome_conforms :: "expected_behavior \<Rightarrow> execution_status \<Rightarrow> bool" where
  "outcome_conforms b status =
     (case b of
        ExpectAny \<Rightarrow> True
      | ExpectError t c \<Rightarrow> status = ContractError t c
      | ExpectSuccess want \<Rightarrow>
          (case status of
             ContractError _ _ \<Rightarrow> False
           | Returned v \<Rightarrow> want = None \<or> want = Some v
           | ReturnedVoid \<Rightarrow> want = None \<or> want = Some VVoid))"

definition state_conforms :: "(string, string) btree_map \<Rightarrow> state_entry list \<Rightarrow> bool" where
  "state_conforms want state \<longleftrightarrow>
     (\<forall>key value. bt_get want key = Some value \<longrightarrow> (\<exists>e \<in> set state. se_key_xdr e = key \<and> se_value_xdr e = Some value)) \<and>
     (\<forall>e \<in> set state. se_change e = Created \<longrightarrow> bt_get want (se_key_xdr e) \<noteq> None)"

definition conforms :: "fuzz_oracle \<Rightarrow> observation \<Rightarrow> bool" where
  "conforms oracle obs \<longleftrightarrow>
     outcome_conforms (ex_behavior (or_expected oracle)) (obs_status obs) \<and>
     (is_success obs \<longrightarrow>
        (ex_auth_required (or_expected oracle) \<longrightarrow> or_auth_mode oracle = CorrectAuth) \<and>
        (\<forall>want. ex_state (or_expected oracle) = Some want \<longrightarrow> state_conforms want (obs_state obs)) \<and>
        (\<forall>want. ex_events (or_expected oracle) = Some want \<longrightarrow> obs_events obs = want))"

text \<open>What every observation of the executor has: one entry per key, and no value for a deleted one.\<close>

definition observation_wf :: "observation \<Rightarrow> bool" where
  "observation_wf obs \<longleftrightarrow> distinct (map se_key_xdr (obs_state obs)) \<and>
     (\<forall>e \<in> set (obs_state obs). se_change e = Deleted \<longrightarrow> se_value_xdr e = None)"

lemma state_mismatch_iff:
  assumes want: "bt_wf want" and d: "distinct (map se_key_xdr state)"
    and del: "\<forall>e \<in> set state. se_change e = Deleted \<longrightarrow> se_value_xdr e = None"
  shows "state_mismatch want state \<longleftrightarrow> \<not> state_conforms want state"
proof -
  have entries: "(key, v) \<in> set want \<longleftrightarrow> bt_get want key = Some v" for key v
    by (rule bt.in_entries_iff [OF want])
  have same: "e = e'" if "e \<in> set state" "e' \<in> set state" "se_key_xdr e = se_key_xdr e'" for e e'
    using d that by (auto simp: distinct_map inj_on_def)
  have missing: "list_ex (\<lambda>(key, value). \<not> list_ex (\<lambda>e. se_key_xdr e = key \<and> se_value_xdr e = Some value) state) want \<longleftrightarrow>
      \<not> (\<forall>key value. bt_get want key = Some value \<longrightarrow> (\<exists>e \<in> set state. se_key_xdr e = key \<and> se_value_xdr e = Some value))"
    using entries by (fastforce simp: list_ex_iff)
  show ?thesis
  proof (cases "\<forall>key value. bt_get want key = Some value \<longrightarrow> (\<exists>e \<in> set state. se_key_xdr e = key \<and> se_value_xdr e = Some value)")
    case False
    then show ?thesis unfolding state_mismatch_def missing state_conforms_def by blast
  next
    case True
    have "entry_mismatch want e \<longleftrightarrow> se_change e = Created \<and> bt_get want (se_key_xdr e) = None" if e: "e \<in> set state" for e
    proof (cases "bt_get want (se_key_xdr e)")
      case None
      then show ?thesis by (simp add: entry_mismatch_def)
    next
      case (Some v)
      with True obtain e' where "e' \<in> set state" "se_key_xdr e' = se_key_xdr e" "se_value_xdr e' = Some v" by blast
      with same e have "se_value_xdr e = Some v" by metis
      with Some del e show ?thesis by (auto simp: entry_mismatch_def)
    qed
    then show ?thesis using True unfolding state_mismatch_def missing state_conforms_def by (auto simp: list_ex_iff)
  qed
qed

text \<open>
  C17. The oracle raises a finding exactly when the observation violates its declaration: the call
  outcome, the required authorization, the declared final state (every declared key has its
  declared value and nothing undeclared was created) or the declared events. In particular an
  error is never a finding when no outcome is declared, and an authorization bypass is only
  reported for a successful call that had to be authorized and was not.
\<close>

theorem finding_iff_violation:
  assumes wf: "observation_wf obs" and want: "\<And>want. ex_state (or_expected oracle) = Some want \<Longrightarrow> bt_wf want"
  shows "((\<exists>r. classify oracle obs = Finding r) \<longleftrightarrow> \<not> conforms oracle obs) \<and>
    (classify oracle obs = ExpectedError \<longleftrightarrow>
       (\<exists>t c. ex_behavior (or_expected oracle) = ExpectError t c \<and> obs_status obs = ContractError t c)) \<and>
    (classify oracle obs = Finding AuthorizationBypass \<longleftrightarrow>
       outcome_conforms (ex_behavior (or_expected oracle)) (obs_status obs) \<and> is_success obs \<and>
       ex_auth_required (or_expected oracle) \<and> or_auth_mode oracle \<noteq> CorrectAuth)"
proof -
  let ?ex = "or_expected oracle"
  have st: "(case ex_state ?ex of Some want \<Rightarrow> state_mismatch want (obs_state obs) | None \<Rightarrow> False) \<longleftrightarrow>
      \<not> (\<forall>want. ex_state ?ex = Some want \<longrightarrow> state_conforms want (obs_state obs))"
    using wf want by (auto simp: observation_wf_def state_mismatch_iff split: option.split)
  have ev: "(case ex_events ?ex of Some want \<Rightarrow> obs_events obs \<noteq> want | None \<Rightarrow> False) \<longleftrightarrow>
      \<not> (\<forall>want. ex_events ?ex = Some want \<longrightarrow> obs_events obs = want)" by (auto split: option.split)
  show ?thesis unfolding classify_def Let_def st ev
    by (cases "obs_status obs"; cases "ex_behavior ?ex")
       (auto simp: classify_outcome_def conforms_def outcome_conforms_def is_success_def return_value_def
         split: option.splits)
qed

text \<open>Observations of the executor are well-formed when the host reports every key once.\<close>

lemma executor_observation_wf:
  assumes "execute_with_auth T c env auth = Ok obs"
    and "\<And>b inst data res. invoke_contract T b env inst data (fz_call c) auth = Ok res \<Longrightarrow>
      distinct (map lc_encoded_key (hr_ledger_changes res))"
  shows "observation_wf obs"
proof -
  from assms(1) obtain b inst data res where
    res: "invoke_contract T b env inst data (fz_call c) auth = Ok res"
    and st: "obs_state obs = state_entries_from_footprint (hr_ledger_changes res) (baseline_map T (inst # data))"
    unfolding execute_with_auth_def by auto
  from assms(2) [OF res] show ?thesis
    by (auto simp: observation_wf_def st state_entries_from_footprint_def distinct_map inj_on_def distinct_sort
        comp_def footprint_change_def split: option.splits if_splits)
qed

lemma reason_name_roundtrip: "reason_from_name (reason_name r) = Some r"
  by (cases r) (simp_all add: reason_from_name_def)

section \<open>Witnesses\<close>

definition bypass_oracle :: fuzz_oracle where
  "bypass_oracle =
     \<lparr>or_expected = \<lparr>ex_behavior = ExpectAny, ex_state = Some [(''k'', ''v'')], ex_events = None,
        ex_auth_required = True, ex_resource_limit_is_finding = False\<rparr>, or_auth_mode = NoAuth\<rparr>"

definition written_observation :: observation where
  "written_observation =
     \<lparr>obs_case_id = ''case0000'', obs_function = ''set'', obs_status = ReturnedVoid,
      obs_state = [\<lparr>se_key_xdr = ''k'', se_value_xdr = Some ''v'', se_change = Created\<rparr>], obs_events = [],
      obs_budget = \<lparr>bu_consumed_cpu = 1, bu_consumed_mem = 1, bu_remaining_cpu = 1, bu_remaining_mem = 1\<rparr>\<rparr>"

theorem finding_iff_violation_witness:
  "classify bypass_oracle written_observation = Finding AuthorizationBypass \<and>
   \<not> conforms bypass_oracle written_observation"
proof -
  have wf: "observation_wf written_observation"
    by (simp add: observation_wf_def written_observation_def)
  have want: "\<And>want. ex_state (or_expected bypass_oracle) = Some want \<Longrightarrow> bt_wf want"
    by (simp add: bypass_oracle_def bt_wf_def)
  have "classify bypass_oracle written_observation = Finding AuthorizationBypass"
    by (simp add: classify_def classify_outcome_def bypass_oracle_def written_observation_def is_success_def)
  then show ?thesis using finding_iff_violation [OF wf want] by blast
qed

end
