(* ===== verification/Fuzz_Minimizer.thy ===== *)
theory Fuzz_Minimizer
  imports Fuzz_Oracle
begin

text \<open>
  The minimizer of \<^verbatim>\<open>sdkt-fuzz/src/minimizer.rs\<close>. A candidate is accepted when running it again gives
  the same classification and the same success; passes over all candidates are repeated until one
  accepts nothing. The length of a value's debug text, which only weighs rare values, is the
  parameter \<open>dbg\<close>.
\<close>

section \<open>Complexity\<close>

fun bit_length :: "nat \<Rightarrow> nat" where
  "bit_length n = (if n = 0 then 0 else Suc (bit_length (n div 2)))"

declare bit_length.simps [simp del]

text \<open>\<^verbatim>\<open>1 + (64 - n.leading_zeros())\<close>\<close>

definition bits :: "64 word \<Rightarrow> nat" where
  "bits n = 1 + bit_length (unat n)"

text \<open>\<^verbatim>\<open>i64::unsigned_abs\<close>\<close>

definition unsigned_abs :: "64 word \<Rightarrow> 64 word" where
  "unsigned_abs n = (if sint n < 0 then - n else n)"

primrec arg_complexity :: "(sc_val \<Rightarrow> nat) \<Rightarrow> sc_val \<Rightarrow> nat" where
  "arg_complexity dbg (VBool b) = 1"
| "arg_complexity dbg VVoid = 1"
| "arg_complexity dbg (VU32 n) = bits (ucast n)"
| "arg_complexity dbg (VI32 n) = bits (scast n)"
| "arg_complexity dbg (VU64 n) = bits n"
| "arg_complexity dbg (VI64 n) = bits (unsigned_abs n)"
| "arg_complexity dbg (VU128 hi lo) = 1 + bits hi + bits lo"
| "arg_complexity dbg (VI128 hi lo) = 1 + bits (unsigned_abs hi) + bits lo"
| "arg_complexity dbg (VString s) = length s"
| "arg_complexity dbg (VBytes b) = length b"
| "arg_complexity dbg (VVec v) =
     (case map_option (map (arg_complexity dbg)) v of Some ws \<Rightarrow> 4 + sum_list ws | None \<Rightarrow> 1)"
| "arg_complexity dbg (VMap m) =
     (case map_option (map (map_prod (arg_complexity dbg) (arg_complexity dbg))) m of
        Some ws \<Rightarrow> 6 + sum_list (map (\<lambda>(k, v). k + v) ws) | None \<Rightarrow> 1)"
| "arg_complexity dbg (VAddress a) = 4"
| "arg_complexity dbg (VError e) = 8 + dbg (VError e)"
| "arg_complexity dbg (VTimepoint t) = 8 + dbg (VTimepoint t)"
| "arg_complexity dbg (VDuration d) = 8 + dbg (VDuration d)"
| "arg_complexity dbg (VU256 a b c d) = 8 + dbg (VU256 a b c d)"
| "arg_complexity dbg (VI256 a b c d) = 8 + dbg (VI256 a b c d)"
| "arg_complexity dbg (VSymbol s) = 8 + dbg (VSymbol s)"
| "arg_complexity dbg (VContractInstance x m) = 8 + dbg (VContractInstance x m)"
| "arg_complexity dbg VLedgerKeyContractInstance = 8 + dbg VLedgerKeyContractInstance"
| "arg_complexity dbg (VLedgerKeyNonce n) = 8 + dbg (VLedgerKeyNonce n)"

definition sequence_complexity :: "(sc_val \<Rightarrow> nat) \<Rightarrow> function_call list \<Rightarrow> nat" where
  "sequence_complexity dbg steps =
     length steps * 10 + sum_list (map (\<lambda>s. sum_list (map (arg_complexity dbg) (fc_args s))) steps)"

section \<open>Candidates\<close>

fun reduction_ladder :: "sc_val \<Rightarrow> sc_val list" where
  "reduction_ladder (VBool b) = (if b then [VBool False] else [])"
| "reduction_ladder (VU32 x) = (if x \<noteq> 0 then [VU32 0] else [])"
| "reduction_ladder (VI32 x) = (if x \<noteq> 0 then [VI32 0] else [])"
| "reduction_ladder (VU64 x) = (if x \<noteq> 0 then [VU64 0] else [])"
| "reduction_ladder (VI64 x) = (if x \<noteq> 0 then [VI64 0] else [])"
| "reduction_ladder (VU128 hi lo) = (if hi \<noteq> 0 \<or> lo \<noteq> 0 then [VU128 0 0] else [])"
| "reduction_ladder (VI128 hi lo) = (if hi \<noteq> 0 \<or> lo \<noteq> 0 then [VI128 0 0] else [])"
| "reduction_ladder (VU256 a b c d) =
     (if a \<noteq> 0 \<or> b \<noteq> 0 \<or> c \<noteq> 0 \<or> d \<noteq> 0 then [VU256 0 0 0 0] else [])"
| "reduction_ladder (VI256 a b c d) =
     (if a \<noteq> 0 \<or> b \<noteq> 0 \<or> c \<noteq> 0 \<or> d \<noteq> 0 then [VI256 0 0 0 0] else [])"
| "reduction_ladder (VString s) = (if s \<noteq> [] then [VString []] else [])"
| "reduction_ladder (VBytes b) = (if b \<noteq> [] then [VBytes []] else [])"
| "reduction_ladder (VVec (Some v)) = (if v \<noteq> [] then [VVec None] else [])"
| "reduction_ladder (VMap (Some m)) = (if m \<noteq> [] then [VMap None] else [])"
| "reduction_ladder _ = []"

fun complexity_word :: "sc_val \<Rightarrow> string" where
  "complexity_word (VBool b) = ''bool('' @ (if b then ''true'' else ''false'') @ '')''"
| "complexity_word (VU32 x) = ''u32('' @ show_nat (unat x) @ '')''"
| "complexity_word (VI32 x) = ''i32('' @ show_int (sint x) @ '')''"
| "complexity_word (VU64 x) = ''u64('' @ show_nat (unat x) @ '')''"
| "complexity_word (VI64 x) = ''i64('' @ show_int (sint x) @ '')''"
| "complexity_word VVoid = ''void''"
| "complexity_word (VString s) = ''string(len '' @ show_nat (length s) @ '')''"
| "complexity_word (VBytes b) = ''bytes(len '' @ show_nat (length b) @ '')''"
| "complexity_word (VVec (Some v)) = ''vec(len '' @ show_nat (length v) @ '')''"
| "complexity_word (VVec None) = ''vec(empty)''"
| "complexity_word (VMap (Some m)) = ''map(len '' @ show_nat (length m) @ '')''"
| "complexity_word (VMap None) = ''map(empty)''"
| "complexity_word (VAddress _) = ''address''"
| "complexity_word _ = ''value''"

definition remove_nth :: "nat \<Rightarrow> 'a list \<Rightarrow> 'a list" where
  "remove_nth i xs = take i xs @ drop (Suc i) xs"

definition set_arg :: "function_call list \<Rightarrow> nat \<Rightarrow> nat \<Rightarrow> sc_val \<Rightarrow> function_call list" where
  "set_arg steps s a v = steps[s := (steps ! s) \<lparr>fc_args := (fc_args (steps ! s))[a := v]\<rparr>]"

definition reduced_env :: "environment \<Rightarrow> environment" where
  "reduced_env env =
     (let env' = env \<lparr>env_ledger := (env_ledger env) \<lparr>lg_timestamp := 0\<rparr>\<rparr> in
      case env_budget env' of Capped _ _ \<Rightarrow> env' \<lparr>env_budget := BudgetDefault\<rparr> | _ \<Rightarrow> env')"

section \<open>Running candidates\<close>

definition run_steps ::
  "fuzz_tools \<Rightarrow> ledger_entry list \<Rightarrow> environment \<Rightarrow> function_call list \<Rightarrow> string \<Rightarrow> (observation, fuzz_error) result" where
  "run_steps T baseline environment steps case_id =
     (if steps = [] then
        Err (InvalidConfig ''minimizer/campaign sequence must have at least one step'')
      else if length steps = 1 then
        execute_with T (executor_case T case_id (steps ! 0) baseline) environment
      else map_ok sr_final_observation (execute_sequence T baseline environment steps case_id))"

record minimization_target =
  mt_steps :: "function_call list"
  mt_baseline :: "ledger_entry list"
  mt_environment :: environment

definition preserves ::
  "fuzz_tools \<Rightarrow> fuzz_oracle \<Rightarrow> ledger_entry list \<Rightarrow> classification \<Rightarrow> bool \<Rightarrow> string \<Rightarrow>
   function_call list \<Rightarrow> environment \<Rightarrow> (bool, fuzz_error) result" where
  "preserves T oracle baseline original original_success case_id steps env =
     map_ok (\<lambda>obs. classify oracle obs = original \<and> is_success obs = original_success)
       (run_steps T baseline env steps case_id)"

section \<open>The passes\<close>

record reduction =
  rd_kind :: string
  rd_detail :: string
  rd_complexity_after :: nat

record min_state =
  ms_steps :: "function_call list"
  ms_env :: environment
  ms_complexity :: nat
  ms_reductions :: "reduction list"

type_synonym candidate_check = "function_call list \<Rightarrow> environment \<Rightarrow> (bool, fuzz_error) result"

definition accept_steps ::
  "(sc_val \<Rightarrow> nat) \<Rightarrow> string \<Rightarrow> string \<Rightarrow> function_call list \<Rightarrow> min_state \<Rightarrow> min_state" where
  "accept_steps dbg kind detail steps st =
     st \<lparr>ms_steps := steps, ms_complexity := sequence_complexity dbg steps,
         ms_reductions := ms_reductions st @
           [\<lparr>rd_kind = kind, rd_detail = detail, rd_complexity_after = sequence_complexity dbg steps\<rparr>]\<rparr>"

text \<open>Step removal from the tail; the second component says whether one was accepted.\<close>

fun remove_steps ::
  "(sc_val \<Rightarrow> nat) \<Rightarrow> candidate_check \<Rightarrow> min_state \<Rightarrow> nat \<Rightarrow> (min_state \<times> bool, fuzz_error) result" where
  "remove_steps dbg P st 0 = Ok (st, False)"
| "remove_steps dbg P st (Suc idx) =
     (if idx = 0 then Ok (st, False)
      else
        let candidate = remove_nth idx (ms_steps st) in
        and_then (P candidate (ms_env st)) (\<lambda>b.
          if b then
            Ok (accept_steps dbg ''step'' (''removed step '' @ show_nat idx @ '' `'' @
                  fc_function (ms_steps st ! idx) @ ''`'') candidate st, True)
          else remove_steps dbg P st idx))"

fun try_ladder ::
  "(sc_val \<Rightarrow> nat) \<Rightarrow> candidate_check \<Rightarrow> nat \<Rightarrow> nat \<Rightarrow> min_state \<Rightarrow> sc_val list \<Rightarrow>
   (min_state \<times> bool, fuzz_error) result" where
  "try_ladder dbg P s a st [] = Ok (st, False)"
| "try_ladder dbg P s a st (v # vs) =
     (let candidate = set_arg (ms_steps st) s a v in
      and_then (P candidate (ms_env st)) (\<lambda>b.
        if b then
          Ok (accept_steps dbg ''arg'' (''step '' @ show_nat s @ '' arg '' @ show_nat a @ '': '' @
                complexity_word (fc_args (ms_steps st ! s) ! a) @ '' -> '' @ complexity_word v) candidate st, True)
        else try_ladder dbg P s a st vs))"

definition reduce_arg ::
  "(sc_val \<Rightarrow> nat) \<Rightarrow> candidate_check \<Rightarrow> nat \<Rightarrow> min_state \<times> bool \<Rightarrow> nat \<Rightarrow> (min_state \<times> bool, fuzz_error) result" where
  "reduce_arg dbg P s = (\<lambda>(st, accepted) a.
     map_ok (\<lambda>(st', b). (st', accepted \<or> b))
       (try_ladder dbg P s a st (reduction_ladder (fc_args (ms_steps st ! s) ! a))))"

definition reduce_step_args ::
  "(sc_val \<Rightarrow> nat) \<Rightarrow> candidate_check \<Rightarrow> min_state \<times> bool \<Rightarrow> nat \<Rightarrow> (min_state \<times> bool, fuzz_error) result" where
  "reduce_step_args dbg P = (\<lambda>(st, accepted) s.
     try_fold (reduce_arg dbg P s) (st, accepted) (rev [0..<length (fc_args (ms_steps st ! s))]))"

definition reduce_environment ::
  "candidate_check \<Rightarrow> min_state \<times> bool \<Rightarrow> (min_state \<times> bool, fuzz_error) result" where
  "reduce_environment P = (\<lambda>(st, accepted).
     if ms_env st \<noteq> default_environment \<and> reduced_env (ms_env st) \<noteq> ms_env st then
       and_then (P (ms_steps st) (reduced_env (ms_env st))) (\<lambda>b.
         if b then
           Ok (st \<lparr>ms_env := reduced_env (ms_env st),
                   ms_reductions := ms_reductions st @
                     [\<lparr>rd_kind = ''env'', rd_detail = ''environment reduced to defaults'',
                       rd_complexity_after = ms_complexity st\<rparr>]\<rparr>, True)
         else Ok (st, accepted))
     else Ok (st, accepted))"

definition minimize_pass ::
  "(sc_val \<Rightarrow> nat) \<Rightarrow> candidate_check \<Rightarrow> min_state \<Rightarrow> (min_state \<times> bool, fuzz_error) result" where
  "minimize_pass dbg P st =
     and_then (if length (ms_steps st) > 1 then remove_steps dbg P st (length (ms_steps st)) else Ok (st, False))
       (\<lambda>(st1, accepted1).
     and_then (try_fold (reduce_step_args dbg P) (st1, accepted1) (rev [0..<length (ms_steps st1)]))
       (reduce_environment P))"

section \<open>Reductions as steps\<close>

text \<open>One accepted reduction of a sequence and its environment.\<close>

inductive reduces :: "candidate_check \<Rightarrow> function_call list \<times> environment \<Rightarrow> function_call list \<times> environment \<Rightarrow> bool"
  for P :: candidate_check where
  remove_step: "\<lbrakk>0 < i; i < length steps; P (remove_nth i steps) env = Ok True\<rbrakk> \<Longrightarrow>
     reduces P (steps, env) (remove_nth i steps, env)"
| reduce_value: "\<lbrakk>s < length steps; a < length (fc_args (steps ! s));
     v \<in> set (reduction_ladder (fc_args (steps ! s) ! a)); P (set_arg steps s a v) env = Ok True\<rbrakk> \<Longrightarrow>
     reduces P (steps, env) (set_arg steps s a v, env)"
| reduce_env: "\<lbrakk>env \<noteq> default_environment; reduced_env env \<noteq> env; P steps (reduced_env env) = Ok True\<rbrakk> \<Longrightarrow>
     reduces P (steps, env) (steps, reduced_env env)"

inductive_cases reducesE: "reduces P (steps, env) x"

text \<open>Every reduction lowers the weight: the number of steps, of arguments that can still be reduced,
  and of reducible environments. A reduced value cannot be reduced again.\<close>

definition reducible :: "sc_val \<Rightarrow> bool" where
  "reducible v \<longleftrightarrow> reduction_ladder v \<noteq> []"

definition call_weight :: "function_call \<Rightarrow> nat" where
  "call_weight c = length (filter reducible (fc_args c))"

definition weight :: "function_call list \<times> environment \<Rightarrow> nat" where
  "weight = (\<lambda>(steps, env).
     length steps + sum_list (map call_weight steps) + (if reduced_env env \<noteq> env then 1 else 0))"

lemma ladder_irreducible: "v' \<in> set (reduction_ladder v) \<Longrightarrow> \<not> reducible v'"
  by (cases v rule: reduction_ladder.cases) (auto simp: reducible_def split: if_splits)

lemma reduced_env_idem: "reduced_env (reduced_env env) = reduced_env env"
  by (cases "env_budget env") (simp_all add: reduced_env_def Let_def)

lemma sum_list_remove_nth: "sum_list (map f (remove_nth i xs)) \<le> (sum_list (map f xs) :: nat)"
proof -
  have "sum_list (map f (drop (Suc i) xs)) \<le> sum_list (map f (drop i xs))"
    by (cases "i < length xs") (simp_all flip: Cons_nth_drop_Suc)
  moreover have "sum_list (map f xs) = sum_list (map f (take i xs)) + sum_list (map f (drop i xs))"
    by (metis append_take_drop_id map_append sum_list_append)
  ultimately show ?thesis by (simp add: remove_nth_def)
qed

lemma length_remove_nth: "i < length xs \<Longrightarrow> length (remove_nth i xs) = length xs - 1"
  by (simp add: remove_nth_def)

lemma length_filter_update:
  "a < length xs \<Longrightarrow> P (xs ! a) \<Longrightarrow> \<not> P v \<Longrightarrow> Suc (length (filter P (xs[a := v]))) = length (filter P xs)"
proof (induction xs arbitrary: a)
  case (Cons x xs)
  then show ?case by (cases a) auto
qed simp

lemma sum_list_update_less:
  "s < length xs \<Longrightarrow> f y < (f (xs ! s) :: nat) \<Longrightarrow> sum_list (map f (xs[s := y])) < sum_list (map f xs)"
proof (induction xs arbitrary: s)
  case (Cons x xs)
  then show ?case by (cases s) auto
qed simp

lemma reduces_weight: "reduces P x y \<Longrightarrow> weight y < weight x"
proof (induction rule: reduces.induct)
  case (remove_step i steps env)
  then show ?case
    using sum_list_remove_nth [of call_weight i steps] by (auto simp: weight_def length_remove_nth)
next
  case (reduce_value s steps a v env)
  let ?c = "(steps ! s) \<lparr>fc_args := (fc_args (steps ! s))[a := v]\<rparr>"
  have "reducible (fc_args (steps ! s) ! a)" using reduce_value(3) by (auto simp: reducible_def)
  then have "call_weight ?c < call_weight (steps ! s)"
    using length_filter_update [OF reduce_value(2), of reducible v] ladder_irreducible [OF reduce_value(3)]
    by (simp add: call_weight_def)
  from sum_list_update_less [OF reduce_value(1) this] show ?case by (simp add: weight_def set_arg_def)
next
  case (reduce_env env steps)
  then show ?case by (simp add: weight_def reduced_env_idem)
qed

lemma reduces_tranclp_weight: "(reduces P)\<^sup>+\<^sup>+ x y \<Longrightarrow> weight y < weight x"
  by (induction rule: tranclp_induct) (auto dest: reduces_weight)

section \<open>What a pass does\<close>

abbreviation view :: "min_state \<Rightarrow> function_call list \<times> environment" where
  "view st \<equiv> (ms_steps st, ms_env st)"

text \<open>The contract of every part of a pass: it takes accepted reductions only; when the flag stays
  down, nothing changed and the candidates it looked at (\<open>C\<close>) were all refused.\<close>

definition outcome :: "candidate_check \<Rightarrow> (min_state \<Rightarrow> bool) \<Rightarrow> min_state \<times> bool \<Rightarrow> min_state \<times> bool \<Rightarrow> bool" where
  "outcome P C = (\<lambda>(st, accepted) (st', accepted').
     (reduces P)\<^sup>*\<^sup>* (view st) (view st') \<and>
     (accepted' \<longrightarrow> accepted \<or> (reduces P)\<^sup>+\<^sup>+ (view st) (view st')) \<and>
     (\<not> accepted' \<longrightarrow> \<not> accepted \<and> st' = st \<and> C st'))"

lemma outcome_refl: "outcome P (\<lambda>_. True) x x"
  by (cases x) (simp add: outcome_def)

lemma outcome_trans:
  assumes "outcome P C x y" and "outcome P D y z"
  shows "outcome P (\<lambda>st. C st \<and> D st) x z"
  using assms by (cases x; cases y; cases z)
    (auto simp: outcome_def dest: tranclp_rtranclp_tranclp rtranclp_tranclp_tranclp)

lemma outcome_mono: "outcome P C x y \<Longrightarrow> (\<And>st. C st \<Longrightarrow> D st) \<Longrightarrow> outcome P D x y"
  by (cases x; cases y) (auto simp: outcome_def)

lemma outcome_accept: "reduces P (view st) (view st') \<Longrightarrow> outcome P C (st, accepted) (st', True)"
  by (auto simp: outcome_def)

lemma outcome_refused: "C st \<Longrightarrow> outcome P C (st, False) (st, False)"
  by (simp add: outcome_def)

lemma accept_steps_view [simp]:
  "view (accept_steps dbg kind detail steps st) = (steps, ms_env st)"
  "ms_steps (accept_steps dbg kind detail steps st) = steps"
  "ms_env (accept_steps dbg kind detail steps st) = ms_env st"
  by (simp_all add: accept_steps_def)

lemma remove_steps_outcome:
  "remove_steps dbg P st n = Ok r \<Longrightarrow> n \<le> length (ms_steps st) \<Longrightarrow>
   outcome P (\<lambda>st. \<forall>i. 0 < i \<and> i < n \<longrightarrow> P (remove_nth i (ms_steps st)) (ms_env st) = Ok False) (st, False) r"
proof (induction dbg P st n rule: remove_steps.induct)
  case (2 dbg P st idx)
  show ?case
  proof (cases "idx = 0")
    case True
    then show ?thesis using "2.prems" by (auto intro!: outcome_refused)
  next
    case False
    with "2.prems" obtain b where b: "P (remove_nth idx (ms_steps st)) (ms_env st) = Ok b" by (auto simp: Let_def)
    show ?thesis
    proof (cases b)
      case True
      then show ?thesis using False b "2.prems"
        by (auto simp: Let_def intro!: outcome_accept reduces.remove_step)
    next
      case rej: False
      then have "outcome P (\<lambda>st. \<forall>i. 0 < i \<and> i < idx \<longrightarrow> P (remove_nth i (ms_steps st)) (ms_env st) = Ok False) (st, False) r"
        using "2.IH" [OF False refl, of False] False b "2.prems" by (simp add: Let_def)
      then show ?thesis using b rej
        by (cases r) (auto simp: outcome_def less_Suc_eq)
    qed
  qed
qed (auto intro!: outcome_refused)

lemma try_ladder_outcome:
  "try_ladder dbg P s a st vs = Ok (st', b) \<Longrightarrow>
   s < length (ms_steps st) \<Longrightarrow> a < length (fc_args (ms_steps st ! s)) \<Longrightarrow>
   set vs \<subseteq> set (reduction_ladder (fc_args (ms_steps st ! s) ! a)) \<Longrightarrow>
   outcome P (\<lambda>st. \<forall>v \<in> set vs. P (set_arg (ms_steps st) s a v) (ms_env st) = Ok False) (st, False) (st', b) \<and>
   map (\<lambda>c. length (fc_args c)) (ms_steps st') = map (\<lambda>c. length (fc_args c)) (ms_steps st)"
proof (induction vs)
  case (Cons v vs)
  then obtain r where r: "P (set_arg (ms_steps st) s a v) (ms_env st) = Ok r" by (auto simp: Let_def)
  show ?case
  proof (cases r)
    case True
    then have st': "st' = accept_steps dbg ''arg'' (''step '' @ show_nat s @ '' arg '' @ show_nat a @ '': '' @
        complexity_word (fc_args (ms_steps st ! s) ! a) @ '' -> '' @ complexity_word v) (set_arg (ms_steps st) s a v) st" "b"
      using r Cons.prems(1) by (auto simp: Let_def)
    have "reduces P (view st) (view st')"
      using True r Cons.prems(2-4) by (auto simp: st'(1) intro!: reduces.reduce_value)
    moreover have "map (\<lambda>c. length (fc_args c)) (ms_steps st') = map (\<lambda>c. length (fc_args c)) (ms_steps st)"
      using Cons.prems(2) by (simp add: st'(1) set_arg_def map_update list_update_same_conv)
    ultimately show ?thesis using st'(2) by (auto intro: outcome_accept)
  next
    case False
    with Cons r show ?thesis by (auto simp: Let_def outcome_def)
  qed
qed (auto intro!: outcome_refused)

text \<open>The loops over the arguments of a step and over the steps.\<close>

abbreviation shape :: "min_state \<Rightarrow> nat list" where
  "shape st \<equiv> map (\<lambda>c. length (fc_args c)) (ms_steps st)"

definition args_refused :: "candidate_check \<Rightarrow> nat \<Rightarrow> nat \<Rightarrow> min_state \<Rightarrow> bool" where
  "args_refused P s a st \<longleftrightarrow>
     (\<forall>v \<in> set (reduction_ladder (fc_args (ms_steps st ! s) ! a)). P (set_arg (ms_steps st) s a v) (ms_env st) = Ok False)"

lemma reduce_arg_outcome:
  assumes "reduce_arg dbg P s (st, accepted) a = Ok (st', accepted')"
    and "s < length (shape st)" and "a < shape st ! s"
  shows "outcome P (args_refused P s a) (st, accepted) (st', accepted') \<and> shape st' = shape st"
proof -
  from assms(1) obtain b where b: "try_ladder dbg P s a st (reduction_ladder (fc_args (ms_steps st ! s) ! a)) = Ok (st', b)"
    "accepted' = (accepted \<or> b)" by (auto simp: reduce_arg_def)
  have "s < length (ms_steps st)" "a < length (fc_args (ms_steps st ! s))" using assms(2,3) by auto
  from try_ladder_outcome [OF b(1) this order.refl] b(2) show ?thesis
    by (auto simp: outcome_def args_refused_def)
qed

text \<open>A loop of parts that each have the contract has it for all their candidates.\<close>

lemma try_fold_outcome:
  assumes "try_fold f x is = Ok y" and "\<forall>i \<in> set is. I i (shape (fst x))"
    and step: "\<And>i st acc st' acc'. f (st, acc) i = Ok (st', acc') \<Longrightarrow> I i (shape st) \<Longrightarrow>
      outcome P (C i) (st, acc) (st', acc') \<and> shape st' = shape st"
  shows "outcome P (\<lambda>st. \<forall>i \<in> set is. C i st) x y \<and> shape (fst y) = shape (fst x)"
  using assms(1,2)
proof (induction "is" arbitrary: x)
  case Nil
  then show ?case by (auto intro: outcome_mono [OF outcome_refl])
next
  case (Cons i "is")
  obtain st acc where x: "x = (st, acc)" by (cases x)
  from Cons.prems obtain z where z: "f x i = Ok z" "try_fold f z is = Ok y" by auto
  obtain st1 acc1 where z': "z = (st1, acc1)" by (cases z)
  have i: "outcome P (C i) x z" "shape st1 = shape st"
    using step [of st acc i st1 acc1] z(1) Cons.prems(2) x z' by auto
  have r: "outcome P (\<lambda>st. \<forall>i \<in> set is. C i st) z y \<and> shape (fst y) = shape (fst z)"
    using Cons.IH [OF z(2)] Cons.prems(2) i(2) x z' by auto
  have "outcome P (\<lambda>st. C i st \<and> (\<forall>i \<in> set is. C i st)) x y"
    using outcome_trans [OF i(1)] r by blast
  then show ?case using r i(2) x z' by (auto intro: outcome_mono)
qed

definition step_args_refused :: "candidate_check \<Rightarrow> nat \<Rightarrow> min_state \<Rightarrow> bool" where
  "step_args_refused P s st \<longleftrightarrow> (\<forall>a < length (fc_args (ms_steps st ! s)). args_refused P s a st)"

lemma reduce_step_args_outcome:
  assumes "reduce_step_args dbg P (st, accepted) s = Ok (st', accepted')" and "s < length (shape st)"
  shows "outcome P (step_args_refused P s) (st, accepted) (st', accepted') \<and> shape st' = shape st"
proof -
  let ?is = "rev [0..<length (fc_args (ms_steps st ! s))]"
  have "outcome P (\<lambda>st. \<forall>a \<in> set ?is. args_refused P s a st) (st, accepted) (st', accepted') \<and>
      shape (fst (st', accepted')) = shape (fst (st, accepted))"
  proof (rule try_fold_outcome [where I = "\<lambda>a sh. s < length sh \<and> a < sh ! s"])
    show "try_fold (reduce_arg dbg P s) (st, accepted) ?is = Ok (st', accepted')"
      using assms(1) by (simp add: reduce_step_args_def)
    show "\<forall>a \<in> set ?is. s < length (shape (fst (st, accepted))) \<and> a < shape (fst (st, accepted)) ! s"
      using assms(2) by auto
  qed (use reduce_arg_outcome in blast)
  then show ?thesis by (cases accepted') (auto simp: outcome_def step_args_refused_def)
qed

lemma minimize_pass_outcome:
  assumes "minimize_pass dbg P st = Ok (st', accepted)"
  shows "outcome P (\<lambda>st. \<forall>x. \<not> reduces P (view st) x) (st, False) (st', accepted)"
proof -
  from assms obtain r1 r2 where
    p1: "(if length (ms_steps st) > 1 then remove_steps dbg P st (length (ms_steps st)) else Ok (st, False)) = Ok r1"
    and p2: "try_fold (reduce_step_args dbg P) r1 (rev [0..<length (ms_steps (fst r1))]) = Ok r2"
    and p3: "reduce_environment P r2 = Ok (st', accepted)"
    unfolding minimize_pass_def by (auto split: prod.splits)
  have o1: "outcome P (\<lambda>st. \<forall>i. 0 < i \<and> i < length (ms_steps st) \<longrightarrow>
      P (remove_nth i (ms_steps st)) (ms_env st) = Ok False) (st, False) r1"
  proof (cases "length (ms_steps st) > 1")
    case True
    with p1 have "remove_steps dbg P st (length (ms_steps st)) = Ok r1" by simp
    from remove_steps_outcome [OF this] show ?thesis by (cases r1) (auto simp: outcome_def)
  next
    case False
    with p1 show ?thesis by (auto intro!: outcome_refused)
  qed
  have "outcome P (\<lambda>st. \<forall>s \<in> set (rev [0..<length (ms_steps (fst r1))]). step_args_refused P s st) r1 r2 \<and>
      shape (fst r2) = shape (fst r1)"
    by (rule try_fold_outcome [OF p2, where I = "\<lambda>s sh. s < length sh"])
       (use reduce_step_args_outcome in auto)
  then have o2: "outcome P (\<lambda>st. \<forall>s < length (ms_steps st). step_args_refused P s st) r1 r2"
    by (cases r1; cases r2) (auto simp: outcome_def)
  have o3: "outcome P (\<lambda>st. ms_env st \<noteq> default_environment \<and> reduced_env (ms_env st) \<noteq> ms_env st \<longrightarrow>
      P (ms_steps st) (reduced_env (ms_env st)) = Ok False) r2 (st', accepted)"
    using p3 by (cases r2) (auto simp: reduce_environment_def outcome_def split: if_splits
        intro!: tranclp.r_into_trancl r_into_rtranclp reduces.reduce_env)
  from outcome_trans [OF outcome_trans [OF o1 o2] o3] show ?thesis
  proof (rule outcome_mono)
    fix st
    assume C: "((\<forall>i. 0 < i \<and> i < length (ms_steps st) \<longrightarrow> P (remove_nth i (ms_steps st)) (ms_env st) = Ok False) \<and>
        (\<forall>s < length (ms_steps st). step_args_refused P s st)) \<and>
      (ms_env st \<noteq> default_environment \<and> reduced_env (ms_env st) \<noteq> ms_env st \<longrightarrow>
        P (ms_steps st) (reduced_env (ms_env st)) = Ok False)"
    show "\<forall>x. \<not> reduces P (view st) x"
    proof (intro allI notI)
      fix x
      assume "reduces P (view st) x"
      then show False using C by cases (auto simp: step_args_refused_def args_refused_def)
    qed
  qed
qed

section \<open>The loop\<close>

text \<open>Passes are repeated while one of them accepts something; the weight makes the loop end.\<close>

function minimize_loop ::
  "(sc_val \<Rightarrow> nat) \<Rightarrow> candidate_check \<Rightarrow> min_state \<Rightarrow> (min_state, fuzz_error) result" where
  "minimize_loop dbg P st =
     (case minimize_pass dbg P st of
        Ok (st', accepted_any) \<Rightarrow> if accepted_any then minimize_loop dbg P st' else Ok st'
      | Err e \<Rightarrow> Err e
      | Panic \<Rightarrow> Panic)"
  by pat_completeness auto
termination
proof (relation "measure (\<lambda>(dbg, P, st). weight (view st))", goal_cases)
  case (2 dbg P st p st' accepted_any)
  then have "outcome P (\<lambda>st. \<forall>x. \<not> reduces P (view st) x) (st, False) (st', True)"
    using minimize_pass_outcome [of dbg P st st' True] by auto
  then show ?case by (auto simp: outcome_def dest: reduces_tranclp_weight)
qed simp

declare minimize_loop.simps [simp del]

record minimization =
  mz_attempted :: bool
  mz_strategy :: string
  mz_original_complexity :: nat
  mz_minimized_complexity :: nat
  mz_preserved :: bool
  mz_reductions :: "reduction list"

record minimization_outcome =
  mo_minimization :: minimization
  mo_steps :: "function_call list"

definition strategy_name :: string where
  "strategy_name = ''deterministically minimized under the configured strategy''"

definition minimize_with_oracle ::
  "fuzz_tools \<Rightarrow> (sc_val \<Rightarrow> nat) \<Rightarrow> minimization_target \<Rightarrow> fuzz_oracle \<Rightarrow> classification \<Rightarrow> bool \<Rightarrow>
   (minimization_outcome, fuzz_error) result" where
  "minimize_with_oracle T dbg target oracle original original_success =
     (let original_complexity = sequence_complexity dbg (mt_steps target);
          check = preserves T oracle (mt_baseline target) original original_success
      in and_then (minimize_loop dbg (check ''minimize-candidate'')
            \<lparr>ms_steps = mt_steps target, ms_env = mt_environment target,
             ms_complexity = original_complexity, ms_reductions = []\<rparr>) (\<lambda>st.
         and_then (check ''minimize-final'' (ms_steps st) (ms_env st)) (\<lambda>preserved.
           Ok \<lparr>mo_minimization =
                 \<lparr>mz_attempted = True, mz_strategy = strategy_name,
                  mz_original_complexity = original_complexity,
                  mz_minimized_complexity = sequence_complexity dbg (ms_steps st),
                  mz_preserved = preserved, mz_reductions = ms_reductions st\<rparr>,
               mo_steps = ms_steps st\<rparr>)))"

text \<open>\<^verbatim>\<open>minimize\<close> classifies with the default oracle.\<close>

definition minimize ::
  "fuzz_tools \<Rightarrow> (sc_val \<Rightarrow> nat) \<Rightarrow> minimization_target \<Rightarrow> classification \<Rightarrow> bool \<Rightarrow>
   (minimization_outcome, fuzz_error) result" where
  "minimize T dbg target original original_success =
     minimize_with_oracle T dbg target default_oracle original original_success"

definition not_attempted :: "(sc_val \<Rightarrow> nat) \<Rightarrow> fuzz_case \<Rightarrow> minimization" where
  "not_attempted dbg c =
     \<lparr>mz_attempted = False, mz_strategy = strategy_name,
      mz_original_complexity = sequence_complexity dbg [fz_call c],
      mz_minimized_complexity = sequence_complexity dbg [fz_call c],
      mz_preserved = False, mz_reductions = []\<rparr>"

section \<open>The case id does not matter\<close>

text \<open>Candidates and the final run use different case ids; the verdict does not look at them.\<close>

definition strip_id :: "observation \<Rightarrow> observation" where
  "strip_id obs = obs \<lparr>obs_case_id := []\<rparr>"

lemma map_ok_and_then: "map_ok f (and_then r g) = and_then r (\<lambda>x. map_ok f (g x))"
  by (cases r) simp_all

lemma and_then_map_ok: "and_then (map_ok f r) g = and_then r (\<lambda>x. g (f x))"
  by (cases r) simp_all

lemma map_ok_map_ok: "map_ok f (map_ok g r) = map_ok (\<lambda>x. f (g x)) r"
  by (cases r) simp_all

lemma strip_id_fields [simp]:
  "obs_status (strip_id obs) = obs_status obs" "obs_state (strip_id obs) = obs_state obs"
  "obs_events (strip_id obs) = obs_events obs"
  by (simp_all add: strip_id_def)

lemma strip_id_verdict [simp]:
  "classify oracle (strip_id obs) = classify oracle obs" "is_success (strip_id obs) = is_success obs"
  unfolding classify_def classify_outcome_def is_success_def return_value_def strip_id_fields by (rule refl)+

lemma execute_strip_id:
  "map_ok strip_id (execute_with_auth T (c \<lparr>fz_case_id := cid\<rparr>) env auth) = map_ok strip_id (execute_with_auth T c env auth)"
proof -
  have "case_instance T (c \<lparr>fz_case_id := cid\<rparr>) = case_instance T c"
    by (cases "fz_external_instance_entry c") (auto simp: case_instance_def split: ledger_data.split)
  then show ?thesis by (simp add: execute_with_auth_def map_ok_and_then strip_id_def)
qed

definition strip_steps :: "sequence_state \<times> step_observation list \<Rightarrow> sequence_state \<times> observation list" where
  "strip_steps = (\<lambda>(st, observed). (st, map (strip_id \<circ> so_observation) observed))"

lemma run_step_strip:
  assumes "map (strip_id \<circ> so_observation) observed = map (strip_id \<circ> so_observation) observed'"
  shows "map_ok strip_steps (run_step T env cid auths (st, observed) x) =
    map_ok strip_steps (run_step T env cid' auths (st, observed') x)"
proof -
  obtain i call where x: "x = (i, call)" by (cases x)
  define c where "c = (\<lambda>cid. with_instance_storage (executor_case T (cid @ ''/step'' @ show_nat i) call (sq_data_entries st))
    (sq_instance_storage st))"
  have cupd: "c cid = (c cid') \<lparr>fz_case_id := cid @ ''/step'' @ show_nat i\<rparr>" for cid cid'
    by (simp add: c_def with_instance_storage_def executor_case_def)
  define r where "r = (\<lambda>cid. execute_with_auth T (c cid) env (step_auth auths i))"
  have r: "map_ok strip_id (r cid) = map_ok strip_id (r cid')"
    unfolding r_def by (subst cupd [of cid cid']) (rule execute_strip_id)
  have run: "run_step T env cid auths (st, observed) x = and_then (r cid) (\<lambda>obs. and_then (apply_state_delta T st obs) (\<lambda>st'.
      Ok (st', observed @ [\<lparr>so_step_index = i, so_function = fc_function call, so_observation = obs\<rparr>])))" for cid observed
    by (simp add: run_step_def x Let_def r_def c_def step_auth_def execute_with_def)
  have "map_ok strip_steps (run_step T env cid auths (st, observed) x) =
      and_then (map_ok strip_id (r cid)) (\<lambda>obs. and_then (apply_state_delta T st obs) (\<lambda>st'.
        Ok (st', map (strip_id \<circ> so_observation) observed @ [obs])))" for cid observed
    unfolding run by (cases "r cid") (simp_all add: map_ok_and_then strip_steps_def apply_state_delta_def)
  then show ?thesis using r assms by simp
qed

lemma run_steps_fold_strip:
  "map (strip_id \<circ> so_observation) observed = map (strip_id \<circ> so_observation) observed' \<Longrightarrow>
   map_ok strip_steps (try_fold (run_step T env cid auths) (st, observed) xs) =
   map_ok strip_steps (try_fold (run_step T env cid' auths) (st, observed') xs)"
proof (induction xs arbitrary: st observed observed')
  case (Cons x xs)
  note step = run_step_strip [OF Cons.prems, of T env cid auths st x cid']
  show ?case
  proof (cases "run_step T env cid auths (st, observed) x")
    case (Ok p)
    with step obtain p' where p': "run_step T env cid' auths (st, observed') x = Ok p'" "strip_steps p = strip_steps p'"
      by (cases "run_step T env cid' auths (st, observed') x") auto
    obtain st1 o1 o1' where p: "p = (st1, o1)" "p' = (st1, o1')"
      using p'(2) by (cases p; cases p') (auto simp: strip_steps_def)
    have "map (strip_id \<circ> so_observation) o1 = map (strip_id \<circ> so_observation) o1'"
      using p'(2) by (simp add: p strip_steps_def)
    from Cons.IH [OF this] show ?thesis using Ok p'(1) by (simp add: p)
  next
    case (Err e)
    with step show ?thesis by (cases "run_step T env cid' auths (st, observed') x") auto
  next
    case Panic
    with step show ?thesis by (cases "run_step T env cid' auths (st, observed') x") auto
  qed
qed (simp add: strip_steps_def)

lemma run_steps_strip:
  "map_ok strip_id (run_steps T baseline env steps cid) = map_ok strip_id (run_steps T baseline env steps cid')"
proof -
  have single: "map_ok strip_id (execute_with T (executor_case T cid call baseline) env) =
      map_ok strip_id (execute_with T (executor_case T cid' call baseline) env)" for call
    using execute_strip_id [where T = T and c = "executor_case T cid' call baseline" and cid = cid and env = env and auth = "[]"]
    by (simp add: execute_with_def executor_case_def)
  define last_obs where "last_obs = (\<lambda>p :: sequence_state \<times> observation list. if snd p = [] then None else Some (last (snd p)))"
  have final: "map_ok (strip_id \<circ> sr_final_observation) (execute_sequence T baseline env steps cid) =
      and_then (from_baseline baseline) (\<lambda>st.
        and_then (map_ok strip_steps (try_fold (run_step T env cid []) (st, []) (enumerate 0 steps))) (\<lambda>p.
          unwrap (last_obs p)))" if "steps \<noteq> []" for cid
  proof -
    have body: "map_ok (strip_id \<circ> sr_final_observation) (case p of (state', observed) \<Rightarrow>
        and_then (unwrap (if observed = [] then None else Some (so_observation (last observed)))) (\<lambda>final.
          Ok \<lparr>sr_case_id = cid, sr_steps = observed, sr_final_observation = final, sr_state = state'\<rparr>)) =
        (unwrap (last_obs (strip_steps p)) :: (observation, fuzz_error) result)" for p
      by (cases p) (simp add: last_obs_def strip_steps_def last_map)
    show ?thesis using that
      by (simp only: execute_sequence_def execute_sequence_auth_def map_ok_and_then body and_then_map_ok if_False)
  qed
  show ?thesis
  proof (cases "length steps > 1")
    case True
    then have ne: "steps \<noteq> []" by auto
    have "map_ok strip_steps (try_fold (run_step T env cid []) (st, []) (enumerate 0 steps)) =
        map_ok strip_steps (try_fold (run_step T env cid' []) (st, []) (enumerate 0 steps))" for st
      by (rule run_steps_fold_strip) simp
    then show ?thesis using True ne final [OF ne] by (simp add: run_steps_def map_ok_map_ok comp_def)
  next
    case False
    then show ?thesis using single by (cases steps) (simp_all add: run_steps_def)
  qed
qed

lemma preserves_case_id:
  "preserves T oracle baseline original success cid = preserves T oracle baseline original success cid'"
proof (intro ext)
  fix steps env
  let ?v = "\<lambda>obs. classify oracle obs = original \<and> is_success obs = success"
  have "preserves T oracle baseline original success cid steps env = map_ok ?v (map_ok strip_id (run_steps T baseline env steps cid))" for cid
    by (simp add: preserves_def map_ok_map_ok)
  then show "preserves T oracle baseline original success cid steps env = preserves T oracle baseline original success cid' steps env"
    using run_steps_strip [of T baseline env steps cid cid'] by simp
qed

section \<open>What the minimizer promises\<close>

lemma minimize_loop_spec:
  "minimize_loop dbg P st = Ok st' \<Longrightarrow> (reduces P)\<^sup>*\<^sup>* (view st) (view st') \<and> (\<forall>x. \<not> reduces P (view st') x)"
proof (induction dbg P st rule: minimize_loop.induct)
  case (1 dbg P st)
  from "1.prems" obtain st1 acc where pass: "minimize_pass dbg P st = Ok (st1, acc)"
    by (subst (asm) minimize_loop.simps) (auto split: result.splits)
  note o = minimize_pass_outcome [OF pass]
  show ?case
  proof (cases acc)
    case True
    with "1.prems" pass have "minimize_loop dbg P st1 = Ok st'" by (subst (asm) minimize_loop.simps) simp
    with "1.IH" [OF pass refl True] o show ?thesis by (auto simp: outcome_def dest: rtranclp_trans)
  next
    case False
    with "1.prems" pass have "st' = st1" by (subst (asm) minimize_loop.simps) simp
    with o False show ?thesis by (auto simp: outcome_def)
  qed
qed

lemma reduces_accepted: "reduces P x y \<Longrightarrow> P (fst y) (snd y) = Ok True"
  by (induction rule: reduces.induct) simp_all

lemma reduces_rtranclp_accepted: "(reduces P)\<^sup>*\<^sup>* x y \<Longrightarrow> P (fst x) (snd x) = Ok True \<Longrightarrow> P (fst y) (snd y) = Ok True"
  by (induction rule: rtranclp_induct) (auto dest: reduces_accepted)

lemma minimize_unfold:
  assumes "minimize_with_oracle T dbg target oracle original success = Ok out"
  defines "P \<equiv> preserves T oracle (mt_baseline target) original success ''minimize-candidate''"
  obtains env where "(reduces P)\<^sup>*\<^sup>* (mt_steps target, mt_environment target) (mo_steps out, env)"
    "\<forall>x. \<not> reduces P (mo_steps out, env) x" "P (mo_steps out) env = Ok (mz_preserved (mo_minimization out))"
    "mz_original_complexity (mo_minimization out) = sequence_complexity dbg (mt_steps target)"
    "mz_minimized_complexity (mo_minimization out) = sequence_complexity dbg (mo_steps out)"
proof -
  have id: "preserves T oracle (mt_baseline target) original success ''minimize-final'' = P"
    unfolding P_def by (rule preserves_case_id)
  from assms(1) obtain st preserved where loop: "minimize_loop dbg P \<lparr>ms_steps = mt_steps target, ms_env = mt_environment target,
        ms_complexity = sequence_complexity dbg (mt_steps target), ms_reductions = []\<rparr> = Ok st"
    and fin: "P (ms_steps st) (ms_env st) = Ok preserved"
    and out: "mo_steps out = ms_steps st" "mz_preserved (mo_minimization out) = preserved"
      "mz_original_complexity (mo_minimization out) = sequence_complexity dbg (mt_steps target)"
      "mz_minimized_complexity (mo_minimization out) = sequence_complexity dbg (mo_steps out)"
    by (auto simp: minimize_with_oracle_def Let_def id P_def [symmetric])
  from minimize_loop_spec [OF loop] fin out show ?thesis by (intro that [of "ms_env st"]) auto
qed

text \<open>
  The minimizer returns a local minimum. Its result is reached from the input by accepted
  reductions only, each of which kept the classification and the success of the original run, and
  no single further candidate (removing a step other than the first, replacing one argument by its
  simplest value, reducing the environment) is accepted in the final environment. The flag
  \<open>preserved\<close> says exactly whether the result still shows the finding there, and it does whenever
  the input did.
\<close>

theorem minimize_local_minimum:
  assumes "minimize_with_oracle T dbg target oracle original success = Ok out"
  shows "\<exists>env. let P = preserves T oracle (mt_baseline target) original success ''minimize-candidate'' in
    (reduces P)\<^sup>*\<^sup>* (mt_steps target, mt_environment target) (mo_steps out, env) \<and>
    (\<forall>x. \<not> reduces P (mo_steps out, env) x) \<and>
    (mz_preserved (mo_minimization out) \<longleftrightarrow> P (mo_steps out) env = Ok True) \<and>
    (P (mt_steps target) (mt_environment target) = Ok True \<longrightarrow> mz_preserved (mo_minimization out)) \<and>
    mo_steps out \<noteq> []"
proof -
  let ?P = "preserves T oracle (mt_baseline target) original success ''minimize-candidate''"
  from minimize_unfold [OF assms] obtain env where
    m: "(reduces ?P)\<^sup>*\<^sup>* (mt_steps target, mt_environment target) (mo_steps out, env)"
      "\<forall>x. \<not> reduces ?P (mo_steps out, env) x" "?P (mo_steps out) env = Ok (mz_preserved (mo_minimization out))" by blast
  have "mo_steps out \<noteq> []" using m(3) by (auto simp: preserves_def run_steps_def split: if_splits)
  moreover have "?P (mt_steps target) (mt_environment target) = Ok True \<longrightarrow> mz_preserved (mo_minimization out)"
    using reduces_rtranclp_accepted [OF m(1)] m(3) by auto
  ultimately show ?thesis using m unfolding Let_def by (intro exI [of _ env]) auto
qed

text \<open>
  The default oracle declares nothing and passes every observation, so \<open>minimize\<close> can never reduce a
  finding, nor confirm it.
\<close>

lemma minimize_keeps_findings:
  assumes "minimize T dbg target (Finding r) success = Ok out"
  shows "mo_steps out = mt_steps target \<and> \<not> mz_preserved (mo_minimization out)"
proof -
  let ?P = "preserves T default_oracle (mt_baseline target) (Finding r) success ''minimize-candidate''"
  have never: "?P steps env \<noteq> Ok True" for steps env
    by (auto simp: preserves_def classify_default_oracle)
  then have stuck: "\<not> reduces ?P x y" for x y by (auto elim: reduces.cases)
  from assms have "minimize_with_oracle T dbg target default_oracle (Finding r) success = Ok out"
    by (simp add: minimize_def)
  from minimize_unfold [OF this] obtain env where
    m: "(reduces ?P)\<^sup>*\<^sup>* (mt_steps target, mt_environment target) (mo_steps out, env)"
      "?P (mo_steps out) env = Ok (mz_preserved (mo_minimization out))" by blast
  from m(1) stuck have "mo_steps out = mt_steps target" by (auto elim: converse_rtranclpE)
  with m(2) never show ?thesis by (cases "mz_preserved (mo_minimization out)") auto
qed

text \<open>Complexity: reductions never make a case more complex.\<close>

lemma bits_ge_1: "1 \<le> bits n" and bits_0 [simp]: "bits 0 = 1"
  by (simp_all add: bits_def bit_length.simps [of 0])

lemma bits_sum_ge: "Suc (Suc 0) \<le> bits a + bits b"
  using bits_ge_1 [of a] bits_ge_1 [of b] by simp

lemma unsigned_abs_0 [simp]: "unsigned_abs 0 = 0"
  by (simp add: unsigned_abs_def)

lemma ladder_complexity:
  assumes "\<And>a b c d. dbg (VU256 0 0 0 0) \<le> dbg (VU256 a b c d)" and "\<And>a b c d. dbg (VI256 0 0 0 0) \<le> dbg (VI256 a b c d)"
    and "v' \<in> set (reduction_ladder v)"
  shows "arg_complexity dbg v' \<le> arg_complexity dbg v"
  using assms bits_ge_1 by (cases v rule: reduction_ladder.cases) (auto split: if_splits simp: bits_sum_ge)

lemma sum_list_update_le:
  "s < length xs \<Longrightarrow> f y \<le> (f (xs ! s) :: nat) \<Longrightarrow> sum_list (map f (xs[s := y])) \<le> sum_list (map f xs)"
proof (induction xs arbitrary: s)
  case (Cons x xs)
  then show ?case by (cases s) auto
qed simp

lemma reduces_complexity:
  assumes dbg: "\<And>a b c d. dbg (VU256 0 0 0 0) \<le> dbg (VU256 a b c d)" "\<And>a b c d. dbg (VI256 0 0 0 0) \<le> dbg (VI256 a b c d)"
  shows "reduces P x y \<Longrightarrow> sequence_complexity dbg (fst y) \<le> sequence_complexity dbg (fst x)"
proof (induction rule: reduces.induct)
  case (remove_step i steps env)
  then show ?case
    using sum_list_remove_nth [of "\<lambda>s. sum_list (map (arg_complexity dbg) (fc_args s))" i steps]
    by (auto simp: sequence_complexity_def length_remove_nth)
next
  case (reduce_value s steps a v env)
  let ?f = "\<lambda>s. sum_list (map (arg_complexity dbg) (fc_args s))"
  have "?f ((steps ! s) \<lparr>fc_args := (fc_args (steps ! s))[a := v]\<rparr>) \<le> ?f (steps ! s)"
    using sum_list_update_le [OF reduce_value(2) ladder_complexity [OF dbg reduce_value(3)]] by simp
  from sum_list_update_le [where f = ?f, OF reduce_value(1) this] show ?case
    by (simp add: sequence_complexity_def set_arg_def)
qed simp

text \<open>
  Minimization never makes a case more complex: the reported complexity of the result is at
  most that of the input. The hypotheses are that the debug text of a 256-bit zero is not longer
  than that of another 256-bit integer.
\<close>

theorem minimized_complexity_bound:
  assumes "minimize_with_oracle T dbg target oracle original success = Ok out"
    and dbg: "\<And>a b c d. dbg (VU256 0 0 0 0) \<le> dbg (VU256 a b c d)" "\<And>a b c d. dbg (VI256 0 0 0 0) \<le> dbg (VI256 a b c d)"
  shows "mz_minimized_complexity (mo_minimization out) \<le> mz_original_complexity (mo_minimization out)"
proof -
  have "(reduces P)\<^sup>*\<^sup>* x y \<Longrightarrow> sequence_complexity dbg (fst y) \<le> sequence_complexity dbg (fst x)" for P x y
    by (induction rule: rtranclp_induct) (auto dest: reduces_complexity [OF dbg])
  with minimize_unfold [OF assms(1)] show ?thesis by (metis fst_conv)
qed

text \<open>
  The candidates of a minimization: non-empty sequences of calls of the target's functions, in its
  environment or the reduced one. They are closed under the reductions; where every candidate can be
  run, every pass gives a result.
\<close>

definition candidate :: "minimization_target \<Rightarrow> function_call list \<Rightarrow> environment \<Rightarrow> bool" where
  "candidate target steps env \<longleftrightarrow>
     steps \<noteq> [] \<and> fc_function ` set steps \<subseteq> fc_function ` set (mt_steps target) \<and>
     env \<in> {mt_environment target, reduced_env (mt_environment target)}"

abbreviation candidate_state :: "minimization_target \<Rightarrow> min_state \<Rightarrow> bool" where
  "candidate_state target st \<equiv> candidate target (ms_steps st) (ms_env st)"

lemma candidate_remove: "candidate target steps env \<Longrightarrow> 0 < i \<Longrightarrow> candidate target (remove_nth i steps) env"
  by (cases i; cases steps) (auto simp: candidate_def remove_nth_def dest!: in_set_takeD in_set_dropD)

lemma candidate_set_arg: "candidate target steps env \<Longrightarrow> candidate target (set_arg steps s a v) env"
proof (cases "s < length steps")
  case True
  assume *: "candidate target steps env"
  have "fc_function ` set (set_arg steps s a v) \<subseteq> insert (fc_function (steps ! s)) (fc_function ` set steps)"
    using set_update_subset_insert [of steps s] by (fastforce simp: set_arg_def)
  also have "\<dots> \<subseteq> fc_function ` set steps" using True by auto
  finally show ?thesis using * by (auto simp: candidate_def set_arg_def)
qed (simp add: set_arg_def list_update_beyond)

lemma candidate_env: "candidate target steps env \<Longrightarrow> candidate target steps (reduced_env env)"
  by (auto simp: candidate_def reduced_env_idem)

lemma accept_steps_fields [simp]:
  "ms_steps (accept_steps dbg kind detail steps st) = steps" "ms_env (accept_steps dbg kind detail steps st) = ms_env st"
  by (simp_all add: accept_steps_def)

lemma minimize_pass_total:
  assumes P: "\<And>steps env. candidate t steps env \<Longrightarrow> \<exists>b. P steps env = Ok b" and ne: "candidate_state t st"
  shows "\<exists>r. minimize_pass dbg P st = Ok r \<and> candidate_state t (fst r)"
proof -
  have rem: "\<exists>r. remove_steps dbg P st n = Ok r \<and> candidate_state t (fst r)" for n
  proof (induction n)
    case (Suc n)
    show ?case
    proof (cases "n = 0")
      case False
      then have c: "candidate t (remove_nth n (ms_steps st)) (ms_env st)" using ne by (intro candidate_remove) auto
      from P [OF this] obtain b where "P (remove_nth n (ms_steps st)) (ms_env st) = Ok b" by blast
      then show ?thesis using Suc c by (cases b) (auto simp: Let_def)
    qed (use ne in auto)
  qed (use ne in auto)
  have ladder: "\<exists>r. try_ladder dbg P s a st vs = Ok r \<and> candidate_state t (fst r)" if "candidate_state t st" for s a st vs
  proof (induction vs)
    case (Cons v vs)
    note c = candidate_set_arg [OF that, of s a v]
    from P [OF c] obtain b where "P (set_arg (ms_steps st) s a v) (ms_env st) = Ok b" by auto
    then show ?case using Cons that c by (cases b) (auto simp: Let_def)
  qed (use that in auto)
  have fold: "\<exists>r. try_fold f x is = Ok r \<and> candidate_state t (fst r)"
    if "\<And>x i. candidate_state t (fst x) \<Longrightarrow> \<exists>r. f x i = Ok r \<and> candidate_state t (fst r)" "candidate_state t (fst x)"
    for f :: "min_state \<times> bool \<Rightarrow> nat \<Rightarrow> (min_state \<times> bool, fuzz_error) result" and x "is"
    using that(2)
  proof (induction "is" arbitrary: x)
    case (Cons i "is")
    with that(1) [of x i] show ?case by auto
  qed simp
  have args: "\<exists>r. reduce_step_args dbg P x s = Ok r \<and> candidate_state t (fst r)" if "candidate_state t (fst x)" for x s
  proof -
    have "\<exists>r. reduce_arg dbg P s y a = Ok r \<and> candidate_state t (fst r)" if "candidate_state t (fst y)" for y a
      using ladder [of "fst y" s a "reduction_ladder (fc_args (ms_steps (fst y) ! s) ! a)"] that
      by (cases y) (force simp: reduce_arg_def)
    from fold [OF this that] show ?thesis by (cases x) (simp add: reduce_step_args_def)
  qed
  have env: "\<exists>r. reduce_environment P x = Ok r \<and> candidate_state t (fst r)" if "candidate_state t (fst x)" for x
  proof -
    obtain st acc where x: "x = (st, acc)" by (cases x)
    from P [OF candidate_env [OF that]] x obtain b
      where "P (ms_steps st) (reduced_env (ms_env st)) = Ok b" by auto
    then show ?thesis using that x candidate_env [OF that] by (cases b) (auto simp: reduce_environment_def)
  qed
  have "\<exists>r1. (if length (ms_steps st) > 1 then remove_steps dbg P st (length (ms_steps st)) else Ok (st, False)) = Ok r1 \<and>
      candidate_state t (fst r1)"
    using rem [of "length (ms_steps st)"] ne by (cases "length (ms_steps st) > 1") auto
  then obtain r1 where
    r1: "(if length (ms_steps st) > 1 then remove_steps dbg P st (length (ms_steps st)) else Ok (st, False)) = Ok r1"
      "candidate_state t (fst r1)" by blast
  from fold [where f = "reduce_step_args dbg P", OF args r1(2)] obtain r2 where
    r2: "try_fold (reduce_step_args dbg P) r1 (rev [0..<length (ms_steps (fst r1))]) = Ok r2" "candidate_state t (fst r2)" by blast
  from env [OF r2(2)] show ?thesis using r1 r2 by (cases r1) (auto simp: minimize_pass_def)
qed

lemma minimize_loop_total:
  assumes P: "\<And>steps env. candidate t steps env \<Longrightarrow> \<exists>b. P steps env = Ok b"
  shows "candidate_state t st \<Longrightarrow> \<exists>st'. minimize_loop dbg P st = Ok st' \<and> candidate_state t st'"
proof (induction "weight (view st)" arbitrary: st rule: less_induct)
  case less
  from minimize_pass_total [where P = P and dbg = dbg, OF P less.prems] obtain r
    where r: "minimize_pass dbg P st = Ok r" "candidate_state t (fst r)" by blast
  obtain st1 acc where "r = (st1, acc)" by (cases r)
  with r have pass: "minimize_pass dbg P st = Ok (st1, acc)" and ne: "candidate_state t st1" by simp_all
  show ?case
  proof (cases acc)
    case True
    with minimize_pass_outcome [OF pass] have "weight (view st1) < weight (view st)"
      by (auto simp: outcome_def dest: reduces_tranclp_weight)
    from less.hyps [OF this ne] show ?thesis using pass True by (subst minimize_loop.simps) simp
  next
    case False
    then show ?thesis using pass ne by (subst minimize_loop.simps) simp
  qed
qed

lemma minimize_total:
  assumes "mt_steps target \<noteq> []"
    and "\<And>steps env id. candidate target steps env \<Longrightarrow> \<exists>obs. run_steps T (mt_baseline target) env steps id = Ok obs"
  shows "\<exists>out. minimize_with_oracle T dbg target oracle original success = Ok out"
proof -
  let ?check = "preserves T oracle (mt_baseline target) original success"
  let ?start = "\<lparr>ms_steps = mt_steps target, ms_env = mt_environment target,
    ms_complexity = sequence_complexity dbg (mt_steps target), ms_reductions = []\<rparr>"
  have P: "\<exists>b. ?check id steps env = Ok b" if "candidate target steps env" for id steps env
    using assms(2) [OF that, of id] by (auto simp: preserves_def)
  have "candidate_state target ?start" using assms(1) by (simp add: candidate_def)
  from minimize_loop_total [where P = "?check ''minimize-candidate''" and dbg = dbg, OF P this]
  obtain st where "minimize_loop dbg (?check ''minimize-candidate'') ?start = Ok st" "candidate_state target st" by blast
  moreover from P [OF this(2)] obtain b where "?check ''minimize-final'' (ms_steps st) (ms_env st) = Ok b" by blast
  ultimately show ?thesis by (simp add: minimize_with_oracle_def Let_def)
qed

text \<open>
  C18. Minimization always comes to an end with a result: for a non-empty sequence, when every
  candidate (a non-empty sequence of calls of its functions, in its environment or the reduced one)
  can be run, with whatever outcome, the loop of passes terminates and an outcome is returned.
\<close>

theorem minimize_returns:
  assumes "mt_steps target \<noteq> []"
    and "\<And>steps env id. candidate target steps env \<Longrightarrow> \<exists>obs. run_steps T (mt_baseline target) env steps id = Ok obs"
  shows "\<exists>out. minimize_with_oracle T dbg target oracle original success = Ok out"
  using minimize_total [OF assms] .

section \<open>A host with a timestamp-dependent error\<close>

text \<open>The call fails on the argument 5 at any time, and on every argument when the timestamp is zero.\<close>

definition shaky_fails_at :: "64 word \<Rightarrow> function_call \<Rightarrow> bool" where
  "shaky_fails_at time call \<longleftrightarrow> fc_args call = [VU32 5] \<or> time = 0"

abbreviation shaky_fails :: "environment \<Rightarrow> function_call \<Rightarrow> bool" where
  "shaky_fails env \<equiv> shaky_fails_at (lg_timestamp (env_ledger env))"

definition shaky_tools :: fuzz_tools where
  "shaky_tools = demo_tools
     \<lparr>ft_invoke := \<lambda>budget info live inst data call auth. Ok
        \<lparr>hr_invoke_result = (if shaky_fails_at (li_timestamp info) call then Inl \<lparr>he_type = Some EtContract, he_code = 1\<rparr> else Inr []),
         hr_ledger_changes = [], hr_events = [],
         hr_budget = \<lparr>bu_consumed_cpu = 0, bu_consumed_mem = 0, bu_remaining_cpu = 0, bu_remaining_mem = 0\<rparr>\<rparr>\<rparr>"

definition success_oracle :: fuzz_oracle where
  "success_oracle =
     \<lparr>or_expected = \<lparr>ex_behavior = ExpectSuccess None, ex_state = None, ex_events = None,
        ex_auth_required = False, ex_resource_limit_is_finding = False\<rparr>, or_auth_mode = NoAuth\<rparr>"

definition shaky_call :: "32 word \<Rightarrow> function_call" where
  "shaky_call x = \<lparr>fc_function = ''f'', fc_args = [VU32 x]\<rparr>"

definition late_environment :: environment where
  "late_environment = \<lparr>env_ledger = \<lparr>lg_sequence_number = 1000000, lg_timestamp = 9\<rparr>, env_budget = BudgetDefault\<rparr>"

definition shaky_target :: minimization_target where
  "shaky_target = \<lparr>mt_steps = [shaky_call 5], mt_baseline = [], mt_environment = late_environment\<rparr>"

lemma shaky_environments [simp]:
  "env_budget late_environment = BudgetDefault" "env_budget default_environment = BudgetDefault"
  by (simp_all add: late_environment_def default_environment_def default_ledger_config_def)

lemma shaky_run:
  assumes "env_budget env = BudgetDefault" and "length (fc_function call) \<le> 32"
  shows "\<exists>obs. run_steps shaky_tools [] env [call] cid = Ok obs \<and>
     (classify success_oracle obs = Finding UnexpectedError \<longleftrightarrow> shaky_fails env call) \<and>
     (is_success obs \<longleftrightarrow> \<not> shaky_fails env call)"
  using assms
  by (simp add: run_steps_def execute_with_def execute_with_auth_def executor_case_def case_instance_def shaky_tools_def
      make_budget_def invoke_contract_def ledger_info_of_def demo_tools_def result_status_def error_type_and_code_def decode_events_def classify_def classify_outcome_def
      success_oracle_def is_success_def state_entries_from_footprint_def)

lemma shaky_preserves:
  assumes "env_budget env = BudgetDefault" and "length (fc_function call) \<le> 32"
  shows "preserves shaky_tools success_oracle [] (Finding UnexpectedError) False cid [call] env = Ok (shaky_fails env call)"
proof -
  from shaky_run [OF assms] obtain obs where "run_steps shaky_tools [] env [call] cid = Ok obs"
    "classify success_oracle obs = Finding UnexpectedError \<longleftrightarrow> shaky_fails env call"
    "is_success obs \<longleftrightarrow> \<not> shaky_fails env call" by blast
  then show ?thesis by (auto simp: preserves_def)
qed

lemma shaky_minimized:
  "\<exists>out. minimize_with_oracle shaky_tools dbg shaky_target success_oracle (Finding UnexpectedError) False = Ok out \<and>
     mo_steps out = [shaky_call 0] \<and> mz_preserved (mo_minimization out)"
proof -
  let ?P = "\<lambda>cid. preserves shaky_tools success_oracle [] (Finding UnexpectedError) False cid"
  let ?env = default_environment
  note pass = minimize_pass_def reduce_step_args_def reduce_arg_def set_arg_def reduce_environment_def Let_def
    accept_steps_def shaky_preserves shaky_call_def shaky_fails_at_def
  have r: "reduced_env late_environment = ?env" "late_environment \<noteq> ?env"
    by (simp_all add: reduced_env_def late_environment_def default_environment_def default_ledger_config_def)
  have pass1: "\<exists>c rs. minimize_pass dbg (?P cid) \<lparr>ms_steps = [shaky_call 5], ms_env = late_environment, ms_complexity = n,
      ms_reductions = rds\<rparr> = Ok (\<lparr>ms_steps = [shaky_call 5], ms_env = ?env, ms_complexity = c, ms_reductions = rs\<rparr>, True)" for cid n rds
    using r by (simp add: pass late_environment_def)
  have pass2: "\<exists>c rs. minimize_pass dbg (?P cid) \<lparr>ms_steps = [shaky_call 5], ms_env = ?env, ms_complexity = n,
      ms_reductions = rds\<rparr> = Ok (\<lparr>ms_steps = [shaky_call 0], ms_env = ?env, ms_complexity = c, ms_reductions = rs\<rparr>, True)" for cid n rds
    by (simp add: pass default_environment_def default_ledger_config_def)
  have pass3: "minimize_pass dbg (?P cid) \<lparr>ms_steps = [shaky_call 0], ms_env = ?env, ms_complexity = n,
      ms_reductions = rds\<rparr> = Ok (\<lparr>ms_steps = [shaky_call 0], ms_env = ?env, ms_complexity = n, ms_reductions = rds\<rparr>, False)" for cid n rds
    by (simp add: pass)
  have loop: "\<exists>c rs. minimize_loop dbg (?P cid) \<lparr>ms_steps = [shaky_call 5], ms_env = late_environment, ms_complexity = n,
      ms_reductions = rds\<rparr> = Ok \<lparr>ms_steps = [shaky_call 0], ms_env = ?env, ms_complexity = c, ms_reductions = rs\<rparr>" for cid n rds
  proof -
    from pass1 [of cid n rds] obtain c1 rs1 where p1: "minimize_pass dbg (?P cid) \<lparr>ms_steps = [shaky_call 5],
        ms_env = late_environment, ms_complexity = n, ms_reductions = rds\<rparr> =
        Ok (\<lparr>ms_steps = [shaky_call 5], ms_env = ?env, ms_complexity = c1, ms_reductions = rs1\<rparr>, True)" by blast
    from pass2 [of cid c1 rs1] obtain c2 rs2 where p2: "minimize_pass dbg (?P cid) \<lparr>ms_steps = [shaky_call 5],
        ms_env = ?env, ms_complexity = c1, ms_reductions = rs1\<rparr> =
        Ok (\<lparr>ms_steps = [shaky_call 0], ms_env = ?env, ms_complexity = c2, ms_reductions = rs2\<rparr>, True)" by blast
    show ?thesis
      by (subst minimize_loop.simps, simp only: p1 result.case prod.case if_True,
          subst minimize_loop.simps, simp only: p2 result.case prod.case if_True,
          subst minimize_loop.simps, simp add: pass3)
  qed
  have final: "?P ''minimize-final'' [shaky_call 0] ?env = Ok True"
    by (simp add: shaky_preserves shaky_call_def shaky_fails_at_def default_environment_def default_ledger_config_def)
  from loop [of "''minimize-candidate''" "sequence_complexity dbg [shaky_call 5]" "[]"] show ?thesis
    by (auto simp: minimize_with_oracle_def shaky_target_def Let_def final)
      (rule exI, rule conjI, rule exI [of _ True], rule conjI, rule TrueI, rule refl, simp)
qed

text \<open>
  The reduced environment is lost: the outcome reports the finding as preserved, but it holds
  only the steps, and the steps alone need not show the finding in the environment they came from.
  Here the minimizer first resets the timestamp, then simplifies the argument, and the remaining
  call passes in the original environment.
\<close>

theorem minimized_environment_lost:
  "\<exists>T dbg target oracle out obs.
     preserves T oracle (mt_baseline target) (Finding UnexpectedError) False ''minimize-candidate''
       (mt_steps target) (mt_environment target) = Ok True \<and>
     minimize_with_oracle T dbg target oracle (Finding UnexpectedError) False = Ok out \<and>
     mz_preserved (mo_minimization out) \<and>
     run_steps T (mt_baseline target) (mt_environment target) (mo_steps out) ''replay'' = Ok obs \<and>
     classify oracle obs \<noteq> Finding UnexpectedError"
proof -
  from shaky_minimized [of "\<lambda>_. 0"] obtain out where
    out: "minimize_with_oracle shaky_tools (\<lambda>_. 0) shaky_target success_oracle (Finding UnexpectedError) False = Ok out"
      "mo_steps out = [shaky_call 0]" "mz_preserved (mo_minimization out)" by blast
  from shaky_run [of late_environment "shaky_call 0" "''replay''"] obtain obs where
    obs: "run_steps shaky_tools [] late_environment [shaky_call 0] ''replay'' = Ok obs"
      "classify success_oracle obs \<noteq> Finding UnexpectedError"
    by (auto simp: shaky_fails_at_def shaky_call_def late_environment_def)
  have "preserves shaky_tools success_oracle [] (Finding UnexpectedError) False ''minimize-candidate'' [shaky_call 5] late_environment = Ok True"
    by (simp add: shaky_preserves shaky_fails_at_def shaky_call_def)
  with out obs show ?thesis
    by (intro exI [of _ shaky_tools] exI [of _ "\<lambda>_. 0"] exI [of _ shaky_target] exI [of _ success_oracle] exI [of _ out]
        exI [of _ obs]) (simp add: shaky_target_def)
qed

section \<open>Witnesses\<close>

theorem minimize_local_minimum_witness:
  "\<exists>out. minimize_with_oracle shaky_tools (\<lambda>_. 0) shaky_target success_oracle (Finding UnexpectedError) False = Ok out \<and>
     mz_preserved (mo_minimization out) \<and>
     (reduces (preserves shaky_tools success_oracle [] (Finding UnexpectedError) False ''minimize-candidate''))\<^sup>*\<^sup>*
       ([shaky_call 5], late_environment) ([shaky_call 0], default_environment)"
proof -
  let ?P = "preserves shaky_tools success_oracle [] (Finding UnexpectedError) False ''minimize-candidate''"
  from shaky_minimized obtain out where
    out: "minimize_with_oracle shaky_tools (\<lambda>_. 0) shaky_target success_oracle (Finding UnexpectedError) False = Ok out"
      "mo_steps out = [shaky_call 0]" by blast
  have start: "?P (mt_steps shaky_target) (mt_environment shaky_target) = Ok True"
    by (simp add: shaky_target_def shaky_preserves shaky_fails_at_def shaky_call_def)
  from minimize_local_minimum [OF out(1)] start obtain env where
    env: "(reduces ?P)\<^sup>*\<^sup>* ([shaky_call 5], late_environment) ([shaky_call 0], env)"
      "?P [shaky_call 0] env = Ok True" "\<forall>x. \<not> reduces ?P ([shaky_call 0], env) x" "mz_preserved (mo_minimization out)"
    by (auto simp: Let_def out(2) shaky_target_def)
  have "env = late_environment \<or> env = default_environment"
  proof -
    have "(reduces ?P)\<^sup>*\<^sup>* x y \<Longrightarrow> snd x \<in> {late_environment, default_environment} \<Longrightarrow>
        snd y \<in> {late_environment, default_environment}" for x y
    proof (induction rule: rtranclp_induct)
      case (step y z)
      then show ?case
        by (auto elim!: reduces.cases simp: reduced_env_def late_environment_def default_environment_def default_ledger_config_def)
    qed
    from this [OF env(1)] show ?thesis by simp
  qed
  moreover have "\<not> shaky_fails late_environment (shaky_call 0)"
    by (simp add: shaky_fails_at_def late_environment_def shaky_call_def)
  ultimately have "env = default_environment" using env(2) by (auto simp: shaky_preserves shaky_call_def)
  then show ?thesis using out env by blast
qed

theorem minimized_complexity_bound_witness:
  "\<exists>out. minimize_with_oracle shaky_tools (\<lambda>_. 0) shaky_target success_oracle (Finding UnexpectedError) False = Ok out \<and>
     mz_minimized_complexity (mo_minimization out) \<le> mz_original_complexity (mo_minimization out)"
proof -
  from shaky_minimized obtain out where
    out: "minimize_with_oracle shaky_tools (\<lambda>_. 0) shaky_target success_oracle (Finding UnexpectedError) False = Ok out" by blast
  from minimized_complexity_bound [OF out] out show ?thesis by simp
qed

lemma shaky_sequence_total:
  assumes "steps \<noteq> []" and env: "env_budget env = BudgetDefault"
    and names: "\<And>c. c \<in> set steps \<Longrightarrow> length (fc_function c) \<le> 32"
  shows "\<exists>obs. run_steps shaky_tools [] env steps cid = Ok obs"
proof -
  have step: "\<exists>x. run_step shaky_tools env cid [] (\<lparr>sq_data_entries = [], sq_instance_storage = []\<rparr>, observed) (i, call) =
      Ok (\<lparr>sq_data_entries = [], sq_instance_storage = []\<rparr>, observed @ [x])"
    if "length (fc_function call) \<le> 32" for observed i call
    using that env
    by (simp add: run_step_def make_budget_def invoke_contract_def ledger_info_of_def execute_with_def execute_with_auth_def executor_case_def with_instance_storage_def
        case_instance_def shaky_tools_def demo_tools_def result_status_def error_type_and_code_def decode_events_def
        apply_state_delta_def state_entries_from_footprint_def Let_def)
  have "\<exists>os. length os = length calls \<and> try_fold (run_step shaky_tools env cid [])
      (\<lparr>sq_data_entries = [], sq_instance_storage = []\<rparr>, observed) (enumerate n calls) =
      Ok (\<lparr>sq_data_entries = [], sq_instance_storage = []\<rparr>, observed @ os)"
    if "\<And>c. c \<in> set calls \<Longrightarrow> length (fc_function c) \<le> 32" for observed n calls
    using that
  proof (induction calls arbitrary: observed n)
    case (Cons call calls)
    have "length (fc_function call) \<le> 32" using Cons.prems by simp
    from step [OF this, of observed n] obtain x where
      "run_step shaky_tools env cid [] (\<lparr>sq_data_entries = [], sq_instance_storage = []\<rparr>, observed) (n, call) =
        Ok (\<lparr>sq_data_entries = [], sq_instance_storage = []\<rparr>, observed @ [x])" by blast
    moreover have "\<And>c. c \<in> set calls \<Longrightarrow> length (fc_function c) \<le> 32" using Cons.prems by simp
    from Cons.IH [OF this, of "observed @ [x]" "Suc n"] obtain os where "length os = length calls"
      "try_fold (run_step shaky_tools env cid []) (\<lparr>sq_data_entries = [], sq_instance_storage = []\<rparr>, observed @ [x])
        (enumerate (Suc n) calls) = Ok (\<lparr>sq_data_entries = [], sq_instance_storage = []\<rparr>, (observed @ [x]) @ os)" by blast
    ultimately show ?case by (intro exI [of _ "x # os"]) simp
  qed simp
  from this [of steps "[]" 0] names obtain os where "length os = length steps"
    "try_fold (run_step shaky_tools env cid []) (\<lparr>sq_data_entries = [], sq_instance_storage = []\<rparr>, []) (enumerate 0 steps) =
      Ok (\<lparr>sq_data_entries = [], sq_instance_storage = []\<rparr>, os)" by auto
  moreover from this(1) assms have "os \<noteq> []" by auto
  ultimately have "\<exists>run. execute_sequence shaky_tools [] env steps cid = Ok run"
    using assms by (auto simp: execute_sequence_def execute_sequence_auth_def from_baseline_def)
  then show ?thesis using assms shaky_run [of env "steps ! 0" cid] names [of "steps ! 0"]
    by (cases "length steps = 1") (auto simp: run_steps_def length_Suc_conv)
qed

theorem minimize_returns_witness:
  "\<exists>out. minimize_with_oracle shaky_tools (\<lambda>_. 0)
     \<lparr>mt_steps = [shaky_call 5, shaky_call 1, shaky_call 0], mt_baseline = [], mt_environment = late_environment\<rparr>
     success_oracle Pass True = Ok out"
proof (rule minimize_returns)
  fix steps env cid
  assume c: "candidate \<lparr>mt_steps = [shaky_call 5, shaky_call 1, shaky_call 0], mt_baseline = [],
      mt_environment = late_environment\<rparr> steps env"
  have "env_budget (reduced_env late_environment) = BudgetDefault"
    by (simp add: reduced_env_def late_environment_def)
  with c have "env_budget env = BudgetDefault" by (auto simp: candidate_def)
  moreover from c have "\<And>x. x \<in> set steps \<Longrightarrow> length (fc_function x) \<le> 32"
    by (fastforce simp: candidate_def shaky_call_def)
  moreover from c have "steps \<noteq> []" by (simp add: candidate_def)
  ultimately show "\<exists>obs. run_steps shaky_tools (mt_baseline \<lparr>mt_steps = [shaky_call 5, shaky_call 1, shaky_call 0],
      mt_baseline = [], mt_environment = late_environment\<rparr>) env steps cid = Ok obs"
    using shaky_sequence_total by simp
qed simp

end
