(* ===== verification/Fuzz_Generator.thy ===== *)
theory Fuzz_Generator
  imports Fuzz_Exec Contract_Spec Network_Profile
begin

text \<open>
  The deterministic generation of typed inputs (\<^verbatim>\<open>sdkt-fuzz/src/generator.rs\<close>): the SplitMix64
  generator, the derivation of its keys, the values of a contract type, and the selection of the
  functions a campaign can call.

  SHA-256 and the order of XDR values are parameters (\<open>sha\<close>, \<open>le\<close>). A key is a list of bytes. The
  generator state is passed explicitly; its arithmetic wraps at 64 bits.
\<close>

section \<open>The generator of pseudo-random words\<close>

type_synonym split_mix64 = "64 word"

fun le_value :: "string \<Rightarrow> nat" where
  "le_value [] = 0"
| "le_value (c # cs) = of_char c + 256 * le_value cs"

definition keyed :: "(string \<Rightarrow> string) \<Rightarrow> string \<Rightarrow> split_mix64" where
  "keyed sha bytes = word_of_nat (le_value (take 8 (sha bytes)))"

definition next_u64 :: "split_mix64 \<Rightarrow> 64 word \<times> split_mix64" where
  "next_u64 rng =
     (let s = rng + 0x9E3779B97F4A7C15;
          z = xor s (drop_bit 30 s) * 0xBF58476D1CE4E5B9;
          z = xor z (drop_bit 27 z) * 0x94D049BB133111EB
      in (xor z (drop_bit 31 z), s))"

definition below :: "64 word \<Rightarrow> split_mix64 \<Rightarrow> 64 word \<times> split_mix64" where
  "below bound rng = (let (w, rng) = next_u64 rng in (w mod (if bound = 0 then 1 else bound), rng))"

definition u64_le_bytes :: "64 word \<Rightarrow> string" where
  "u64_le_bytes w = rev (u64_bytes w)"

definition u32_le_bytes :: "32 word \<Rightarrow> string" where
  "u32_le_bytes w = rev (u32_bytes w)"

lemma length_u64_le_bytes [simp]: "length (u64_le_bytes w) = 8"
  by (simp add: u64_le_bytes_def u64_bytes_def)

function rng_bytes_loop :: "nat \<Rightarrow> string \<Rightarrow> split_mix64 \<Rightarrow> string \<times> split_mix64" where
  "rng_bytes_loop len out rng =
     (if length out < len then
        let (w, rng) = next_u64 rng in rng_bytes_loop len (out @ u64_le_bytes w) rng
      else (take len out, rng))"
  by pat_completeness auto
termination by (relation "measure (\<lambda>(len, out, _). len - length out)") auto

declare rng_bytes_loop.simps [simp del]

definition rng_bytes :: "nat \<Rightarrow> split_mix64 \<Rightarrow> string \<times> split_mix64" where
  "rng_bytes len rng = rng_bytes_loop len [] rng"

section \<open>Keys\<close>

definition derive_key :: "(string \<Rightarrow> string) \<Rightarrow> string \<Rightarrow> string list \<Rightarrow> string" where
  "derive_key sha seed labels = sha (seed @ concat (map (\<lambda>l. l @ [CHR 0xFF]) labels))"

definition derive_key_child :: "(string \<Rightarrow> string) \<Rightarrow> string \<Rightarrow> string \<Rightarrow> string" where
  "derive_key_child sha parent_key label = sha (parent_key @ label)"

definition hex_digit :: "nat \<Rightarrow> char" where
  "hex_digit d = (if d < 10 then digit_char d else char_of (d + 87))"

definition hex :: "string \<Rightarrow> string" where
  "hex bytes = concat (map (\<lambda>b. [hex_digit (of_char b div 16), hex_digit (of_char b mod 16)]) bytes)"

section \<open>Values of a type\<close>

record generation_caps =
  gc_max_depth :: "32 word"
  gc_max_vec_len :: nat
  gc_max_byte_len :: nat
  gc_max_map_entries :: nat

definition default_generation_caps :: generation_caps where
  "default_generation_caps =
     \<lparr>gc_max_depth = 3, gc_max_vec_len = 4, gc_max_byte_len = 32, gc_max_map_entries = 4\<rparr>"

record unsupported_contract_type =
  ut_type_name :: string
  ut_type_kind :: string

definition unsupported_display :: "unsupported_contract_type \<Rightarrow> string" where
  "unsupported_display u =
     ''unsupported contract type `'' @ ut_type_name u @ ''` (kind `'' @ ut_type_kind u @ ''`)''"

datatype generator_error =
    FunctionNotFound string
  | Unsupported unsupported_contract_type

fun generator_error_display :: "generator_error \<Rightarrow> string" where
  "generator_error_display (FunctionNotFound f) = ''function `'' @ f @ ''` not found in ContractSpec''"
| "generator_error_display (Unsupported u) = unsupported_display u"

record generated_call =
  gn_function :: string
  gn_args :: "sc_val list"
  gn_generation_id :: string

definition supported_primitives :: "string list" where
  "supported_primitives =
     [''bool'', ''u32'', ''i32'', ''u64'', ''i64'', ''u128'', ''i128'', ''string'', ''bytes'', ''address'',
      ''muxed_address'']"

lemma size_type_arg [termination_simp]: "x \<in> set (ct_type_args t) \<Longrightarrow> size x < size t"
proof (cases t)
  case (ContractType n k d m a b)
  assume "x \<in> set (ct_type_args t)"
  then have "x \<in> set a" using ContractType by simp
  then have "size x \<le> size_list size a" by (simp add: size_list_estimation')
  then show ?thesis using ContractType by simp
qed

fun type_supported :: "contract_type \<Rightarrow> bool" where
  "type_supported t =
     (if ct_kind t = ''primitive'' then ct_name t \<in> set supported_primitives
      else if ct_kind t = ''compound'' then
        (if starts_with ''vec<'' (ct_name t) \<or> starts_with ''option<'' (ct_name t) then
           (case ct_type_args t of [] \<Rightarrow> False | elem # _ \<Rightarrow> type_supported elem)
         else if starts_with ''map<'' (ct_name t) then
           length (ct_type_args t) = 2 \<and> (\<forall>a \<in> set (ct_type_args t). type_supported a)
         else False)
      else False)"

declare type_supported.simps [simp del]

definition unsupported_type :: "contract_type \<Rightarrow> unsupported_contract_type" where
  "unsupported_type t = \<lparr>ut_type_name = ct_name t, ut_type_kind = ct_kind t\<rparr>"

text \<open>The conversions of the XDR crate refuse more than \<^verbatim>\<open>u32::MAX\<close> elements.\<close>

definition xdr_vec :: "'a list \<Rightarrow> 'a list option" where
  "xdr_vec xs = (if length xs \<le> 4294967295 then Some xs else None)"

definition printable :: "char \<Rightarrow> char" where
  "printable b = char_of (0x20 + (of_char b :: nat) mod 0x5f)"

definition generate_primitive :: "string \<Rightarrow> split_mix64 \<Rightarrow> generation_caps \<Rightarrow> sc_val option" where
  "generate_primitive name rng caps =
     (if name = ''bool'' then Some (VBool (fst (below 2 rng) = 1))
      else if name = ''u32'' then Some (VU32 (ucast (fst (next_u64 rng))))
      else if name = ''i32'' then Some (VI32 (ucast (fst (next_u64 rng))))
      else if name = ''u64'' then Some (VU64 (fst (next_u64 rng)))
      else if name = ''i64'' then Some (VI64 (fst (next_u64 rng)))
      else if name = ''u128'' then
        let (hi, rng) = next_u64 rng; (lo, rng) = next_u64 rng in Some (VU128 hi lo)
      else if name = ''i128'' then
        let (hi, rng) = next_u64 rng; (lo, rng) = next_u64 rng in Some (VI128 hi lo)
      else if name = ''string'' then
        let (len, rng) = below (of_nat (gc_max_byte_len caps) + 1) rng;
            (bytes, rng) = rng_bytes (unat len) rng
        in map_option VString (xdr_vec (map printable bytes))
      else if name = ''bytes'' then
        let (len, rng) = below (of_nat (gc_max_byte_len caps) + 1) rng;
            (bytes, rng) = rng_bytes (unat len) rng
        in map_option VBytes (xdr_vec bytes)
      else if name = ''address'' then
        let (pk, rng) = rng_bytes 32 rng in Some (VAddress (AddrAccount pk))
      else if name = ''muxed_address'' then
        let (pk, rng) = rng_bytes 32 rng; (muxed_id, rng) = next_u64 rng
        in Some (VAddress (AddrMuxed muxed_id pk))
      else None)"

definition bottom_value :: "contract_type \<Rightarrow> (sc_val, unsupported_contract_type) result" where
  "bottom_value t =
     (if ct_kind t = ''primitive'' \<and> ct_name t = ''bool'' then Ok (VBool False)
      else if ct_kind t = ''compound'' \<and> starts_with ''option<'' (ct_name t) then Ok VVoid
      else if ct_kind t = ''compound'' \<and> starts_with ''vec<'' (ct_name t) then Ok (VVec None)
      else if ct_kind t = ''compound'' \<and> starts_with ''map<'' (ct_name t) then Ok (VMap None)
      else Err (unsupported_type t))"

definition random_count :: "nat \<Rightarrow> split_mix64 \<Rightarrow> nat \<times> split_mix64" where
  "random_count cap rng =
     (if cap = 0 then (0, rng)
      else let (w, rng) = below (of_nat cap + 1) rng in (unat w, rng))"

definition sort_entries :: "(sc_val \<Rightarrow> sc_val \<Rightarrow> bool) \<Rightarrow> (sc_val \<times> sc_val) list \<Rightarrow> (sc_val \<times> sc_val) list" where
  "sort_entries le entries = foldr (insert_by le) entries []"

function (sequential) generate_value ::
  "(string \<Rightarrow> string) \<Rightarrow> (sc_val \<Rightarrow> sc_val \<Rightarrow> bool) \<Rightarrow> generation_caps \<Rightarrow> contract_type \<Rightarrow> string \<Rightarrow>
   32 word \<Rightarrow> (sc_val, unsupported_contract_type) result" where
  "generate_value sha le caps t key depth =
     (if depth > gc_max_depth caps then bottom_value t
      else
        let rng = keyed sha (key @ u32_le_bytes depth) in
        if ct_kind t = ''primitive'' then
          ok_or (unsupported_type t) (generate_primitive (ct_name t) rng caps)
        else if ct_kind t = ''compound'' then
          (if starts_with ''vec<'' (ct_name t) then
             (case ct_type_args t of
                [] \<Rightarrow> Err (unsupported_type t)
              | elem # _ \<Rightarrow>
                  and_then (try_map (\<lambda>i. generate_value sha le caps elem
                              (derive_key_child sha key (''v'' @ show_nat i)) (depth + 1))
                            [0..<fst (random_count (gc_max_vec_len caps) rng)]) (\<lambda>items.
                  map_ok (\<lambda>vm. VVec (Some vm)) (ok_or (unsupported_type t) (xdr_vec items))))
           else if starts_with ''option<'' (ct_name t) then
             (case ct_type_args t of
                [] \<Rightarrow> Err (unsupported_type t)
              | elem # _ \<Rightarrow>
                  if fst (below 2 rng) = 0 then Ok VVoid
                  else generate_value sha le caps elem (derive_key_child sha key ''opt'') (depth + 1))
           else if starts_with ''map<'' (ct_name t) then
             (case ct_type_args t of
                kt # vt # _ \<Rightarrow>
                  and_then (try_map (\<lambda>i.
                              and_then (generate_value sha le caps kt
                                (derive_key_child sha key (''mk'' @ show_nat i)) (depth + 1)) (\<lambda>k.
                              map_ok (\<lambda>v. (k, v)) (generate_value sha le caps vt
                                (derive_key_child sha key (''mv'' @ show_nat i)) (depth + 1))))
                            [0..<fst (random_count (gc_max_map_entries caps) rng)]) (\<lambda>entries.
                  map_ok (\<lambda>vm. VMap (Some vm))
                    (ok_or (unsupported_type t) (xdr_vec (dedup_by_key (sort_entries le entries)))))
              | _ \<Rightarrow> Err (unsupported_type t))
           else Err (unsupported_type t))
        else Err (unsupported_type t))"
  by pat_completeness auto
termination
  by (relation "measure (\<lambda>(_, _, _, t, _, _). size t)") (auto intro!: size_type_arg)

declare generate_value.simps [simp del]

section \<open>Calls\<close>

definition find_function :: "contract_spec \<Rightarrow> string \<Rightarrow> contract_function option" where
  "find_function spec name = find (\<lambda>f. cf_name f = name) (cs_functions spec)"

definition generate_arg ::
  "(string \<Rightarrow> string) \<Rightarrow> (sc_val \<Rightarrow> sc_val \<Rightarrow> bool) \<Rightarrow> generation_caps \<Rightarrow> string \<Rightarrow> nat \<times> contract_parameter \<Rightarrow>
   (sc_val, generator_error) result" where
  "generate_arg sha le caps root_key ip =
     (let (i, p) = ip in
      if \<not> type_supported (cp_type p) then Err (Unsupported (unsupported_type (cp_type p)))
      else map_err Unsupported
             (generate_value sha le caps (cp_type p) (derive_key_child sha root_key (''arg'' @ show_nat i)) 0))"

definition generate_call ::
  "(string \<Rightarrow> string) \<Rightarrow> (sc_val \<Rightarrow> sc_val \<Rightarrow> bool) \<Rightarrow> contract_spec \<Rightarrow> string \<Rightarrow> string \<Rightarrow> string \<Rightarrow>
   generation_caps \<Rightarrow> (generated_call, generator_error) result" where
  "generate_call sha le spec function seed case_id caps =
     and_then (ok_or (FunctionNotFound function) (find_function spec function)) (\<lambda>f.
     let generation_id = hex (derive_key sha seed [case_id, function]);
         root_key = derive_key sha seed [case_id, function, ''args'']
     in map_ok (\<lambda>args. \<lparr>gn_function = function, gn_args = args, gn_generation_id = generation_id\<rparr>)
          (try_map (generate_arg sha le caps root_key) (enumerate 0 (cf_parameters f))))"

definition select_function_or_skip ::
  "contract_spec \<Rightarrow> string \<Rightarrow> (contract_function, unsupported_contract_type) result option" where
  "select_function_or_skip spec function =
     (case find_function spec function of
        None \<Rightarrow> None
      | Some f \<Rightarrow>
          Some (case find (\<lambda>p. \<not> type_supported (cp_type p)) (cf_parameters f) of
             None \<Rightarrow> Ok f
           | Some p \<Rightarrow> Err (unsupported_type (cp_type p))))"

definition function_param_types :: "contract_function \<Rightarrow> contract_type list" where
  "function_param_types f = map cp_type (cf_parameters f)"

definition select_function ::
  "string list \<times> (string \<times> string) list \<Rightarrow> contract_function \<Rightarrow> string list \<times> (string \<times> string) list" where
  "select_function acc f =
     (let (ok, skipped) = acc in
      case find (\<lambda>p. \<not> type_supported (cp_type p)) (cf_parameters f) of
        None \<Rightarrow> (ok @ [cf_name f], skipped)
      | Some p \<Rightarrow>
          (ok, skipped @ [(cf_name f,
             ''unsupported parameter `'' @ ct_name (cp_type p) @ ''` (kind `'' @ ct_kind (cp_type p) @ ''`)'')]))"

definition selectable_functions :: "contract_spec \<Rightarrow> string list \<times> (string \<times> string) list" where
  "selectable_functions spec = foldl select_function ([], []) (cs_functions spec)"

section \<open>Types\<close>

text \<open>
  What the host accepts as a value of a type: an option is its value or void, a map has strictly
  increasing keys. \<open>value_order\<close> is what the development relies on of the order of XDR values.
\<close>

definition value_order :: "(sc_val \<Rightarrow> sc_val \<Rightarrow> bool) \<Rightarrow> bool" where
  "value_order le \<longleftrightarrow> (\<forall>a b. le a b \<or> le b a) \<and> (\<forall>a b. le a b \<longrightarrow> le b a \<longrightarrow> a = b) \<and>
     (\<forall>a b c. le a b \<longrightarrow> le b c \<longrightarrow> le a c)"

definition primitive_typed :: "string \<Rightarrow> sc_val \<Rightarrow> bool" where
  "primitive_typed name v =
     (case v of
        VBool _ \<Rightarrow> name = ''bool''
      | VU32 _ \<Rightarrow> name = ''u32''
      | VI32 _ \<Rightarrow> name = ''i32''
      | VU64 _ \<Rightarrow> name = ''u64''
      | VI64 _ \<Rightarrow> name = ''i64''
      | VU128 _ _ \<Rightarrow> name = ''u128''
      | VI128 _ _ \<Rightarrow> name = ''i128''
      | VString _ \<Rightarrow> name = ''string''
      | VBytes _ \<Rightarrow> name = ''bytes''
      | VAddress (AddrAccount pk) \<Rightarrow> name = ''address'' \<and> length pk = 32
      | VAddress (AddrMuxed _ pk) \<Rightarrow> name = ''muxed_address'' \<and> length pk = 32
      | _ \<Rightarrow> False)"

definition strictly_sorted :: "(sc_val \<Rightarrow> sc_val \<Rightarrow> bool) \<Rightarrow> (sc_val \<times> sc_val) list \<Rightarrow> bool" where
  "strictly_sorted le es = sorted_wrt (\<lambda>a b. le (fst a) (fst b) \<and> fst a \<noteq> fst b) es"

fun typed_value :: "(sc_val \<Rightarrow> sc_val \<Rightarrow> bool) \<Rightarrow> contract_type \<Rightarrow> sc_val \<Rightarrow> bool" where
  "typed_value le t v =
     (if ct_kind t = ''primitive'' then primitive_typed (ct_name t) v
      else if ct_kind t = ''compound'' then
        (if starts_with ''vec<'' (ct_name t) then
           (case v of
              VVec None \<Rightarrow> True
            | VVec (Some xs) \<Rightarrow> (case ct_type_args t of [] \<Rightarrow> False | elem # _ \<Rightarrow> \<forall>x \<in> set xs. typed_value le elem x)
            | _ \<Rightarrow> False)
         else if starts_with ''option<'' (ct_name t) then
           v = VVoid \<or> (case ct_type_args t of [] \<Rightarrow> False | elem # _ \<Rightarrow> typed_value le elem v)
         else if starts_with ''map<'' (ct_name t) then
           (case v of
              VMap None \<Rightarrow> True
            | VMap (Some es) \<Rightarrow>
                strictly_sorted le es \<and>
                (case ct_type_args t of
                   kt # vt # _ \<Rightarrow> \<forall>e \<in> set es. typed_value le kt (fst e) \<and> typed_value le vt (snd e)
                 | _ \<Rightarrow> False)
            | _ \<Rightarrow> False)
         else False)
      else False)"
declare typed_value.simps [simp del]

lemma value_orderD:
  assumes "value_order le"
  shows "le a b \<or> le b a" "le a b \<Longrightarrow> le b a \<Longrightarrow> a = b" "le a b \<Longrightarrow> le b c \<Longrightarrow> le a c"
  using assms unfolding value_order_def by blast+

lemma set_insert_by [simp]: "set (insert_by le x ys) = insert x (set ys)"
  by (induction ys) auto

lemma set_sort_entries [simp]: "set (sort_entries le es) = set es"
  by (induction es) (auto simp: sort_entries_def)

lemma length_insert_by [simp]: "length (insert_by le x ys) = Suc (length ys)"
  by (induction ys) auto

lemma length_sort_entries [simp]: "length (sort_entries le es) = length es"
  by (induction es) (auto simp: sort_entries_def)

lemma sorted_insert_by:
  assumes "value_order le" "sorted_wrt (\<lambda>a b. le (fst a) (fst b)) ys"
  shows "sorted_wrt (\<lambda>a b. le (fst a) (fst b)) (insert_by le x ys)"
  using assms(2)
proof (induction ys)
  case (Cons y ys)
  show ?case
  proof (cases "le (fst x) (fst y)")
    case True
    then have "\<forall>z \<in> set ys. le (fst x) (fst z)" using Cons.prems value_orderD(3) [OF assms(1)] by auto
    then show ?thesis using True Cons.prems by simp
  next
    case False
    then have "le (fst y) (fst x)" using value_orderD(1) [OF assms(1)] by blast
    then show ?thesis using False Cons by simp
  qed
qed simp

lemma sorted_sort_entries:
  "value_order le \<Longrightarrow> sorted_wrt (\<lambda>a b. le (fst a) (fst b)) (sort_entries le es)"
  by (induction es) (auto simp: sort_entries_def sorted_insert_by)

lemma set_dedup_subset: "set (dedup_by_key xs) \<subseteq> set xs"
  by (induction xs rule: dedup_by_key.induct) auto

lemma length_dedup: "length (dedup_by_key xs) \<le> length xs"
  by (induction xs rule: dedup_by_key.induct) auto

lemma strictly_sorted_dedup:
  assumes "value_order le" "sorted_wrt (\<lambda>a b. le (fst a) (fst b)) xs"
  shows "strictly_sorted le (dedup_by_key xs)"
  using assms(2) unfolding strictly_sorted_def
proof (induction xs rule: dedup_by_key.induct)
  case (1 x y ys)
  show ?case
  proof (cases "fst x = fst y")
    case True
    then show ?thesis using 1 by simp
  next
    case False
    have "\<forall>z \<in> set (dedup_by_key (y # ys)). le (fst x) (fst z) \<and> fst x \<noteq> fst z"
    proof
      fix z assume "z \<in> set (dedup_by_key (y # ys))"
      then have z: "z \<in> set (y # ys)" using set_dedup_subset by blast
      then have xz: "le (fst x) (fst z)" using 1(3) by auto
      have yz: "z = y \<or> le (fst y) (fst z)" using z 1(3) by auto
      have xy: "le (fst x) (fst y)" using 1(3) by simp
      have "fst x \<noteq> fst z"
      proof
        assume "fst x = fst z"
        then have "le (fst y) (fst x)" using yz False by auto
        then show False using xy False value_orderD(2) [OF assms(1)] by blast
      qed
      then show "le (fst x) (fst z) \<and> fst x \<noteq> fst z" using xz by simp
    qed
    moreover have "sorted_wrt (\<lambda>a b. le (fst a) (fst b) \<and> fst a \<noteq> fst b) (dedup_by_key (y # ys))"
      using 1(2) [OF False] 1(3) by simp
    ultimately show ?thesis using False by simp
  qed
qed simp_all


lemma length_rng_bytes [simp]: "rng_bytes len rng = (out, rng') \<Longrightarrow> length out = len"
proof -
  have "length (fst (rng_bytes_loop len out rng)) = len" for out rng
  proof (induction len out rng rule: rng_bytes_loop.induct)
    case (1 len out rng)
    show ?case using 1 by (subst rng_bytes_loop.simps) (auto split: prod.split)
  qed
  then show "rng_bytes len rng = (out, rng') \<Longrightarrow> length out = len"
    unfolding rng_bytes_def by (metis fst_conv)
qed

lemma generate_primitive_typed:
  "generate_primitive name rng caps = Some v \<Longrightarrow> primitive_typed name v"
  unfolding generate_primitive_def primitive_typed_def
  by (simp only: Let_def split: if_splits prod.splits) auto

lemma xdr_vec_Some [simp]: "xdr_vec xs = Some ys \<longleftrightarrow> ys = xs \<and> length xs \<le> 4294967295"
  by (auto simp: xdr_vec_def)


lemma compound_prefixes [simp]:
  "starts_with ''option<'' n \<Longrightarrow> \<not> starts_with ''vec<'' n"
  "starts_with ''map<'' n \<Longrightarrow> \<not> starts_with ''vec<'' n"
  "starts_with ''map<'' n \<Longrightarrow> \<not> starts_with ''option<'' n"
  by (cases n; auto)+

lemma bottom_value_typed: "bottom_value t = Ok v \<Longrightarrow> typed_value le t v"
  by (subst typed_value.simps) (auto simp: bottom_value_def primitive_typed_def split: if_splits)


lemma size_hd_type_arg:
  "ct_type_args t = a # as \<Longrightarrow> size a < size t"
  "ct_type_args t = a # b # as \<Longrightarrow> size b < size t"
  by (simp_all add: size_type_arg)

text \<open>The ways in which a value is generated.\<close>

lemma generate_value_OkE:
  assumes run: "generate_value sha le caps t key depth = Ok v"
  obtains (bottom) "gc_max_depth caps < depth" "bottom_value t = Ok v"
    | (prim) rng where "ct_kind t = ''primitive''" "generate_primitive (ct_name t) rng caps = Some v"
    | (vec) elem rest rng items where "ct_kind t = ''compound''" "starts_with ''vec<'' (ct_name t)"
        "ct_type_args t = elem # rest" "v = VVec (Some items)"
        "length items = fst (random_count (gc_max_vec_len caps) rng)"
        "\<forall>x \<in> set items. \<exists>key'. generate_value sha le caps elem key' (depth + 1) = Ok x"
    | (none) "ct_kind t = ''compound''" "starts_with ''option<'' (ct_name t)" "v = VVoid"
    | (some) elem rest key' where "ct_kind t = ''compound''" "starts_with ''option<'' (ct_name t)"
        "ct_type_args t = elem # rest" "generate_value sha le caps elem key' (depth + 1) = Ok v"
    | (map) kt vt rest rng entries where "ct_kind t = ''compound''" "starts_with ''map<'' (ct_name t)"
        "ct_type_args t = kt # vt # rest" "v = VMap (Some (dedup_by_key (sort_entries le entries)))"
        "length entries = fst (random_count (gc_max_map_entries caps) rng)"
        "\<forall>e \<in> set entries. \<exists>key' key''. generate_value sha le caps kt key' (depth + 1) = Ok (fst e) \<and>
           generate_value sha le caps vt key'' (depth + 1) = Ok (snd e)"
proof (cases "gc_max_depth caps < depth")
  case True
  then show ?thesis using run bottom by (simp add: generate_value.simps)
next
  case deep: False
  let ?rng = "keyed sha (key @ u32_le_bytes depth)"
  consider "ct_kind t = ''primitive''"
    | "ct_kind t = ''compound''" "starts_with ''vec<'' (ct_name t)"
    | "ct_kind t = ''compound''" "starts_with ''option<'' (ct_name t)"
    | "ct_kind t = ''compound''" "starts_with ''map<'' (ct_name t)"
    using run deep by (subst (asm) generate_value.simps) (simp only: Let_def if_False result.distinct split: if_splits)
  then show ?thesis
  proof cases
    case 1
    then show ?thesis using run deep prim by (subst (asm) generate_value.simps) auto
  next
    case 2
    obtain elem rest items where args: "ct_type_args t = elem # rest" and v: "v = VVec (Some items)"
      and items: "try_map (\<lambda>i. generate_value sha le caps elem
            (derive_key_child sha key (''v'' @ show_nat i)) (depth + 1))
          [0..<fst (random_count (gc_max_vec_len caps) ?rng)] = Ok items"
      using run deep 2 by (subst (asm) generate_value.simps) (auto simp: Let_def split: list.splits)
    have "length items = fst (random_count (gc_max_vec_len caps) ?rng)"
      using items by (auto simp: try_map_Ok_iff dest: list_all2_lengthD)
    moreover have "\<forall>x \<in> set items. \<exists>key'. generate_value sha le caps elem key' (depth + 1) = Ok x"
      using try_map_Ok_set [OF items] by blast
    ultimately show ?thesis by (rule vec [OF 2 args v])
  next
    case 3
    then show ?thesis using run deep
      by (subst (asm) generate_value.simps) (auto simp: Let_def intro: none some split: list.splits if_splits)
  next
    case 4
    obtain kt vt rest entries where args: "ct_type_args t = kt # vt # rest"
      and v: "v = VMap (Some (dedup_by_key (sort_entries le entries)))"
      and entries: "try_map (\<lambda>i.
            and_then (generate_value sha le caps kt
              (derive_key_child sha key (''mk'' @ show_nat i)) (depth + 1)) (\<lambda>k.
            map_ok (\<lambda>v. (k, v)) (generate_value sha le caps vt
              (derive_key_child sha key (''mv'' @ show_nat i)) (depth + 1))))
          [0..<fst (random_count (gc_max_map_entries caps) ?rng)] = Ok entries"
      using run deep 4 by (subst (asm) generate_value.simps) (auto simp: Let_def split: list.splits)
    have "length entries = fst (random_count (gc_max_map_entries caps) ?rng)"
      using entries by (auto simp: try_map_Ok_iff dest: list_all2_lengthD)
    moreover have "\<forall>e \<in> set entries. \<exists>key' key''. generate_value sha le caps kt key' (depth + 1) = Ok (fst e) \<and>
        generate_value sha le caps vt key'' (depth + 1) = Ok (snd e)"
      using try_map_Ok_set [OF entries] by fastforce
    ultimately show ?thesis by (rule map [OF 4 args v])
  qed
qed

lemma typed_generated:
  assumes order: "value_order le" and run: "generate_value sha le caps t key depth = Ok v"
  shows "typed_value le t v"
  using run
proof (induction "size t" arbitrary: t key depth v rule: less_induct)
  case less
  note IH = less.hyps [OF size_hd_type_arg(1)] less.hyps [OF size_hd_type_arg(2)]
  from less.prems show ?case
  proof (cases rule: generate_value_OkE)
    case bottom
    then show ?thesis by (simp add: bottom_value_typed)
  next
    case prim
    then show ?thesis by (subst typed_value.simps) (simp add: generate_primitive_typed)
  next
    case (vec elem rest rng items)
    then have "\<forall>x \<in> set items. typed_value le elem x" using IH(1) by blast
    then show ?thesis using vec(1-4) by (subst typed_value.simps) simp
  next
    case none
    then show ?thesis by (subst typed_value.simps) simp
  next
    case (some elem rest key')
    then have "typed_value le elem v" using IH(1) by blast
    then show ?thesis using some(1-3) by (subst typed_value.simps) simp
  next
    case (map kt vt rest rng entries)
    have "strictly_sorted le (dedup_by_key (sort_entries le entries))"
      using order by (simp add: strictly_sorted_dedup sorted_sort_entries)
    moreover have "typed_value le kt (fst e) \<and> typed_value le vt (snd e)"
      if "e \<in> set (dedup_by_key (sort_entries le entries))" for e
    proof -
      have "e \<in> set entries" using that set_dedup_subset [of "sort_entries le entries"] by auto
      then show ?thesis using map(6) IH(1) [OF map(3)] IH(2) [OF map(3)] by blast
    qed
    ultimately show ?thesis using map(1-4) by (subst typed_value.simps) simp
  qed
qed

section \<open>Success\<close>

fun type_depth :: "contract_type \<Rightarrow> nat" where
  "type_depth t =
     (if ct_kind t = ''compound'' then
        (if ct_type_args t = [] then 0 else Suc (Max (set (map type_depth (ct_type_args t)))))
      else 0)"
declare type_depth.simps [simp del]

lemma type_depth_arg:
  "ct_kind t = ''compound'' \<Longrightarrow> a \<in> set (ct_type_args t) \<Longrightarrow> Suc (type_depth a) \<le> type_depth t"
  by (subst (2) type_depth.simps) (auto intro!: Max_ge)

lemma unat_below_bound: "unat (fst (below (of_nat cap + 1) rng)) \<le> cap"
proof -
  define b :: "64 word" where "b = of_nat cap + 1"
  have "unat b \<le> Suc cap"
    unfolding b_def by (simp add: unat_word_ariths unat_of_nat)
  moreover have "unat (w mod (if b = 0 then 1 else b)) < Suc cap" for w
  proof (cases "b = 0")
    case False
    then have "unat (w mod b) < unat b" by (simp add: unat_mod unat_gt_0)
    then show ?thesis using False \<open>unat b \<le> Suc cap\<close> by simp
  qed simp
  then show ?thesis by (simp only: below_def Let_def case_prod_beta fst_conv b_def less_Suc_eq_le)
qed

lemma random_count_bound: "fst (random_count cap rng) \<le> cap"
  using unat_below_bound [of cap rng] by (auto simp: random_count_def split: prod.split)

lemma generate_primitive_total:
  assumes caps: "gc_max_byte_len caps \<le> 4294967295" and name: "name \<in> set supported_primitives"
  shows "\<exists>v. generate_primitive name rng caps = Some v"
proof -
  have len: "length (fst (rng_bytes n r)) = n" for n r
    by (cases "rng_bytes n r") simp
  have "unat (fst (below (of_nat (gc_max_byte_len caps) + 1) rng)) \<le> 4294967295"
    using unat_below_bound caps by (rule le_trans)
  with name show ?thesis
    unfolding supported_primitives_def
    by (simp only: set_simps insert_iff empty_iff)
       (elim disjE; simp add: generate_primitive_def Let_def case_prod_beta xdr_vec_def len)
qed

lemma generate_value_total:
  assumes caps: "gc_max_vec_len caps \<le> 4294967295" "gc_max_byte_len caps \<le> 4294967295"
      "gc_max_map_entries caps \<le> 4294967295"
    and "type_supported t" "unat depth + type_depth t \<le> unat (gc_max_depth caps)"
  shows "\<exists>v. generate_value sha le caps t key depth = Ok v"
  using assms(4,5)
proof (induction "size t" arbitrary: t key depth rule: less_induct)
  case less
  have deep: "\<not> gc_max_depth caps < depth" using less.prems(2) by (simp add: word_less_nat_alt)
  have IH: "\<exists>v. generate_value sha le caps a k (depth + 1) = Ok v"
    if a: "a \<in> set (ct_type_args t)" "type_supported a" and t: "ct_kind t = ''compound''" for a k
  proof -
    have d: "unat depth + Suc (type_depth a) \<le> unat (gc_max_depth caps)"
      using type_depth_arg [OF t a(1)] less.prems(2) by simp
    then have "unat depth < unat (gc_max_depth caps)" by simp
    then have "unat (depth + 1) = Suc (unat depth)"
      using unsigned_less [of "gc_max_depth caps", where 'a = nat] unat_add_lem [of depth 1] by simp
    then show ?thesis using d by (intro less.hyps [OF size_type_arg [OF a(1)] a(2)]) simp
  qed
  let ?rng = "keyed sha (key @ u32_le_bytes depth)"
  from less.prems(1) consider "ct_kind t = ''primitive''" "ct_name t \<in> set supported_primitives"
    | (vec) elem rest where "ct_kind t = ''compound''" "starts_with ''vec<'' (ct_name t)"
        "ct_type_args t = elem # rest" "type_supported elem"
    | (opt) elem rest where "ct_kind t = ''compound''" "starts_with ''option<'' (ct_name t)"
        "ct_type_args t = elem # rest" "type_supported elem"
    | (map) kt vt where "ct_kind t = ''compound''" "starts_with ''map<'' (ct_name t)"
        "ct_type_args t = [kt, vt]" "type_supported kt" "type_supported vt"
    by (subst (asm) type_supported.simps)
       (auto simp: length_Suc_conv numeral_2_eq_2 split: if_splits list.splits)
  then show ?case
  proof cases
    case 1
    then show ?thesis using deep generate_primitive_total [OF caps(2), of "ct_name t" ?rng]
      by (subst generate_value.simps) auto
  next
    case vec
    have "\<exists>items. try_map (\<lambda>i. generate_value sha le caps elem
            (derive_key_child sha key (''v'' @ show_nat i)) (depth + 1))
          [0..<fst (random_count (gc_max_vec_len caps) ?rng)] = Ok items"
      using IH [of elem] vec by (intro try_map_total) simp
    then obtain items where items: "try_map (\<lambda>i. generate_value sha le caps elem
            (derive_key_child sha key (''v'' @ show_nat i)) (depth + 1))
          [0..<fst (random_count (gc_max_vec_len caps) ?rng)] = Ok items" by blast
    then have "length items \<le> 4294967295"
      using random_count_bound [of "gc_max_vec_len caps" ?rng] caps(1)
      by (simp add: try_map_Ok_iff list_all2_conv_all_nth)
    then show ?thesis using deep vec items by (subst generate_value.simps) (simp add: Let_def)
  next
    case opt
    then show ?thesis using deep IH [of elem] by (subst generate_value.simps) (simp add: Let_def)
  next
    case map
    let ?entry = "\<lambda>i. and_then (generate_value sha le caps kt
              (derive_key_child sha key (''mk'' @ show_nat i)) (depth + 1)) (\<lambda>k.
            map_ok (\<lambda>v. (k, v)) (generate_value sha le caps vt
              (derive_key_child sha key (''mv'' @ show_nat i)) (depth + 1)))"
    have "\<exists>e. ?entry i = Ok e" for i
      using IH [of kt "derive_key_child sha key (''mk'' @ show_nat i)"]
        IH [of vt "derive_key_child sha key (''mv'' @ show_nat i)"] map by auto
    then obtain entries where entries: "try_map ?entry [0..<fst (random_count (gc_max_map_entries caps) ?rng)] = Ok entries"
      using try_map_total [of "[0..<fst (random_count (gc_max_map_entries caps) ?rng)]" ?entry] by blast
    then have "length entries \<le> 4294967295"
      using random_count_bound [of "gc_max_map_entries caps" ?rng] caps(3)
      by (simp add: try_map_Ok_iff list_all2_conv_all_nth)
    then have "length (dedup_by_key (sort_entries le entries)) \<le> 4294967295"
      using length_dedup [of "sort_entries le entries"] by simp
    then show ?thesis using deep map entries by (subst generate_value.simps) (simp add: Let_def)
  qed
qed

section \<open>Generated calls\<close>

lemma generate_call_OkD:
  assumes "generate_call sha le spec function seed case_id caps = Ok c"
  obtains f where "find_function spec function = Some f" "gn_function c = function"
    "list_all2 (\<lambda>ip v. generate_arg sha le caps (derive_key sha seed [case_id, function, ''args'']) ip = Ok v)
       (enumerate 0 (cf_parameters f)) (gn_args c)"
  using assms unfolding generate_call_def by (auto simp: Let_def try_map_Ok_iff)

lemma list_all2_enumerate:
  "list_all2 (\<lambda>ip v. P (snd ip) v) (enumerate n xs) ys \<longleftrightarrow> list_all2 P xs ys"
  by (induction xs arbitrary: n ys) (auto simp: list_all2_Cons1)

text \<open>
  C22. Generated calls are well typed: when a call of a function is generated, the function is in the
  specification, the call has one argument for each of its parameters, in their order, and each
  argument is a value of its parameter's type: of its primitive kind, a vector of such values, such
  a value or void for an option, and a map with strictly increasing keys, at every nesting depth.
\<close>

theorem generated_call_typed:
  assumes order: "value_order le"
    and run: "generate_call sha le spec function seed case_id caps = Ok c"
  shows "gn_function c = function \<and>
    (\<exists>f. find_function spec function = Some f \<and>
      list_all2 (\<lambda>p v. typed_value le (cp_type p) v) (cf_parameters f) (gn_args c))"
proof -
  from run obtain f where f: "find_function spec function = Some f" "gn_function c = function"
    and args: "list_all2 (\<lambda>ip v. generate_arg sha le caps (derive_key sha seed [case_id, function, ''args'']) ip = Ok v)
       (enumerate 0 (cf_parameters f)) (gn_args c)"
    by (rule generate_call_OkD)
  have "list_all2 (\<lambda>ip v. typed_value le (cp_type (snd ip)) v) (enumerate 0 (cf_parameters f)) (gn_args c)"
    using args by (rule list_all2_mono) (auto simp: generate_arg_def typed_generated [OF order] split: if_splits)
  then show ?thesis using f by (simp add: list_all2_enumerate [where P = "\<lambda>p. typed_value le (cp_type p)"])
qed

text \<open>
  A function that is selected can be called: if every parameter type is supported and nests at
  most \<open>max_depth\<close> compound types, arguments are generated for every seed and case, whatever the
  hash function. (Deeper types can be refused, although they count as supported.)
\<close>

theorem selected_function_generates:
  assumes caps: "gc_max_vec_len caps \<le> 4294967295" "gc_max_byte_len caps \<le> 4294967295"
      "gc_max_map_entries caps \<le> 4294967295"
    and selected: "select_function_or_skip spec function = Some (Ok f)"
    and shallow: "\<forall>p \<in> set (cf_parameters f). type_depth (cp_type p) \<le> unat (gc_max_depth caps)"
  shows "\<exists>c. generate_call sha le spec function seed case_id caps = Ok c"
proof -
  have f: "find_function spec function = Some f" and ok: "\<forall>p \<in> set (cf_parameters f). type_supported (cp_type p)"
    using selected by (auto simp: select_function_or_skip_def find_None_iff split: option.splits)
  have "\<exists>v. generate_arg sha le caps k ip = Ok v" if "ip \<in> set (enumerate 0 (cf_parameters f))" for k ip
  proof -
    have "snd ip \<in> set (cf_parameters f)" using that by (metis map_snd_enumerate image_eqI set_map)
    then show ?thesis using ok shallow
        generate_value_total [OF caps, of "cp_type (snd ip)" 0 sha le "derive_key_child sha k (''arg'' @ show_nat (fst ip))"]
      by (auto simp: generate_arg_def split_beta)
  qed
  then have "\<exists>args. try_map (generate_arg sha le caps k) (enumerate 0 (cf_parameters f)) = Ok args" for k
    by (intro try_map_total) blast
  then show ?thesis unfolding generate_call_def using f by (simp add: Let_def)
qed

lemma selectable_functions_partition:
  "fst (selectable_functions spec) =
     map cf_name (filter (\<lambda>f. \<forall>p \<in> set (cf_parameters f). type_supported (cp_type p)) (cs_functions spec))"
  "map fst (snd (selectable_functions spec)) =
     map cf_name (filter (\<lambda>f. \<exists>p \<in> set (cf_parameters f). \<not> type_supported (cp_type p)) (cs_functions spec))"
proof -
  have "fst (foldl select_function acc fs) =
       fst acc @ map cf_name (filter (\<lambda>f. \<forall>p \<in> set (cf_parameters f). type_supported (cp_type p)) fs) \<and>
     map fst (snd (foldl select_function acc fs)) =
       map fst (snd acc) @ map cf_name (filter (\<lambda>f. \<exists>p \<in> set (cf_parameters f). \<not> type_supported (cp_type p)) fs)"
    for acc fs
  proof (induction fs arbitrary: acc)
    case (Cons f fs)
    show ?case
    proof (cases "find (\<lambda>p. \<not> type_supported (cp_type p)) (cf_parameters f)")
      case None
      then have "\<forall>p \<in> set (cf_parameters f). type_supported (cp_type p)" by (simp add: find_None_iff)
      then show ?thesis using None Cons by (auto simp: select_function_def split_beta)
    next
      case (Some p)
      then have "\<exists>p \<in> set (cf_parameters f). \<not> type_supported (cp_type p)"
        by (metis find_Some_iff nth_mem)
      then show ?thesis using Some Cons by (auto simp: select_function_def split_beta)
    qed
  qed simp
  from this [of "([], [])" "cs_functions spec"]
  show "fst (selectable_functions spec) =
     map cf_name (filter (\<lambda>f. \<forall>p \<in> set (cf_parameters f). type_supported (cp_type p)) (cs_functions spec))"
  "map fst (snd (selectable_functions spec)) =
     map cf_name (filter (\<lambda>f. \<exists>p \<in> set (cf_parameters f). \<not> type_supported (cp_type p)) (cs_functions spec))"
    by (simp_all add: selectable_functions_def)
qed

section \<open>Witnesses\<close>

definition const_sha :: "string \<Rightarrow> string" where
  "const_sha s = replicate 32 (CHR 0x01)"

lemma keyed_const_sha: "keyed const_sha k = 0x0101010101010101"
proof -
  have "take 8 (replicate 32 (CHR 0x01)) = replicate 8 (CHR 0x01)" by simp
  also have "\<dots> = [CHR 0x01, CHR 0x01, CHR 0x01, CHR 0x01, CHR 0x01, CHR 0x01, CHR 0x01, CHR 0x01]"
    by (simp add: eval_nat_numeral)
  finally show ?thesis by (simp add: keyed_def const_sha_def)
qed

lemma next_const: "next_u64 0x0101010101010101 = (0x79982a55c613df1f, 0x9f387aba804b7d16)"
  by (simp add: next_u64_def)

definition demo_parameter :: "string \<Rightarrow> contract_type \<Rightarrow> contract_parameter" where
  "demo_parameter n t = \<lparr>cp_name = n, cp_doc = [], cp_type = t\<rparr>"

definition demo_function :: "contract_type list \<Rightarrow> contract_function" where
  "demo_function ts =
     \<lparr>cf_name = ''f'', cf_doc = [], cf_parameters = map (demo_parameter ''x'') ts, cf_outputs = []\<rparr>"

definition demo_spec :: "contract_type list \<Rightarrow> contract_spec" where
  "demo_spec ts = \<lparr>cs_env_meta = None,
     cs_functions = [demo_function ts],
     cs_custom_types = [], cs_events = []\<rparr>"

definition val_le :: "sc_val \<Rightarrow> sc_val \<Rightarrow> bool" where
  "val_le a b \<longleftrightarrow> to_nat a \<le> to_nat b"

lemma value_order_val_le [simp]: "value_order val_le"
  by (auto simp: value_order_def val_le_def)

definition nested_vec :: contract_type where
  "nested_vec = compound ''vec<vec<vec<vec<u32>>>>'' [compound ''vec<vec<vec<u32>>>'' [compound ''vec<vec<u32>>''
     [compound ''vec<u32>'' [primitive ''u32''] []] []] []] []"


lemma below_const: "fst (below 5 0x0101010101010101) = 1"
  by (simp add: below_def next_const)

lemma generate_vec_const:
  assumes "starts_with ''vec<'' n" "depth \<le> 3"
  shows "generate_value const_sha le default_generation_caps (compound n [elem] ls) key depth =
    and_then (generate_value const_sha le default_generation_caps elem (derive_key_child const_sha key ''v0'') (depth + 1))
      (\<lambda>x. Ok (VVec (Some [x])))"
proof -
  have n: "fst (random_count 4 0x0101010101010101) = 1"
    by (simp add: random_count_def split_beta below_const)
  have v0: "show_nat 0 = ''0''" by code_simp
  have d: "\<not> 3 < depth" using assms(2) by simp
  show ?thesis using assms(1)
    by (subst generate_value.simps, cases "generate_value const_sha le default_generation_caps elem (derive_key_child const_sha key ''v0'') (depth + 1)")
       (simp_all add: Let_def default_generation_caps_def compound_def keyed_const_sha n v0 d xdr_vec_def)
qed

lemma nested_call_refused:
  "generate_call const_sha le (demo_spec [nested_vec]) ''f'' seed case_id default_generation_caps
  = Err (Unsupported \<lparr>ut_type_name = ''u32'', ut_type_kind = ''primitive''\<rparr>)"
proof -
  have sup: "type_supported nested_vec"
    by (simp add: nested_vec_def compound_def primitive_def type_supported.simps supported_primitives_def)
  have "generate_value const_sha le default_generation_caps nested_vec k 0 = Err \<lparr>ut_type_name = ''u32'', ut_type_kind = ''primitive''\<rparr>" for k
  proof -
    have "generate_value const_sha le default_generation_caps (primitive ''u32'') k 4 =
        Err \<lparr>ut_type_name = ''u32'', ut_type_kind = ''primitive''\<rparr>" for k
      by (simp add: generate_value.simps default_generation_caps_def bottom_value_def primitive_def unsupported_type_def)
    then show ?thesis unfolding nested_vec_def by (simp add: generate_vec_const)
  qed
  then show ?thesis
    by (simp add: generate_call_def find_function_def demo_spec_def demo_function_def demo_parameter_def generate_arg_def sup)
qed

lemma demo_call_typed:
  "generate_call const_sha val_le (demo_spec [compound ''vec<bool>'' [primitive ''bool''] []]) ''f'' [] ''c''
     default_generation_caps =
   Ok \<lparr>gn_function = ''f'', gn_args = [VVec (Some [VBool True])],
     gn_generation_id = hex (derive_key const_sha [] [''c'', ''f''])\<rparr>"
proof -
  have sup: "type_supported (compound ''vec<bool>'' [primitive ''bool''] [])"
    by (simp add: compound_def primitive_def type_supported.simps supported_primitives_def)
  have "generate_value const_sha val_le default_generation_caps (primitive ''bool'') k 1 = Ok (VBool True)" for k
    by (simp add: generate_value.simps default_generation_caps_def primitive_def keyed_const_sha
        generate_primitive_def below_def next_const)
  then show ?thesis
    by (simp add: generate_call_def find_function_def demo_spec_def demo_function_def demo_parameter_def generate_arg_def sup
        generate_vec_const)
qed

theorem generated_call_typed_witness:
  "typed_value val_le (compound ''vec<bool>'' [primitive ''bool''] []) (VVec (Some [VBool True]))"
  using generated_call_typed [OF value_order_val_le demo_call_typed]
  by (auto simp: find_function_def demo_spec_def demo_function_def demo_parameter_def)

theorem selected_function_generates_witness:
  "\<exists>c. generate_call const_sha val_le (demo_spec [compound ''vec<bool>'' [primitive ''bool''] []]) ''f'' [] ''c''
     default_generation_caps = Ok c"
proof (rule selected_function_generates [where f = "demo_function [compound ''vec<bool>'' [primitive ''bool''] []]"])
  have sup: "type_supported (compound ''vec<bool>'' [primitive ''bool''] [])"
    by (simp add: compound_def primitive_def type_supported.simps supported_primitives_def)
  show "select_function_or_skip (demo_spec [compound ''vec<bool>'' [primitive ''bool''] []]) ''f'' =
      Some (Ok (demo_function [compound ''vec<bool>'' [primitive ''bool''] []]))"
    by (simp add: select_function_or_skip_def find_function_def demo_spec_def demo_function_def demo_parameter_def sup)
  have "type_depth (primitive ''bool'') = 0" by (subst type_depth.simps) (simp add: primitive_def)
  then have "type_depth (compound ''vec<bool>'' [primitive ''bool''] []) = 1"
    by (subst type_depth.simps) (simp add: compound_def)
  then show "\<forall>p \<in> set (cf_parameters (demo_function [compound ''vec<bool>'' [primitive ''bool''] []])).
      type_depth (cp_type p) \<le> unat (gc_max_depth default_generation_caps)"
    by (simp add: demo_function_def demo_parameter_def default_generation_caps_def)
qed (simp_all add: default_generation_caps_def)

end
