(* ===== verification/Fuzz_Mutation.thy ===== *)
theory Fuzz_Mutation
  imports Fuzz_Generator
begin

text \<open>
  The type-aware mutation of arguments (\<^verbatim>\<open>sdkt-fuzz/src/mutation.rs\<close>): the operators of a type, their
  application to one argument, and the walk through the operators of a call.
\<close>

section \<open>Operators\<close>

datatype operator =
    OpBoolTrue | OpBoolFalse
  | OpZero | OpOne | OpMin | OpMax
  | OpRandom
  | OpEmpty | OpLengthBoundary
  | OpVecEmpty | OpVecRemoveOne | OpVecDuplicate | OpVecAppend | OpVecMutateOne
  | OpOptionNone | OpOptionSome | OpOptionSomeMutated
  | OpMapEmpty | OpMapRemoveOne | OpMapInsertKey

fun operator_name :: "operator \<Rightarrow> string" where
  "operator_name OpBoolTrue = ''bool_true''"
| "operator_name OpBoolFalse = ''bool_false''"
| "operator_name OpZero = ''zero''"
| "operator_name OpOne = ''one''"
| "operator_name OpMin = ''min''"
| "operator_name OpMax = ''max''"
| "operator_name OpRandom = ''random''"
| "operator_name OpEmpty = ''empty''"
| "operator_name OpLengthBoundary = ''length_boundary''"
| "operator_name OpVecEmpty = ''vec_empty''"
| "operator_name OpVecRemoveOne = ''vec_remove_one''"
| "operator_name OpVecDuplicate = ''vec_duplicate''"
| "operator_name OpVecAppend = ''vec_append''"
| "operator_name OpVecMutateOne = ''vec_mutate_one''"
| "operator_name OpOptionNone = ''option_none''"
| "operator_name OpOptionSome = ''option_some''"
| "operator_name OpOptionSomeMutated = ''option_some_mutated''"
| "operator_name OpMapEmpty = ''map_empty''"
| "operator_name OpMapRemoveOne = ''map_remove_one''"
| "operator_name OpMapInsertKey = ''map_insert_key''"

definition numeric_names :: "string list" where
  "numeric_names = [''u32'', ''i32'', ''u64'', ''i64'', ''u128'', ''i128'']"

definition operators_for :: "contract_type \<Rightarrow> operator list" where
  "operators_for t =
     (let kind = ct_kind t; name = ct_name t in
      if kind = ''primitive'' then
        (if name = ''bool'' then [OpBoolTrue, OpBoolFalse]
         else if name \<in> set numeric_names then [OpZero, OpOne, OpMin, OpMax, OpRandom]
         else if name = ''string'' \<or> name = ''bytes'' then [OpEmpty, OpLengthBoundary, OpRandom]
         else [OpRandom])
      else if kind = ''compound'' then
        (if starts_with ''vec<'' name then
           [OpVecEmpty, OpVecRemoveOne, OpVecDuplicate, OpVecAppend, OpVecMutateOne]
         else if starts_with ''option<'' name then [OpOptionNone, OpOptionSome, OpOptionSomeMutated]
         else if starts_with ''map<'' name then [OpMapEmpty, OpMapRemoveOne, OpMapInsertKey]
         else [])
      else [])"

section \<open>Mutations\<close>

record mutation =
  mu_mutation_id :: string
  mu_arg_index :: nat
  mu_operator :: operator
  mu_value :: sc_val
  mu_args :: "sc_val list"

definition mutation_id :: "(string \<Rightarrow> string) \<Rightarrow> string \<Rightarrow> string \<Rightarrow> nat \<Rightarrow> operator \<Rightarrow> string" where
  "mutation_id sha seed case_id arg_index op =
     hex (sha (seed @ case_id @ [CHR 0xFF] @ u64_le_bytes (of_nat arg_index) @ operator_name op))"

datatype mutation_error =
    ArgIndexOutOfRange nat nat
  | UnsupportedMutationType string string
  | OperatorNotApplicableForType string string
  | NoApplicableMutation

fun mutation_error_display :: "mutation_error \<Rightarrow> string" where
  "mutation_error_display (ArgIndexOutOfRange arg_index arity) =
     ''arg index '' @ show_nat arg_index @ '' out of range for arity '' @ show_nat arity"
| "mutation_error_display (UnsupportedMutationType type_name type_kind) =
     ''no mutation operators for type `'' @ type_name @ ''` (kind `'' @ type_kind @ ''`)''"
| "mutation_error_display (OperatorNotApplicableForType op type_name) =
     ''operator `'' @ op @ ''` does not apply to type `'' @ type_name @ ''`''"
| "mutation_error_display NoApplicableMutation = ''operator produced no applicable mutation for this value''"

definition numeric :: "contract_type \<Rightarrow> 64 word \<Rightarrow> bool \<Rightarrow> sc_val option" where
  "numeric t magnitude boundary =
     (let top = (boundary \<and> magnitude = -1); name = ct_name t in
      if name = ''u32'' then Some (VU32 (if top then -1 else ucast magnitude))
      else if name = ''i32'' then
        Some (VI32 (if top then 0x7FFFFFFF else if boundary then 0x80000000 else ucast magnitude))
      else if name = ''u64'' then Some (VU64 magnitude)
      else if name = ''i64'' then
        Some (VI64 (if top then 0x7FFFFFFFFFFFFFFF else if boundary then 0x8000000000000000 else magnitude))
      else if name = ''u128'' then Some (if top then VU128 (-1) (-1) else VU128 0 magnitude)
      else if name = ''i128'' then
        Some (if top then VI128 0x7FFFFFFFFFFFFFFF (-1)
              else if boundary then VI128 0x8000000000000000 0
              else VI128 0 magnitude)
      else None)"

definition no_mutation :: "'a option \<Rightarrow> ('a, mutation_error) result" where
  "no_mutation x = ok_or NoApplicableMutation x"

definition refused :: "('a, 'e) result \<Rightarrow> ('a, mutation_error) result" where
  "refused r = map_err (\<lambda>_. NoApplicableMutation) r"

definition vec_value :: "sc_val list \<Rightarrow> (sc_val, mutation_error) result" where
  "vec_value items = map_ok (\<lambda>vm. VVec (Some vm)) (no_mutation (xdr_vec items))"

definition map_value :: "(sc_val \<times> sc_val) list \<Rightarrow> (sc_val, mutation_error) result" where
  "map_value entries = map_ok (\<lambda>vm. VMap (Some vm)) (no_mutation (xdr_vec entries))"

definition saturating_double :: "nat \<Rightarrow> nat" where
  "saturating_double n = min (n * 2) 18446744073709551615"

definition vec_items :: "sc_val \<Rightarrow> sc_val list" where
  "vec_items v = (case v of VVec (Some xs) \<Rightarrow> xs | _ \<Rightarrow> [])"

definition map_entries :: "sc_val \<Rightarrow> (sc_val \<times> sc_val) list" where
  "map_entries v = (case v of VMap (Some es) \<Rightarrow> es | _ \<Rightarrow> [])"

definition bytes_of_type :: "contract_type \<Rightarrow> string \<Rightarrow> (sc_val, mutation_error) result" where
  "bytes_of_type t bytes =
     (if ct_name t = ''string'' then map_ok VString (no_mutation (xdr_vec bytes))
      else if ct_name t = ''bytes'' then map_ok VBytes (no_mutation (xdr_vec bytes))
      else Err NoApplicableMutation)"

definition vec_remove_one :: "sc_val \<Rightarrow> (sc_val, mutation_error) result" where
  "vec_remove_one current =
     (if vec_items current = [] then Err NoApplicableMutation else vec_value (butlast (vec_items current)))"

definition vec_duplicate :: "generation_caps \<Rightarrow> sc_val \<Rightarrow> split_mix64 \<Rightarrow> (sc_val, mutation_error) result" where
  "vec_duplicate caps current rng =
     (let items = vec_items current in
      if items = [] then Err NoApplicableMutation
      else
        let at = unat (fst (below (of_nat (length items)) rng));
            items = take at items @ last items # drop at items
        in vec_value (take (max (saturating_double (gc_max_vec_len caps)) (length items)) items))"

definition vec_append ::
  "(string \<Rightarrow> string) \<Rightarrow> (sc_val \<Rightarrow> sc_val \<Rightarrow> bool) \<Rightarrow> generation_caps \<Rightarrow> contract_type \<Rightarrow> sc_val \<Rightarrow> split_mix64 \<Rightarrow>
   (sc_val, mutation_error) result" where
  "vec_append sha le caps t current rng =
     (case ct_type_args t of
        [] \<Rightarrow> Err NoApplicableMutation
      | elem # _ \<Rightarrow>
          and_then (refused (generate_value sha le caps elem (fst (rng_bytes 16 rng)) 1)) (\<lambda>v.
          if length (vec_items current) \<ge> max (saturating_double (gc_max_vec_len caps)) 1 then
            Err NoApplicableMutation
          else vec_value (vec_items current @ [v])))"

definition map_remove_one :: "sc_val \<Rightarrow> (sc_val, mutation_error) result" where
  "map_remove_one current =
     (if map_entries current = [] then Err NoApplicableMutation else map_value (butlast (map_entries current)))"

fun find_new_entry ::
  "(string \<Rightarrow> string) \<Rightarrow> (sc_val \<Rightarrow> sc_val \<Rightarrow> bool) \<Rightarrow> generation_caps \<Rightarrow> contract_type \<Rightarrow> contract_type \<Rightarrow>
   (sc_val \<times> sc_val) list \<Rightarrow> nat \<Rightarrow> split_mix64 \<Rightarrow> (sc_val \<times> sc_val) option" where
  "find_new_entry sha le caps kt vt entries 0 rng = None"
| "find_new_entry sha le caps kt vt entries (Suc attempts) rng =
     (let (key_bytes, rng) = rng_bytes 16 rng in
      case generate_value sha le caps kt key_bytes 1 of
        Ok key \<Rightarrow>
          (if key \<in> fst ` set entries then find_new_entry sha le caps kt vt entries attempts rng
           else
             let (val_bytes, rng) = rng_bytes 16 rng in
             (case generate_value sha le caps vt val_bytes 1 of
                Ok val \<Rightarrow> Some (key, val)
              | _ \<Rightarrow> find_new_entry sha le caps kt vt entries attempts rng))
      | _ \<Rightarrow> find_new_entry sha le caps kt vt entries attempts rng)"

definition map_insert_key ::
  "(string \<Rightarrow> string) \<Rightarrow> (sc_val \<Rightarrow> sc_val \<Rightarrow> bool) \<Rightarrow> generation_caps \<Rightarrow> contract_type \<Rightarrow> sc_val \<Rightarrow> split_mix64 \<Rightarrow>
   (sc_val, mutation_error) result" where
  "map_insert_key sha le caps t current rng =
     (case ct_type_args t of
        kt # vt # _ \<Rightarrow>
          and_then (no_mutation (find_new_entry sha le caps kt vt (map_entries current) 100 rng)) (\<lambda>entry.
          let entries = sort_entries le (map_entries current @ [entry]) in
          if length entries > max (saturating_double (gc_max_map_entries caps)) 1 then Err NoApplicableMutation
          else map_value entries)
      | _ \<Rightarrow> Err NoApplicableMutation)"

definition pick_operator :: "contract_type \<Rightarrow> split_mix64 \<Rightarrow> (operator, mutation_error) result \<times> split_mix64" where
  "pick_operator t rng =
     (let ops = operators_for t; (w, rng) = below (of_nat (length ops)) rng in
      (if unat w < length ops then Ok (ops ! unat w) else Err NoApplicableMutation, rng))"

function (sequential) apply_operator ::
  "(string \<Rightarrow> string) \<Rightarrow> (sc_val \<Rightarrow> sc_val \<Rightarrow> bool) \<Rightarrow> generation_caps \<Rightarrow> contract_type \<Rightarrow> sc_val \<Rightarrow> operator \<Rightarrow>
   split_mix64 \<Rightarrow> (sc_val, mutation_error) result" where
  "apply_operator sha le caps t current OpBoolTrue rng = Ok (VBool True)"
| "apply_operator sha le caps t current OpBoolFalse rng = Ok (VBool False)"
| "apply_operator sha le caps t current OpZero rng = no_mutation (numeric t 0 False)"
| "apply_operator sha le caps t current OpOne rng = no_mutation (numeric t 1 False)"
| "apply_operator sha le caps t current OpMin rng = no_mutation (numeric t 0 True)"
| "apply_operator sha le caps t current OpMax rng = no_mutation (numeric t (-1) True)"
| "apply_operator sha le caps t current OpRandom rng =
     refused (generate_value sha le caps t (fst (rng_bytes 16 rng)) 0)"
| "apply_operator sha le caps t current OpEmpty rng = bytes_of_type t []"
| "apply_operator sha le caps t current OpLengthBoundary rng =
     bytes_of_type t (fst (rng_bytes (gc_max_byte_len caps) rng))"
| "apply_operator sha le caps t current OpVecEmpty rng = Ok (VVec None)"
| "apply_operator sha le caps t current OpVecRemoveOne rng = vec_remove_one current"
| "apply_operator sha le caps t current OpVecDuplicate rng = vec_duplicate caps current rng"
| "apply_operator sha le caps t current OpVecAppend rng = vec_append sha le caps t current rng"
| "apply_operator sha le caps t current OpVecMutateOne rng =
     (case ct_type_args t of
        [] \<Rightarrow> Err NoApplicableMutation
      | elem # _ \<Rightarrow>
          let items = vec_items current in
          if items = [] then Err NoApplicableMutation
          else
            let (idx, rng) = below (of_nat (length items)) rng;
                (op, rng) = pick_operator elem rng
            in and_then op (\<lambda>op.
               let inner = keyed sha (fst (rng_bytes 16 rng)) in
               and_then (apply_operator sha le caps elem (items ! unat idx) op inner) (\<lambda>mutated.
               vec_value (items[unat idx := mutated]))))"
| "apply_operator sha le caps t current OpOptionNone rng = Ok VVoid"
| "apply_operator sha le caps t current OpOptionSome rng =
     (case ct_type_args t of
        [] \<Rightarrow> Err NoApplicableMutation
      | elem # _ \<Rightarrow> refused (generate_value sha le caps elem (fst (rng_bytes 16 rng)) 1))"
| "apply_operator sha le caps t current OpOptionSomeMutated rng =
     (case ct_type_args t of
        [] \<Rightarrow> Err NoApplicableMutation
      | elem # _ \<Rightarrow>
          let (op, rng) = pick_operator elem rng in
          and_then op (\<lambda>op.
          let (bytes, rng) = rng_bytes 16 rng;
              inner = keyed sha bytes in
          and_then (refused (generate_value sha le caps elem (fst (rng_bytes 16 rng)) 1)) (\<lambda>base.
          apply_operator sha le caps elem base op inner)))"
| "apply_operator sha le caps t current OpMapEmpty rng = Ok (VMap None)"
| "apply_operator sha le caps t current OpMapRemoveOne rng = map_remove_one current"
| "apply_operator sha le caps t current OpMapInsertKey rng = map_insert_key sha le caps t current rng"
  by pat_completeness auto
termination
  by (relation "measure (\<lambda>(_, _, _, t, _, _, _). size t)") (auto intro!: size_hd_type_arg(1))

definition mutate_arg ::
  "(string \<Rightarrow> string) \<Rightarrow> (sc_val \<Rightarrow> sc_val \<Rightarrow> bool) \<Rightarrow> contract_type \<Rightarrow> sc_val list \<Rightarrow> nat \<Rightarrow> operator \<Rightarrow> string \<Rightarrow>
   string \<Rightarrow> generation_caps \<Rightarrow> (mutation, mutation_error) result" where
  "mutate_arg sha le t args arg_index op seed case_id caps =
     (if arg_index \<ge> length args then Err (ArgIndexOutOfRange arg_index (length args))
      else if op \<notin> set (operators_for t) then
        (if operators_for t = [] then Err (UnsupportedMutationType (ct_name t) (ct_kind t))
         else Err (OperatorNotApplicableForType (operator_name op) (ct_name t)))
      else
        let rng = keyed sha (derive_key_child sha seed case_id @ u64_le_bytes (of_nat arg_index) @ operator_name op) in
        map_ok (\<lambda>new_value.
            \<lparr>mu_mutation_id = mutation_id sha seed case_id arg_index op, mu_arg_index = arg_index,
             mu_operator = op, mu_value = new_value, mu_args = args[arg_index := new_value]\<rparr>)
          (apply_operator sha le caps t (args ! arg_index) op rng))"

section \<open>The walk through the operators\<close>

definition mutation_candidates :: "contract_type list \<Rightarrow> (nat \<times> operator) list" where
  "mutation_candidates param_types =
     concat (map (\<lambda>(i, t). map (\<lambda>op. (i, op)) (operators_for t)) (enumerate 0 param_types))"

definition plan_mutation ::
  "(string \<Rightarrow> string) \<Rightarrow> contract_type list \<Rightarrow> string \<Rightarrow> string \<Rightarrow> nat \<Rightarrow> (nat \<times> operator) option" where
  "plan_mutation sha param_types seed case_id step =
     (let candidates = mutation_candidates param_types in
      if candidates = [] then None
      else
        let start = unat (fst (below (of_nat (length candidates)) (keyed sha (derive_key_child sha seed case_id))))
        in Some (candidates ! ((start + step) mod length candidates)))"

section \<open>Well-typed mutations\<close>

lemma typed_vec_iff:
  assumes "ct_kind t = ''compound''" "starts_with ''vec<'' (ct_name t)"
  shows "typed_value le t v \<longleftrightarrow> v = VVec None \<or>
    (\<exists>xs elem rest. v = VVec (Some xs) \<and> ct_type_args t = elem # rest \<and> (\<forall>x \<in> set xs. typed_value le elem x))"
  using assms by (subst typed_value.simps) (auto split: sc_val.splits option.splits list.splits)

lemma typed_option_iff:
  assumes "ct_kind t = ''compound''" "starts_with ''option<'' (ct_name t)"
  shows "typed_value le t v \<longleftrightarrow> v = VVoid \<or>
    (\<exists>elem rest. ct_type_args t = elem # rest \<and> typed_value le elem v)"
  using assms by (subst typed_value.simps) (auto split: list.splits)

lemma typed_map_iff:
  assumes "ct_kind t = ''compound''" "starts_with ''map<'' (ct_name t)"
  shows "typed_value le t v \<longleftrightarrow> v = VMap None \<or>
    (\<exists>es kt vt rest. v = VMap (Some es) \<and> strictly_sorted le es \<and> ct_type_args t = kt # vt # rest \<and>
       (\<forall>e \<in> set es. typed_value le kt (fst e) \<and> typed_value le vt (snd e)))"
  using assms by (subst typed_value.simps) (auto split: sc_val.splits option.splits list.splits)

lemma vec_value_Ok [simp]: "vec_value xs = Ok v \<longleftrightarrow> v = VVec (Some xs) \<and> length xs \<le> 4294967295"
  by (auto simp: vec_value_def no_mutation_def)

lemma map_value_Ok [simp]: "map_value es = Ok v \<longleftrightarrow> v = VMap (Some es) \<and> length es \<le> 4294967295"
  by (auto simp: map_value_def no_mutation_def)

lemma refused_Ok [simp]: "refused r = Ok v \<longleftrightarrow> r = Ok v"
  by (simp add: refused_def)

lemma no_mutation_Ok [simp]: "no_mutation r = Ok v \<longleftrightarrow> r = Some v"
  by (simp add: no_mutation_def)

lemma unat_below_less: "0 < n \<Longrightarrow> unat (fst (below (of_nat n) rng)) < n"
proof -
  assume n: "0 < n"
  define b :: "64 word" where "b = of_nat n"
  have b: "unat b \<le> n" by (simp add: b_def unat_of_nat)
  have "unat (w mod (if b = 0 then 1 else b)) < n" for w
  proof (cases "b = 0")
    case False
    then have "unat (w mod b) < unat b" by (simp add: unat_mod unat_gt_0)
    then show ?thesis using False b by simp
  qed (use n in simp)
  then show ?thesis by (simp only: below_def Let_def case_prod_beta fst_conv b_def)
qed

lemma numeric_typed: "numeric t m b = Some v \<Longrightarrow> primitive_typed (ct_name t) v"
  by (auto simp: numeric_def primitive_typed_def Let_def split: if_splits)

lemma bytes_of_type_typed: "bytes_of_type t bytes = Ok v \<Longrightarrow> primitive_typed (ct_name t) v"
  by (auto simp: bytes_of_type_def primitive_typed_def split: if_splits)

lemma pick_operator_Ok: "fst (pick_operator t rng) = Ok op \<Longrightarrow> op \<in> set (operators_for t)"
  by (auto simp: pick_operator_def Let_def split: prod.splits if_splits)

lemma strictly_sorted_butlast: "strictly_sorted le es \<Longrightarrow> strictly_sorted le (butlast es)"
  by (cases es rule: rev_cases) (simp_all add: strictly_sorted_def sorted_wrt_append)

lemma find_new_entry_Some:
  "find_new_entry sha le caps kt vt entries n rng = Some e \<Longrightarrow>
     fst e \<notin> fst ` set entries \<and> (\<exists>k. generate_value sha le caps kt k 1 = Ok (fst e)) \<and>
     (\<exists>k. generate_value sha le caps vt k 1 = Ok (snd e))"
  by (induction n arbitrary: rng) (force split: prod.splits result.splits if_splits)+

lemma sorted_distinct_strict:
  "sorted_wrt (\<lambda>a b. le (fst a) (fst b)) es \<Longrightarrow> distinct (map fst es) \<Longrightarrow> strictly_sorted le es"
  unfolding strictly_sorted_def by (induction es) force+

lemma mset_insert_by: "mset (insert_by le x ys) = add_mset x (mset ys)"
  by (induction ys) auto

lemma mset_sort_entries: "mset (sort_entries le es) = mset es"
  unfolding sort_entries_def by (induction es) (simp_all add: mset_insert_by)

lemma distinct_sort_entries: "distinct (map fst (sort_entries le es)) \<longleftrightarrow> distinct (map fst es)"
  by (rule mset_eq_imp_distinct_iff) (simp add: mset_sort_entries)

lemma strictly_sorted_distinct: "strictly_sorted le es \<Longrightarrow> distinct (map fst es)"
  unfolding strictly_sorted_def by (induction es) auto

lemma operators_for_cases:
  assumes "op \<in> set (operators_for t)"
  obtains "ct_kind t = ''primitive''" "ct_name t = ''bool''" "op = OpBoolTrue \<or> op = OpBoolFalse"
    | "ct_kind t = ''primitive''" "op \<in> {OpZero, OpOne, OpMin, OpMax, OpRandom, OpEmpty, OpLengthBoundary}"
    | "ct_kind t = ''compound''" "starts_with ''vec<'' (ct_name t)"
        "op \<in> {OpVecEmpty, OpVecRemoveOne, OpVecDuplicate, OpVecAppend, OpVecMutateOne}"
    | "ct_kind t = ''compound''" "starts_with ''option<'' (ct_name t)"
        "op \<in> {OpOptionNone, OpOptionSome, OpOptionSomeMutated}"
    | "ct_kind t = ''compound''" "starts_with ''map<'' (ct_name t)"
        "op \<in> {OpMapEmpty, OpMapRemoveOne, OpMapInsertKey}"
  using assms by (auto simp: operators_for_def Let_def split: if_splits)

lemma map_insert_typed:
  assumes order: "value_order le" and t: "ct_kind t = ''compound''" "starts_with ''map<'' (ct_name t)"
    and current: "typed_value le t current" and run: "map_insert_key sha le caps t current rng = Ok v"
  shows "typed_value le t v"
proof -
  from run obtain kt vt rest e where args: "ct_type_args t = kt # vt # rest"
    and e: "find_new_entry sha le caps kt vt (map_entries current) 100 rng = Some e"
    and v: "v = VMap (Some (sort_entries le (map_entries current @ [e])))"
    by (auto simp: map_insert_key_def Let_def split: list.splits if_splits)
  have entries: "strictly_sorted le (map_entries current)"
    "\<forall>x \<in> set (map_entries current). typed_value le kt (fst x) \<and> typed_value le vt (snd x)"
    using current args by (auto simp: typed_map_iff [OF t] map_entries_def strictly_sorted_def)
  have "distinct (map fst (sort_entries le (map_entries current @ [e])))"
    using find_new_entry_Some [OF e] strictly_sorted_distinct [OF entries(1)]
    by (auto simp: distinct_sort_entries)
  then have "strictly_sorted le (sort_entries le (map_entries current @ [e]))"
    using order by (intro sorted_distinct_strict sorted_sort_entries)
  then show ?thesis using v args entries(2) find_new_entry_Some [OF e] typed_generated [OF order]
    by (auto simp: typed_map_iff [OF t])
qed

lemma apply_operator_typed:
  assumes order: "value_order le"
    and "op \<in> set (operators_for t)" "typed_value le t current"
    and "apply_operator sha le caps t current op rng = Ok v"
  shows "typed_value le t v"
  using assms(2-4)
proof (induction "size t" arbitrary: t current op rng v rule: less_induct)
  case less
  note IH = less.hyps [OF size_hd_type_arg(1)]
  from less.prems(1) show ?case
  proof (cases rule: operators_for_cases)
    case 1
    then show ?thesis using less.prems(3) by (subst typed_value.simps) (auto simp: primitive_typed_def)
  next
    case 2
    then have "primitive_typed (ct_name t) v \<or> typed_value le t v"
      using less.prems(3) typed_generated [OF order] by (auto intro: numeric_typed bytes_of_type_typed)
    then show ?thesis using 2 by (subst typed_value.simps) (auto simp: typed_value.simps [of le t])
  next
    case vec: 3
    note typed = typed_vec_iff [OF vec(1,2), of le]
    have items: "\<forall>x \<in> set (vec_items current). typed_value le elem x" if "ct_type_args t = elem # rest" for elem rest
      using less.prems(2) that by (auto simp: typed vec_items_def)
    have items': "\<exists>elem rest. ct_type_args t = elem # rest" if "vec_items current \<noteq> []"
      using less.prems(2) that by (auto simp: typed vec_items_def)
    from vec(3) consider "op = OpVecEmpty" | "op = OpVecRemoveOne" | "op = OpVecDuplicate" | "op = OpVecAppend"
      | "op = OpVecMutateOne" by auto
    then show ?thesis
    proof cases
      case 1
      then show ?thesis using less.prems(3) by (simp add: typed)
    next
      case 2
      then have "vec_items current \<noteq> []" "v = VVec (Some (butlast (vec_items current)))"
        using less.prems(3) by (auto simp: vec_remove_one_def split: if_splits)
      then show ?thesis using items' items by (fastforce simp: typed dest: in_set_butlastD)
    next
      case 3
      then have ne: "vec_items current \<noteq> []" using less.prems(3) by (auto simp: vec_duplicate_def Let_def split: if_splits)
      then obtain elem rest where args: "ct_type_args t = elem # rest" using items' by blast
      obtain j where v: "v = VVec (Some (take j (vec_items current) @ last (vec_items current) # drop j (vec_items current)))"
        using less.prems(3) 3 ne by (auto simp: vec_duplicate_def Let_def)
      have "\<forall>x \<in> set (take j (vec_items current) @ last (vec_items current) # drop j (vec_items current)). typed_value le elem x"
        using items [OF args] ne by (auto dest: in_set_takeD in_set_dropD)
      then show ?thesis using args by (auto simp: typed v)
    next
      case 4
      then obtain elem rest x where args: "ct_type_args t = elem # rest"
        and v: "v = VVec (Some (vec_items current @ [x]))" "\<exists>k. generate_value sha le caps elem k 1 = Ok x"
        using less.prems(3) by (auto simp: vec_append_def split: list.splits if_splits)
      then show ?thesis using items [OF args] typed_generated [OF order] by (auto simp: typed)
    next
      case 5
      then obtain elem rest where args: "ct_type_args t = elem # rest" and ne: "vec_items current \<noteq> []"
        using less.prems(3) by (auto simp: Let_def split: list.splits if_splits)
      obtain i op' inner x where x: "apply_operator sha le caps elem (vec_items current ! i) op' inner = Ok x"
        and op': "op' \<in> set (operators_for elem)" and v: "v = VVec (Some ((vec_items current)[i := x]))"
        and i: "i < length (vec_items current)"
        using less.prems(3) 5 args ne unat_below_less [of "length (vec_items current)" rng]
        by (auto simp: Let_def case_prod_beta dest: pick_operator_Ok)
      have "typed_value le elem x" using IH [OF args op' _ x] items [OF args] i by simp
      then show ?thesis using items [OF args] v args by (auto simp: typed dest: set_update_subset_insert [THEN subsetD])
    qed
  next
    case opt: 4
    note typed = typed_option_iff [OF opt(1,2), of le]
    from opt(3) consider "op = OpOptionNone" | "op = OpOptionSome" | "op = OpOptionSomeMutated" by auto
    then show ?thesis
    proof cases
      case 1
      then show ?thesis using less.prems(3) by (simp add: typed)
    next
      case 2
      then show ?thesis using less.prems(3) typed_generated [OF order] by (auto simp: typed split: list.splits)
    next
      case 3
      then obtain elem rest op' base inner k where "ct_type_args t = elem # rest" "op' \<in> set (operators_for elem)"
        "generate_value sha le caps elem k 1 = Ok base" "apply_operator sha le caps elem base op' inner = Ok v"
        using less.prems(3) by (auto simp: Let_def case_prod_beta split: list.splits dest: pick_operator_Ok)
      then have "ct_type_args t = elem # rest" "typed_value le elem v"
        using IH typed_generated [OF order] by blast+
      then show ?thesis by (simp add: typed)
    qed
  next
    case map: 5
    note typed = typed_map_iff [OF map(1,2), of le]
    from map(3) consider "op = OpMapEmpty" | "op = OpMapRemoveOne" | "op = OpMapInsertKey" by auto
    then show ?thesis
    proof cases
      case 2
      then show ?thesis using less.prems
        by (fastforce simp: typed map_remove_one_def map_entries_def strictly_sorted_butlast dest: in_set_butlastD split: if_splits)
    qed (use less.prems map_insert_typed [OF order map(1,2)] in \<open>auto simp: typed\<close>)
  qed
qed

text \<open>
  C23. A mutation changes exactly its target and stays well typed: if the arguments are values of
  their parameters' types and an operator is applied to one of them, the result is the same argument
  vector with that position replaced, and every argument is still a value of its type, whatever the
  operator, the generated values and the nesting of the type.
\<close>

theorem mutation_targets_one_argument:
  assumes order: "value_order le"
    and typed: "list_all2 (typed_value le) param_types args" "arg_index < length param_types"
    and run: "mutate_arg sha le (param_types ! arg_index) args arg_index op seed case_id caps = Ok m"
  shows "mu_arg_index m = arg_index \<and> mu_operator m = op \<and>
    mu_args m = args[arg_index := mu_value m] \<and> list_all2 (typed_value le) param_types (mu_args m)"
proof -
  have current: "typed_value le (param_types ! arg_index) (args ! arg_index)"
    using typed by (simp add: list_all2_conv_all_nth)
  have "typed_value le (param_types ! arg_index) (mu_value m)"
    using run apply_operator_typed [OF order _ current] by (auto simp: mutate_arg_def Let_def split: if_splits)
  then show ?thesis using run typed
    by (auto simp: mutate_arg_def Let_def list_all2_conv_all_nth nth_list_update split: if_splits)
qed

lemma vec_duplicate_ignores_cap:
  assumes "vec_items current \<noteq> []" "length (vec_items current) < 4294967295"
  shows "\<exists>xs. vec_duplicate caps current rng = Ok (VVec (Some xs)) \<and>
    length xs = Suc (length (vec_items current))"
  using assms unat_below_less [of "length (vec_items current)" rng] by (simp add: vec_duplicate_def Let_def)

section \<open>The walk\<close>

lemma distinct_operators_for: "distinct (operators_for t)"
  by (simp add: operators_for_def Let_def)

lemma in_mutation_candidates:
  "(i, op) \<in> set (mutation_candidates ts) \<longleftrightarrow> i < length ts \<and> op \<in> set (operators_for (ts ! i))"
  by (force simp: mutation_candidates_def in_set_enumerate_eq)

lemma distinct_mutation_candidates: "distinct (mutation_candidates ts)"
proof -
  have "distinct (concat (map (\<lambda>(i, t). map (\<lambda>op. (i, op)) (operators_for t)) (enumerate n ts))) \<and>
    (\<forall>c \<in> set (concat (map (\<lambda>(i, t). map (\<lambda>op. (i, op)) (operators_for t)) (enumerate n ts))). n \<le> fst c)" for n
  proof (induction ts arbitrary: n)
    case (Cons t ts)
    from Cons [of "Suc n"] show ?case
      by (fastforce simp: distinct_map distinct_operators_for inj_on_def)
  qed simp
  then show ?thesis by (simp add: mutation_candidates_def)
qed

lemma mset_rotation:
  assumes "xs \<noteq> []"
  shows "mset (map (\<lambda>k. xs ! ((s + k) mod length xs)) [0..<length xs]) = mset xs"
proof -
  have "map (\<lambda>k. xs ! ((s + k) mod length xs)) [0..<length xs] = rotate s xs"
    using assms by (intro nth_equalityI) (simp_all add: nth_rotate add.commute)
  then show ?thesis
    by (simp add: rotate_drop_take) (metis append_take_drop_id mset_append union_commute)
qed

text \<open>
  The planned mutations walk through all operators: over as many consecutive steps as there are
  candidates (pairs of an argument and an operator of its type), from any step on, each candidate is
  planned exactly once, and two consecutive steps differ as soon as there are two candidates.
\<close>

theorem plan_mutation_walks_candidates:
  assumes "mutation_candidates param_types \<noteq> []"
  shows "mset (map (\<lambda>k. plan_mutation sha param_types seed case_id (step + k))
        [0..<length (mutation_candidates param_types)]) =
      mset (map Some (mutation_candidates param_types)) \<and>
    (1 < length (mutation_candidates param_types) \<longrightarrow>
      plan_mutation sha param_types seed case_id step \<noteq> plan_mutation sha param_types seed case_id (Suc step))"
proof -
  let ?cs = "mutation_candidates param_types"
  obtain start where plan: "plan_mutation sha param_types seed case_id k = Some (?cs ! ((start + k) mod length ?cs))" for k
    using assms by (simp add: plan_mutation_def Let_def)
  have "mset (map (\<lambda>k. plan_mutation sha param_types seed case_id (step + k)) [0..<length ?cs]) =
      image_mset Some (mset (map (\<lambda>k. ?cs ! ((start + step + k) mod length ?cs)) [0..<length ?cs]))"
    by (simp add: plan add.assoc image_mset.compositionality comp_def flip: mset_map)
  also have "\<dots> = mset (map Some ?cs)" unfolding mset_rotation [OF assms] by simp
  finally have walk: "mset (map (\<lambda>k. plan_mutation sha param_types seed case_id (step + k)) [0..<length ?cs]) =
      mset (map Some ?cs)" .
  have "(start + step) mod length ?cs \<noteq> (start + Suc step) mod length ?cs" if "1 < length ?cs"
    using that by (simp add: mod_Suc)
  then have "plan_mutation sha param_types seed case_id step \<noteq> plan_mutation sha param_types seed case_id (Suc step)"
    if "1 < length ?cs"
    using that assms distinct_mutation_candidates [of param_types] by (simp add: plan nth_eq_iff_index_eq)
  with walk show ?thesis by blast
qed

section \<open>Witnesses\<close>

theorem mutation_targets_one_argument_witness:
  "\<exists>m. mutate_arg const_sha val_le (primitive ''bool'') [VBool False] 0 OpBoolTrue [] ''c'' default_generation_caps = Ok m \<and>
     mu_args m = [VBool True]"
proof -
  have run: "mutate_arg const_sha val_le ([primitive ''bool''] ! 0) [VBool False] 0 OpBoolTrue [] ''c'' default_generation_caps =
      Ok \<lparr>mu_mutation_id = mutation_id const_sha [] ''c'' 0 OpBoolTrue, mu_arg_index = 0, mu_operator = OpBoolTrue,
           mu_value = VBool True, mu_args = [VBool True]\<rparr>"
    by (simp add: mutate_arg_def operators_for_def primitive_def)
  have "typed_value val_le (primitive ''bool'') (VBool False)"
    by (subst typed_value.simps) (simp add: primitive_def primitive_typed_def)
  then show ?thesis
    using mutation_targets_one_argument [OF value_order_val_le _ _ run] run by simp
qed

theorem plan_mutation_walks_candidates_witness:
  "mset (map (\<lambda>k. plan_mutation const_sha [primitive ''bool''] [] ''c'' (1 + k)) [0, 1]) =
     {#Some (0, OpBoolTrue), Some (0, OpBoolFalse)#}"
proof -
  have "mutation_candidates [primitive ''bool''] = [(0, OpBoolTrue), (0, OpBoolFalse)]"
    by (simp add: mutation_candidates_def operators_for_def primitive_def)
  then show ?thesis
    using plan_mutation_walks_candidates [of "[primitive ''bool'']" const_sha "[]" "''c''" 1] by simp
qed

end
