(* ===== verification/Fuzz_Artifact.thy ===== *)
theory Fuzz_Artifact
  imports Fuzz_Minimizer Fuzz_Mutation
begin

text \<open>
  Findings and their artifacts (\<^verbatim>\<open>sdkt-fuzz/src/finding.rs\<close>, \<^verbatim>\<open>artifact.rs\<close>): the record of a violated
  expectation, its serialized form, and the reading of that form for a replay.

  The XDR codec of values, SHA-256 and the serde encoding of an artifact are parameters
  (\<open>artifact_tools\<close>).
\<close>

section \<open>Findings\<close>

definition auth_mode_name :: "auth_mode \<Rightarrow> string" where
  "auth_mode_name mode =
     (case mode of NoAuth \<Rightarrow> ''no_auth'' | CorrectAuth \<Rightarrow> ''correct_auth'' | WrongAuth \<Rightarrow> ''wrong_auth'')"

definition auth_mode_from_name :: "string \<Rightarrow> auth_mode option" where
  "auth_mode_from_name s =
     (if s = ''no_auth'' then Some NoAuth
      else if s = ''correct_auth'' then Some CorrectAuth
      else if s = ''wrong_auth'' then Some WrongAuth
      else None)"

lemma auth_mode_round_trip [simp]: "auth_mode_from_name (auth_mode_name mode) = Some mode"
  by (cases mode) (simp_all add: auth_mode_name_def auth_mode_from_name_def)

lemma reason_round_trip [simp]: "reason_from_name (reason_name r) = Some r"
  by (cases r) (simp_all add: reason_from_name_def)

record case_identity =
  ci_case_id :: string
  ci_wasm_hash :: string
  ci_function :: string
  ci_mutation_id :: "string option"
  ci_operator :: "string option"
  ci_auth_mode :: string

record finding =
  fd_reason_code :: reason_code
  fd_identity :: case_identity
  fd_case :: fuzz_case
  fd_mutation :: "mutation option"
  fd_environment :: environment
  fd_expected :: expected
  fd_observation :: observation
  fd_minimization :: minimization

definition finding_new ::
  "(sc_val \<Rightarrow> nat) \<Rightarrow> reason_code \<Rightarrow> fuzz_case \<Rightarrow> mutation option \<Rightarrow> environment \<Rightarrow> expected \<Rightarrow> observation \<Rightarrow>
   string \<Rightarrow> auth_mode \<Rightarrow> finding" where
  "finding_new dbg reason_code c mutation env ex obs wasm_hash mode =
     \<lparr>fd_reason_code = reason_code,
      fd_identity = \<lparr>ci_case_id = fz_case_id c, ci_wasm_hash = hex wasm_hash, ci_function = fc_function (fz_call c),
        ci_mutation_id = map_option mu_mutation_id mutation,
        ci_operator = map_option (\<lambda>m. operator_name (mu_operator m)) mutation,
        ci_auth_mode = auth_mode_name mode\<rparr>,
      fd_case = c, fd_mutation = mutation, fd_environment = env, fd_expected = ex, fd_observation = obs,
      fd_minimization = not_attempted dbg c\<rparr>"

definition finding_matches :: "finding \<Rightarrow> classification \<Rightarrow> bool" where
  "finding_matches f c = (case c of Finding r \<Rightarrow> r = fd_reason_code f | _ \<Rightarrow> False)"

record skipped_function =
  sk_function :: string
  sk_reason :: string

definition finding_selectable :: "contract_spec \<Rightarrow> string list \<times> skipped_function list" where
  "finding_selectable spec =
     (let (ok, skipped) = selectable_functions spec in
      (ok, map (\<lambda>(function, reason). \<lparr>sk_function = function, sk_reason = reason\<rparr>) skipped))"

section \<open>Base16\<close>

definition unhex_digit :: "char \<Rightarrow> nat option" where
  "unhex_digit c =
     (let b = (of_char c :: nat) in
      if 48 \<le> b \<and> b \<le> 57 then Some (b - 48)
      else if 97 \<le> b \<and> b \<le> 102 then Some (b - 97 + 10)
      else if 65 \<le> b \<and> b \<le> 70 then Some (b - 65 + 10)
      else None)"

fun unhex_pairs :: "string \<Rightarrow> string option" where
  "unhex_pairs (a # b # cs) =
     (case (unhex_digit a, unhex_digit b) of
        (Some hi, Some lo) \<Rightarrow> map_option (\<lambda>out. char_of (hi * 16 + lo) # out) (unhex_pairs cs)
      | _ \<Rightarrow> None)"
| "unhex_pairs _ = Some []"

definition unhex :: "string \<Rightarrow> string option" where
  "unhex s = (if length s mod 2 \<noteq> 0 then None else unhex_pairs s)"

definition unhex_32 :: "string \<Rightarrow> string option" where
  "unhex_32 s = Option.bind (unhex s) (\<lambda>b. if length b = 32 then Some b else None)"

lemma unhex_hex_digit: "d < 16 \<Longrightarrow> unhex_digit (hex_digit d) = Some d"
  by (auto simp: unhex_digit_def hex_digit_def)

lemma hex_Cons: "hex (b # bs) = hex_digit (of_char b div 16) # hex_digit (of_char b mod 16) # hex bs"
  by (simp add: hex_def)

lemma length_hex [simp]: "length (hex bs) = 2 * length bs"
  by (induction bs) (simp_all add: hex_Cons, simp add: hex_def)

lemma unhex_hex [simp]: "unhex (hex bs) = Some bs"
proof -
  have "unhex_pairs (hex bs) = Some bs"
  proof (induction bs)
    case (Cons b bs)
    have "(of_char b :: nat) < 256" by simp
    then have "of_char b div 16 < (16 :: nat)" "of_char b mod 16 < (16 :: nat)" by linarith+
    then show ?case using Cons by (simp add: hex_Cons unhex_hex_digit)
  qed (simp add: hex_def)
  then show ?thesis by (simp add: unhex_def)
qed

section \<open>Snapshots\<close>

record artifact_tools =
  at_sha :: "string \<Rightarrow> string"
  at_val_to_xdr :: "sc_val \<Rightarrow> string option"
  at_val_from_xdr :: "string \<Rightarrow> sc_val option"

definition SCHEMA_VERSION :: "32 word" where
  "SCHEMA_VERSION = 1"

definition xdr_hex :: "artifact_tools \<Rightarrow> sc_val \<Rightarrow> string" where
  "xdr_hex A v = hex (unwrap_or [] (at_val_to_xdr A v))"

definition unhex_xdr :: "artifact_tools \<Rightarrow> string \<Rightarrow> sc_val option" where
  "unhex_xdr A s = Option.bind (unhex s) (at_val_from_xdr A)"

datatype budget_plan_snapshot =
    SnapDefault
  | SnapCapped "64 word" "64 word"
  | SnapProtocolInitial
  | SnapNetworkFaithful string string "32 word" "32 word" string nat nat

record environment_snapshot =
  es_sequence_number :: "32 word"
  es_timestamp :: "64 word"
  es_budget :: budget_plan_snapshot

definition snapshot_environment :: "artifact_tools \<Rightarrow> environment \<Rightarrow> environment_snapshot" where
  "snapshot_environment A e =
     \<lparr>es_sequence_number = lg_sequence_number (env_ledger e), es_timestamp = lg_timestamp (env_ledger e),
      es_budget = (case env_budget e of
          BudgetDefault \<Rightarrow> SnapDefault
        | Capped cpu mem \<Rightarrow> SnapCapped cpu mem
        | ProtocolInitial \<Rightarrow> SnapProtocolInitial
        | NetworkFaithful profile coverage \<Rightarrow>
            SnapNetworkFaithful (hex (content_hash (at_sha A) profile)) (np_network_name profile)
              (np_protocol_version profile) (np_ledger_sequence profile) (coverage_str coverage)
              (cov_covered_cost_types coverage) (cov_host_cost_types coverage))\<rparr>"

text \<open>The release build: a debug build asserts that the plan is not network-faithful.\<close>

definition budget_plan_from_snapshot :: "budget_plan_snapshot \<Rightarrow> budget_plan" where
  "budget_plan_from_snapshot s =
     (case s of
        SnapDefault \<Rightarrow> BudgetDefault
      | SnapCapped cpu mem \<Rightarrow> Capped cpu mem
      | SnapProtocolInitial \<Rightarrow> ProtocolInitial
      | SnapNetworkFaithful _ _ _ _ _ _ _ \<Rightarrow> ProtocolInitial)"

definition environment_from_snapshot :: "environment_snapshot \<Rightarrow> environment" where
  "environment_from_snapshot s =
     \<lparr>env_ledger = \<lparr>lg_sequence_number = es_sequence_number s, lg_timestamp = es_timestamp s\<rparr>,
      env_budget = budget_plan_from_snapshot (es_budget s)\<rparr>"

record generation_caps_snapshot =
  gs_max_depth :: "32 word"
  gs_max_vec_len :: nat
  gs_max_byte_len :: nat
  gs_max_map_entries :: nat

definition snapshot_caps :: "generation_caps \<Rightarrow> generation_caps_snapshot" where
  "snapshot_caps c = \<lparr>gs_max_depth = gc_max_depth c, gs_max_vec_len = gc_max_vec_len c,
     gs_max_byte_len = gc_max_byte_len c, gs_max_map_entries = gc_max_map_entries c\<rparr>"

definition caps_from_snapshot :: "generation_caps_snapshot \<Rightarrow> generation_caps" where
  "caps_from_snapshot c = \<lparr>gc_max_depth = gs_max_depth c, gc_max_vec_len = gs_max_vec_len c,
     gc_max_byte_len = gs_max_byte_len c, gc_max_map_entries = gs_max_map_entries c\<rparr>"

record campaign_config =
  ac_wasm_sha256 :: string
  ac_seed_hex :: string
  ac_cases :: nat
  ac_function :: "string option"
  ac_sequence_length :: nat
  ac_sequence_every :: nat
  ac_mutations_per_case :: nat
  ac_generation :: generation_caps_snapshot
  ac_environment :: environment_snapshot
  ac_auth_modes :: "string list"

record mutation_snapshot =
  ms_mutation_id :: string
  ms_arg_index :: nat
  ms_operator :: string
  ms_value_xdr :: string
  ms_args_xdr :: "string list"

definition snapshot_mutation :: "artifact_tools \<Rightarrow> mutation \<Rightarrow> mutation_snapshot" where
  "snapshot_mutation A m =
     \<lparr>ms_mutation_id = mu_mutation_id m, ms_arg_index = mu_arg_index m, ms_operator = operator_name (mu_operator m),
      ms_value_xdr = xdr_hex A (mu_value m), ms_args_xdr = map (xdr_hex A) (mu_args m)\<rparr>"

datatype status_snapshot =
    SnapReturned string
  | SnapVoid
  | SnapContractError string nat

record state_entry_snapshot =
  ss_key_xdr :: string
  ss_value_xdr :: "string option"
  ss_change :: string

record event_snapshot =
  ev_contract_id :: "string option"
  ev_event_type :: string
  ev_topics_xdr :: "string list"
  ev_data_xdr :: string

record observation_snapshot =
  os_case_id :: string
  os_function :: string
  os_status :: status_snapshot
  os_state :: "state_entry_snapshot list"
  os_events :: "event_snapshot list"
  os_budget :: budget_usage

definition snapshot_event :: "artifact_tools \<Rightarrow> event_record \<Rightarrow> event_snapshot" where
  "snapshot_event A e =
     \<lparr>ev_contract_id = map_option hex (er_contract_id e), ev_event_type = er_event_type e,
      ev_topics_xdr = map (xdr_hex A) (er_topics e), ev_data_xdr = xdr_hex A (er_data e)\<rparr>"

definition filter_map :: "('a \<Rightarrow> 'b option) \<Rightarrow> 'a list \<Rightarrow> 'b list" where
  "filter_map f xs = concat (map (\<lambda>x. option_list (f x)) xs)"

definition restore_event :: "artifact_tools \<Rightarrow> event_snapshot \<Rightarrow> event_record" where
  "restore_event A e =
     \<lparr>er_contract_id = Option.bind (ev_contract_id e) unhex_32, er_event_type = ev_event_type e,
      er_topics = filter_map (unhex_xdr A) (ev_topics_xdr e),
      er_data = unwrap_or VVoid (unhex_xdr A (ev_data_xdr e))\<rparr>"

definition change_name :: "state_change \<Rightarrow> string" where
  "change_name c = (case c of Created \<Rightarrow> ''created'' | StateUpdated \<Rightarrow> ''updated'' | Deleted \<Rightarrow> ''deleted''
     | StateUnchanged \<Rightarrow> ''unchanged'')"

definition snapshot_observation :: "artifact_tools \<Rightarrow> observation \<Rightarrow> observation_snapshot" where
  "snapshot_observation A obs =
     \<lparr>os_case_id = obs_case_id obs, os_function = obs_function obs,
      os_status = (case obs_status obs of
          Returned v \<Rightarrow> SnapReturned (xdr_hex A v)
        | ReturnedVoid \<Rightarrow> SnapVoid
        | ContractError error_type code \<Rightarrow> SnapContractError error_type code),
      os_state = map (\<lambda>s. \<lparr>ss_key_xdr = hex (se_key_xdr s), ss_value_xdr = map_option hex (se_value_xdr s),
          ss_change = change_name (se_change s)\<rparr>) (obs_state obs),
      os_events = map (snapshot_event A) (obs_events obs), os_budget = obs_budget obs\<rparr>"

datatype behavior_snapshot =
    SnapSuccess "string option"
  | SnapError string nat
  | SnapAny

record state_expectation =
  sx_key_xdr :: string
  sx_value_xdr :: string

record expected_snapshot =
  xs_behavior :: behavior_snapshot
  xs_state :: "state_expectation list option"
  xs_events :: "event_snapshot list option"
  xs_auth_required :: bool
  xs_resource_limit_is_finding :: bool

definition snapshot_expected :: "artifact_tools \<Rightarrow> expected \<Rightarrow> expected_snapshot" where
  "snapshot_expected A e =
     \<lparr>xs_behavior = (case ex_behavior e of
          ExpectSuccess want \<Rightarrow> SnapSuccess (map_option (xdr_hex A) want)
        | ExpectError error_type code \<Rightarrow> SnapError error_type code
        | ExpectAny \<Rightarrow> SnapAny),
      xs_state = map_option (map (\<lambda>(k, v). \<lparr>sx_key_xdr = hex k, sx_value_xdr = hex v\<rparr>)) (ex_state e),
      xs_events = map_option (map (snapshot_event A)) (ex_events e),
      xs_auth_required = ex_auth_required e,
      xs_resource_limit_is_finding = ex_resource_limit_is_finding e\<rparr>"

definition restore_state_expectation :: "state_expectation \<Rightarrow> (string \<times> string) option" where
  "restore_state_expectation e =
     Option.bind (unhex (sx_key_xdr e)) (\<lambda>k. map_option (\<lambda>v. (k, v)) (unhex (sx_value_xdr e)))"

definition to_expected :: "artifact_tools \<Rightarrow> expected_snapshot \<Rightarrow> expected" where
  "to_expected A s =
     \<lparr>ex_behavior = (case xs_behavior s of
          SnapSuccess want \<Rightarrow> ExpectSuccess (Option.bind want (unhex_xdr A))
        | SnapError error_type code \<Rightarrow> ExpectError error_type code
        | SnapAny \<Rightarrow> ExpectAny),
      ex_state = map_option (\<lambda>entries. bt_collect (filter_map restore_state_expectation entries)) (xs_state s),
      ex_events = map_option (map (restore_event A)) (xs_events s),
      ex_auth_required = xs_auth_required s,
      ex_resource_limit_is_finding = xs_resource_limit_is_finding s\<rparr>"

section \<open>Artifacts\<close>

record sequence_step_snapshot =
  st_function :: string
  st_args_xdr :: "string list"

record finding_artifact =
  fa_schema_version :: "32 word"
  fa_campaign :: campaign_config
  fa_case_id :: string
  fa_function :: string
  fa_sequence :: "sequence_step_snapshot list"
  fa_auth_mode :: string
  fa_mutation :: "mutation_snapshot option"
  fa_expected :: expected_snapshot
  fa_observation :: observation_snapshot
  fa_reason_code :: string
  fa_minimization :: minimization

definition from_finding ::
  "artifact_tools \<Rightarrow> finding \<Rightarrow> campaign_config \<Rightarrow> function_call list \<Rightarrow> string \<Rightarrow> finding_artifact" where
  "from_finding A f campaign steps wasm =
     \<lparr>fa_schema_version = SCHEMA_VERSION,
      fa_campaign = campaign \<lparr>ac_wasm_sha256 := hex (at_sha A wasm)\<rparr>,
      fa_case_id = ci_case_id (fd_identity f), fa_function = ci_function (fd_identity f),
      fa_sequence = map (\<lambda>s. \<lparr>st_function = fc_function s, st_args_xdr = map (xdr_hex A) (fc_args s)\<rparr>) steps,
      fa_auth_mode = auth_mode_name (unwrap_or NoAuth (auth_mode_from_name (ci_auth_mode (fd_identity f)))),
      fa_mutation = map_option (snapshot_mutation A) (fd_mutation f),
      fa_expected = snapshot_expected A (fd_expected f),
      fa_observation = snapshot_observation A (fd_observation f),
      fa_reason_code = reason_name (fd_reason_code f),
      fa_minimization = fd_minimization f\<rparr>"

definition artifact_expected :: "artifact_tools \<Rightarrow> finding_artifact \<Rightarrow> expected" where
  "artifact_expected A a = to_expected A (fa_expected a)"

definition restore_step :: "artifact_tools \<Rightarrow> sequence_step_snapshot \<Rightarrow> (function_call, fuzz_error) result" where
  "restore_step A s =
     map_ok (\<lambda>args. \<lparr>fc_function = st_function s, fc_args = args\<rparr>)
       (try_map (\<lambda>a. ok_or (InvalidArtifact ''argument did not decode as ScVal XDR'') (unhex_xdr A a)) (st_args_xdr s))"

definition artifact_steps :: "artifact_tools \<Rightarrow> finding_artifact \<Rightarrow> (function_call list, fuzz_error) result" where
  "artifact_steps A a = try_map (restore_step A) (fa_sequence a)"

definition artifact_environment :: "finding_artifact \<Rightarrow> environment" where
  "artifact_environment a = environment_from_snapshot (ac_environment (fa_campaign a))"

definition artifact_seed :: "finding_artifact \<Rightarrow> (string, fuzz_error) result" where
  "artifact_seed a =
     and_then (ok_or (InvalidArtifact ''campaign seed is not hex'') (unhex (ac_seed_hex (fa_campaign a)))) (\<lambda>bytes.
       if length bytes = 32 then Ok bytes else Err (InvalidArtifact ''campaign seed is not 32 bytes''))"

end
