(* ===== verification/Fuzz_Campaign.thy ===== *)
theory Fuzz_Campaign
  imports Fuzz_Artifact
begin

text \<open>
  Campaigns (\<^verbatim>\<open>sdkt-fuzz/src/campaign.rs\<close>, \<^verbatim>\<open>auth.rs\<close>): the cases of a campaign are generated, mutated,
  executed and classified, and each finding is minimized, observed again and turned into an artifact.

  What a campaign uses of the outside world is the record \<open>campaign_tools\<close>: SHA-256 and the codecs of
  \<open>artifact_tools\<close>, the XDR encoding of authorization entries, the compilation of a module, and the
  host an executor runs on (\<open>ct_tools\<close>, for a module and a network id).
\<close>

section \<open>Authorization entries\<close>

record authorized_call =
  au_contract_address :: sc_address
  au_function_name :: string
  au_args :: "sc_val list"

datatype credentials =
    SourceAccount
  | AddressV2 sc_address "64 word" "32 word" sc_val

record auth_entry =
  ae_credentials :: credentials
  ae_root_invocation :: authorized_call

definition AUTH_ACCOUNT :: string where
  "AUTH_ACCOUNT = replicate 32 (char_of (123 :: nat))"

definition FOREIGN_ACCOUNT :: string where
  "FOREIGN_ACCOUNT = replicate 32 (char_of (77 :: nat))"

definition source_address :: sc_address where
  "source_address = AddrAccount AUTH_ACCOUNT"

definition foreign_address :: sc_address where
  "foreign_address = AddrAccount FOREIGN_ACCOUNT"

record campaign_tools =
  ct_artifact :: artifact_tools
  ct_auth_to_xdr :: "auth_entry \<Rightarrow> string + string"
  ct_length_error :: string
  ct_module_cache :: "string + unit"
  ct_parse_module :: "string \<Rightarrow> string + unit"
  ct_tools :: "string \<Rightarrow> string \<Rightarrow> fuzz_tools"
  ct_debug_length :: "sc_val \<Rightarrow> nat"

definition encode_auth :: "campaign_tools \<Rightarrow> auth_entry \<Rightarrow> (string, fuzz_error) result" where
  "encode_auth C entry = sum_result (\<lambda>e. Execution (''auth entry encode: '' @ e)) (ct_auth_to_xdr C entry)"

definition invoke_root_invocation ::
  "campaign_tools \<Rightarrow> sc_address \<Rightarrow> function_call \<Rightarrow> (authorized_call, fuzz_error) result" where
  "invoke_root_invocation C contract call =
     (if length (fc_function call) > 32 then Err (Execution (''invalid ScSymbol: '' @ fc_function call))
      else map_ok (\<lambda>args. \<lparr>au_contract_address = contract, au_function_name = fc_function call, au_args = args\<rparr>)
             (ok_or (Execution (ct_length_error C)) (xdr_vec (fc_args call))))"

definition source_account_entry :: "authorized_call \<Rightarrow> auth_entry" where
  "source_account_entry root = \<lparr>ae_credentials = SourceAccount, ae_root_invocation = root\<rparr>"

definition foreign_address_entry :: "authorized_call \<Rightarrow> auth_entry" where
  "foreign_address_entry root =
     \<lparr>ae_credentials = AddressV2 foreign_address 1 (-1) (VBytes (replicate 64 (CHR 0x00))),
      ae_root_invocation = root\<rparr>"

definition invoke_auth_entries ::
  "campaign_tools \<Rightarrow> auth_mode \<Rightarrow> sc_address \<Rightarrow> function_call \<Rightarrow> (string list, fuzz_error) result" where
  "invoke_auth_entries C mode contract call =
     (case mode of
        NoAuth \<Rightarrow> Ok []
      | CorrectAuth \<Rightarrow>
          and_then (invoke_root_invocation C contract call) (\<lambda>root.
            map_ok (\<lambda>e. [e]) (encode_auth C (source_account_entry root)))
      | WrongAuth \<Rightarrow>
          and_then (invoke_root_invocation C contract call) (\<lambda>root.
            map_ok (\<lambda>e. [e]) (encode_auth C (foreign_address_entry root))))"

definition contract_address :: "fuzz_case \<Rightarrow> sc_address" where
  "contract_address c = AddrContract (fz_contract_id c)"

definition auth_for_steps ::
  "campaign_tools \<Rightarrow> fuzz_tools \<Rightarrow> function_call list \<Rightarrow> auth_mode \<Rightarrow> string \<Rightarrow> (string list list, fuzz_error) result" where
  "auth_for_steps C T steps mode case_id =
     (if mode = NoAuth then Ok []
      else try_map (\<lambda>(i, call).
             invoke_auth_entries C mode
               (contract_address (executor_case T (case_id @ ''/step'' @ show_nat i) call [])) call)
           (enumerate 0 steps))"

section \<open>The executor of a campaign\<close>

definition executor_new :: "campaign_tools \<Rightarrow> string \<Rightarrow> fuzz_config \<Rightarrow> (fuzz_tools, fuzz_error) result" where
  "executor_new C wasm config =
     and_then (config_validate config) (\<lambda>_.
     if wasm = [] then Err (InvalidSetup (SetupWasm ''empty wasm input''))
     else
       and_then (sum_result (\<lambda>e. InvalidSetup (SetupWasm (''module cache init: '' @ e))) (ct_module_cache C)) (\<lambda>_.
       and_then (sum_result (\<lambda>e. InvalidSetup (SetupWasm (''wasm rejected by the Soroban engine: '' @ e)))
                  (ct_parse_module C wasm)) (\<lambda>_.
         Ok (ct_tools C wasm (cfg_network_id config)))))"

section \<open>Campaigns\<close>

record campaign_input =
  cp_wasm :: string
  cp_spec :: contract_spec
  cp_seed :: string
  cp_cases :: nat
  cp_function :: "string option"
  cp_sequence_length :: nat
  cp_sequence_every :: nat
  cp_generation :: generation_caps
  cp_mutations_per_case :: nat
  cp_environment :: environment
  cp_auth_mode :: auth_mode

definition campaign_input_new ::
  "(string \<Rightarrow> (contract_spec, string) result) \<Rightarrow> string \<Rightarrow> string \<Rightarrow> (campaign_input, fuzz_error) result" where
  "campaign_input_new parse_spec wasm seed =
     map_ok (\<lambda>spec. \<lparr>cp_wasm = wasm, cp_spec = spec, cp_seed = seed, cp_cases = 16, cp_function = None,
         cp_sequence_length = 2, cp_sequence_every = 0, cp_generation = default_generation_caps,
         cp_mutations_per_case = 2, cp_environment = default_environment, cp_auth_mode = NoAuth\<rparr>)
       (map_err (\<lambda>e. InvalidConfig (''ContractSpec: '' @ e)) (parse_spec wasm))"

definition campaign_selectable :: "campaign_input \<Rightarrow> string list \<times> skipped_function list" where
  "campaign_selectable input =
     (let (all_ok, all_skipped) = finding_selectable (cp_spec input) in
      case cp_function input of
        None \<Rightarrow> (all_ok, all_skipped)
      | Some want \<Rightarrow>
          if want \<in> set all_ok then ([want], [])
          else (case find (\<lambda>s. sk_function s = want) all_skipped of
                  Some skip \<Rightarrow> ([], [skip])
                | None \<Rightarrow> ([], [\<lparr>sk_function = want, sk_reason = ''function not present in ContractSpec''\<rparr>])))"

definition artifact_config :: "campaign_tools \<Rightarrow> campaign_input \<Rightarrow> campaign_config" where
  "artifact_config C input =
     \<lparr>ac_wasm_sha256 = hex (at_sha (ct_artifact C) (cp_wasm input)), ac_seed_hex = hex (cp_seed input),
      ac_cases = cp_cases input, ac_function = cp_function input, ac_sequence_length = cp_sequence_length input,
      ac_sequence_every = cp_sequence_every input, ac_mutations_per_case = cp_mutations_per_case input,
      ac_generation = snapshot_caps (cp_generation input),
      ac_environment = snapshot_environment (ct_artifact C) (cp_environment input),
      ac_auth_modes = [auth_mode_name (cp_auth_mode input)]\<rparr>"

record campaign_result =
  cr_passed :: "string list"
  cr_expected_errors :: "string list"
  cr_findings :: "finding list"
  cr_skipped_functions :: "skipped_function list"
  cr_executed :: nat

definition minimized_findings :: "campaign_result \<Rightarrow> finding list" where
  "minimized_findings r = filter (\<lambda>f. mz_attempted (fd_minimization f)) (cr_findings r)"

definition default_config :: "campaign_input \<Rightarrow> (fuzz_config, fuzz_error) result" where
  "default_config input =
     (let cfg = default_fuzz_config \<lparr>cfg_seed := cp_seed input\<rparr> in
      map_ok (\<lambda>_. cfg) (environment_validate (cp_environment input) cfg))"

text \<open>\<^verbatim>\<open>format!("case{case_number:04}")\<close>\<close>

definition pad4 :: "nat \<Rightarrow> string" where
  "pad4 n = replicate (4 - length (show_nat n)) (CHR ''0'') @ show_nat n"

definition campaign_case_id :: "nat \<Rightarrow> string" where
  "campaign_case_id n = ''case'' @ pad4 n"

definition is_sequence_case :: "campaign_input \<Rightarrow> nat \<Rightarrow> bool" where
  "is_sequence_case input n \<longleftrightarrow>
     cp_sequence_every input > 0 \<and> cp_sequence_length input > 1 \<and> n mod cp_sequence_every input = 0"

definition campaign_call ::
  "campaign_tools \<Rightarrow> fuzz_tools \<Rightarrow> campaign_input \<Rightarrow> string \<Rightarrow> string \<Rightarrow> (function_call, fuzz_error) result" where
  "campaign_call C T input function case_id =
     map_ok (\<lambda>g. \<lparr>fc_function = function, fc_args = gn_args g\<rparr>)
       (map_err (\<lambda>e. InvalidConfig (''generator: '' @ generator_error_display e))
         (generate_call (at_sha (ct_artifact C)) (ft_val_le T) (cp_spec input) function (cp_seed input) case_id
           (cp_generation input)))"

definition generate_steps ::
  "campaign_tools \<Rightarrow> fuzz_tools \<Rightarrow> campaign_input \<Rightarrow> nat \<Rightarrow> string \<Rightarrow> string \<Rightarrow> (function_call list, fuzz_error) result" where
  "generate_steps C T input n function case_id =
     and_then (campaign_call C T input function case_id) (\<lambda>base_call.
       if is_sequence_case input n then
         try_map (\<lambda>i. campaign_call C T input function (case_id @ ''/gen'' @ show_nat i)) [0..<cp_sequence_length input]
       else Ok [base_call])"

text \<open>One round of mutation on the arguments; a plan of nothing ends the loop.\<close>

fun mutate_rounds ::
  "campaign_tools \<Rightarrow> fuzz_tools \<Rightarrow> campaign_input \<Rightarrow> contract_type list \<Rightarrow> string \<Rightarrow> nat list \<Rightarrow>
   sc_val list \<times> mutation option \<Rightarrow> (sc_val list \<times> mutation option, fuzz_error) result" where
  "mutate_rounds C T input param_types case_id [] st = Ok st"
| "mutate_rounds C T input param_types case_id (m # ms) (args, record_mutation) =
     (case plan_mutation (at_sha (ct_artifact C)) param_types (cp_seed input) case_id m of
        None \<Rightarrow> Ok (args, record_mutation)
      | Some (arg_index, op) \<Rightarrow>
          if arg_index \<ge> length args then
            mutate_rounds C T input param_types case_id ms (args, record_mutation)
          else
            (case mutate_arg (at_sha (ct_artifact C)) (ft_val_le T) (param_types ! arg_index) args arg_index op
                    (cp_seed input) case_id (cp_generation input) of
               Ok mu \<Rightarrow> mutate_rounds C T input param_types case_id ms (mu_args mu, Some mu)
             | Err NoApplicableMutation \<Rightarrow>
                 mutate_rounds C T input param_types case_id ms (args, record_mutation)
             | Err (ArgIndexOutOfRange _ _) \<Rightarrow>
                 mutate_rounds C T input param_types case_id ms (args, record_mutation)
             | Err e \<Rightarrow> Err (Execution (''mutation: '' @ mutation_error_display e))
             | Panic \<Rightarrow> Panic))"

definition mutate_steps ::
  "campaign_tools \<Rightarrow> fuzz_tools \<Rightarrow> campaign_input \<Rightarrow> nat \<Rightarrow> string \<Rightarrow> string \<Rightarrow> function_call list \<Rightarrow>
   (function_call list \<times> mutation option, fuzz_error) result" where
  "mutate_steps C T input n function case_id steps =
     (if cp_mutations_per_case input > 0 \<and> \<not> is_sequence_case input n then
        let param_types = (case find_function (cp_spec input) function of
              Some f \<Rightarrow> function_param_types f | None \<Rightarrow> [])
        in map_ok (\<lambda>(args, mutation). (steps[0 := (steps ! 0) \<lparr>fc_args := args\<rparr>], mutation))
             (mutate_rounds C T input param_types case_id [0..<cp_mutations_per_case input]
               (fc_args (steps ! 0), None))
      else Ok (steps, None))"

definition execute_case ::
  "fuzz_tools \<Rightarrow> environment \<Rightarrow> bool \<Rightarrow> function_call list \<Rightarrow> string \<Rightarrow> string list list \<Rightarrow> (observation, fuzz_error) result" where
  "execute_case T env as_sequence steps case_id auth_per_step =
     (if as_sequence then
        map_ok sr_final_observation (execute_sequence_auth T [] env steps case_id auth_per_step)
      else
        let c = executor_case T case_id (steps ! 0) [] in
        case auth_per_step of
          entries # _ \<Rightarrow> execute_with_auth T c env entries
        | [] \<Rightarrow> execute_with T c env)"

definition minimized_finding ::
  "fuzz_tools \<Rightarrow> campaign_input \<Rightarrow> fuzz_oracle \<Rightarrow> string \<Rightarrow> string \<Rightarrow> mutation option \<Rightarrow> reason_code \<Rightarrow>
   minimization_outcome \<Rightarrow> observation \<Rightarrow> finding" where
  "minimized_finding T input oracle function case_id mutation reason out minimized_obs =
     \<lparr>fd_reason_code = reason,
      fd_identity = \<lparr>ci_case_id = case_id, ci_wasm_hash = hex (ft_wasm_hash T), ci_function = function,
        ci_mutation_id = map_option mu_mutation_id mutation,
        ci_operator = map_option (\<lambda>m. operator_name (mu_operator m)) mutation,
        ci_auth_mode = auth_mode_name (cp_auth_mode input)\<rparr>,
      fd_case = executor_case T case_id (mo_steps out ! 0) [], fd_mutation = mutation,
      fd_environment = cp_environment input, fd_expected = or_expected oracle, fd_observation = minimized_obs,
      fd_minimization = (mo_minimization out)
        \<lparr>mz_preserved := (classify oracle minimized_obs = Finding reason)\<rparr>\<rparr>"

definition campaign_finding ::
  "campaign_tools \<Rightarrow> fuzz_tools \<Rightarrow> campaign_input \<Rightarrow> fuzz_oracle \<Rightarrow> string \<Rightarrow> string \<Rightarrow> mutation option \<Rightarrow>
   function_call list \<Rightarrow> observation \<Rightarrow> reason_code \<Rightarrow> (finding \<times> finding_artifact, fuzz_error) result" where
  "campaign_finding C T input oracle function case_id mutation steps obs reason =
     and_then (minimize_with_oracle T (ct_debug_length C)
         \<lparr>mt_steps = steps, mt_baseline = [], mt_environment = cp_environment input\<rparr>
         oracle (Finding reason) (is_success obs)) (\<lambda>out.
     and_then (auth_for_steps C T (mo_steps out) (cp_auth_mode input) case_id) (\<lambda>minimized_auth.
     and_then (execute_case T (cp_environment input) (length (mo_steps out) > 1) (mo_steps out) case_id
         minimized_auth) (\<lambda>minimized_obs.
       let f = minimized_finding T input oracle function case_id mutation reason out minimized_obs
       in Ok (f, from_finding (ct_artifact C) f (artifact_config C input) (mo_steps out) (cp_wasm input)))))"

definition record_observation ::
  "campaign_tools \<Rightarrow> fuzz_tools \<Rightarrow> campaign_input \<Rightarrow> fuzz_oracle \<Rightarrow> string \<Rightarrow> string \<Rightarrow> mutation option \<Rightarrow>
   function_call list \<Rightarrow> observation \<Rightarrow> campaign_result \<Rightarrow> finding_artifact list \<Rightarrow>
   (campaign_result \<times> finding_artifact list, fuzz_error) result" where
  "record_observation C T input oracle function case_id mutation steps obs res artifacts =
     (case classify oracle obs of
        Pass \<Rightarrow> Ok (res \<lparr>cr_passed := cr_passed res @ [case_id]\<rparr>, artifacts)
      | ExpectedError \<Rightarrow> Ok (res \<lparr>cr_expected_errors := cr_expected_errors res @ [case_id]\<rparr>, artifacts)
      | Finding reason \<Rightarrow>
          map_ok (\<lambda>(f, artifact). (res \<lparr>cr_findings := cr_findings res @ [f]\<rparr>, artifacts @ [artifact]))
            (campaign_finding C T input oracle function case_id mutation steps obs reason))"

definition campaign_step ::
  "campaign_tools \<Rightarrow> fuzz_tools \<Rightarrow> campaign_input \<Rightarrow> (string, expected) btree_map \<Rightarrow> string list \<Rightarrow>
   campaign_result \<times> finding_artifact list \<Rightarrow> nat \<Rightarrow> (campaign_result \<times> finding_artifact list, fuzz_error) result" where
  "campaign_step C T input expectations functions = (\<lambda>(res, artifacts) n.
     let function = functions ! (n mod length functions);
         case_id = campaign_case_id n;
         oracle = oracle_with_auth_mode (unwrap_or default_expected (bt_get expectations function)) (cp_auth_mode input)
     in
     and_then (generate_steps C T input n function case_id) (\<lambda>generated.
     and_then (mutate_steps C T input n function case_id generated) (\<lambda>(steps, mutation).
     and_then (auth_for_steps C T steps (cp_auth_mode input) case_id) (\<lambda>auth_per_step.
     and_then (execute_case T (cp_environment input) (is_sequence_case input n) steps case_id auth_per_step) (\<lambda>obs.
       record_observation C T input oracle function case_id mutation steps obs
         (res \<lparr>cr_executed := cr_executed res + 1\<rparr>) artifacts)))))"

definition empty_campaign_result :: "skipped_function list \<Rightarrow> campaign_result" where
  "empty_campaign_result skipped =
     \<lparr>cr_passed = [], cr_expected_errors = [], cr_findings = [], cr_skipped_functions = skipped, cr_executed = 0\<rparr>"

definition run_campaign_inner ::
  "campaign_tools \<Rightarrow> campaign_input \<Rightarrow> (string, expected) btree_map \<Rightarrow>
   (campaign_result \<times> finding_artifact list, fuzz_error) result" where
  "run_campaign_inner C input expectations =
     and_then (default_config input) (\<lambda>config.
     and_then (executor_new C (cp_wasm input) config) (\<lambda>T.
     let (functions, skipped) = campaign_selectable input in
     if functions = [] then Ok (empty_campaign_result skipped, [])
     else try_fold (campaign_step C T input expectations functions) (empty_campaign_result skipped, [])
            [0..<cp_cases input]))"

definition run_campaign ::
  "campaign_tools \<Rightarrow> campaign_input \<Rightarrow> (string, expected) btree_map \<Rightarrow> (campaign_result, fuzz_error) result" where
  "run_campaign C input expectations = map_ok fst (run_campaign_inner C input expectations)"

definition run_campaign_artifacts ::
  "campaign_tools \<Rightarrow> campaign_input \<Rightarrow> (string, expected) btree_map \<Rightarrow>
   (campaign_result \<times> finding_artifact list, fuzz_error) result" where
  "run_campaign_artifacts C input expectations = run_campaign_inner C input expectations"

definition campaign_summary :: "campaign_result \<Rightarrow> string" where
  "campaign_summary r = ''executed='' @ show_nat (cr_executed r) @ '' passed='' @ show_nat (length (cr_passed r)) @
     '' expected_errors='' @ show_nat (length (cr_expected_errors r)) @ '' findings='' @
     show_nat (length (cr_findings r)) @ '' skipped='' @ show_nat (length (cr_skipped_functions r))"

end
