(* ===== verification/Fuzz_Replay.thy ===== *)
theory Fuzz_Replay
  imports Fuzz_Campaign
begin

text \<open>
  Replay (\<^verbatim>\<open>sdkt-fuzz/src/replay.rs\<close> and the canonical encoding of \<^verbatim>\<open>artifact.rs\<close>): an artifact is executed
  again and its verdict compared with the recorded one. The last sections prove what a campaign's
  findings and artifacts are worth.

  The serde encodings of artifacts and observations, the text of a JSON value and the parser of an
  artifact are parameters.
\<close>

section \<open>Canonical JSON\<close>

fun canonicalize :: "json \<Rightarrow> json" where
  "canonicalize (JObject entries) = JObject (sort_key fst (map (\<lambda>(k, v). (k, canonicalize v)) entries))"
| "canonicalize (JArray items) = JArray (map canonicalize items)"
| "canonicalize v = v"

record replay_tools =
  rp_campaign :: campaign_tools
  rp_artifact_value :: "finding_artifact \<Rightarrow> json"
  rp_observation_value :: "observation_snapshot \<Rightarrow> json"
  rp_json_bytes :: "json \<Rightarrow> string"
  rp_parse :: "string \<Rightarrow> string + finding_artifact"

definition canonical_bytes :: "replay_tools \<Rightarrow> finding_artifact \<Rightarrow> string" where
  "canonical_bytes R a = rp_json_bytes R (canonicalize (rp_artifact_value R a))"

definition canonical_hash :: "replay_tools \<Rightarrow> finding_artifact \<Rightarrow> string" where
  "canonical_hash R a = hex (at_sha (ct_artifact (rp_campaign R)) (canonical_bytes R a))"

definition observation_hash :: "replay_tools \<Rightarrow> observation \<Rightarrow> string" where
  "observation_hash R obs =
     hex (at_sha (ct_artifact (rp_campaign R))
       (rp_json_bytes R (canonicalize (rp_observation_value R (snapshot_observation (ct_artifact (rp_campaign R)) obs)))))"

section \<open>Replay\<close>

datatype replay_error =
    Malformed string
  | WasmRead string string
  | UnsupportedSchema "32 word" "32 word"
  | ReplayInvalidArtifact string
  | WasmHashMismatch string string
  | ReplayExecution string

fun replay_error_display :: "replay_error \<Rightarrow> string" where
  "replay_error_display (Malformed e) = ''artifact JSON could not be parsed: '' @ e"
| "replay_error_display (WasmRead path message) = ''WASM file could not be read: '' @ path @ '': '' @ message"
| "replay_error_display (UnsupportedSchema found known) =
     ''unsupported artifact schema_version '' @ show_nat (unat found) @ '' (this build knows '' @ show_nat (unat known) @ '')''"
| "replay_error_display (ReplayInvalidArtifact e) = ''artifact did not round-trip: '' @ e"
| "replay_error_display (WasmHashMismatch want actual) = ''wasm hash mismatch: artifact='' @ want @ '' supplied='' @ actual"
| "replay_error_display (ReplayExecution e) = ''execution could not be performed: '' @ e"

datatype replay_outcome =
    Reproduced reason_code string string
  | Mismatch reason_code classification string string

definition is_reproduced :: "replay_outcome \<Rightarrow> bool" where
  "is_reproduced x = (case x of Reproduced _ _ _ \<Rightarrow> True | Mismatch _ _ _ _ \<Rightarrow> False)"

text \<open>The derived debug text of a classification.\<close>

definition classification_debug :: "classification \<Rightarrow> string" where
  "classification_debug c =
     (case c of
        Pass \<Rightarrow> ''Pass''
      | ExpectedError \<Rightarrow> ''ExpectedError''
      | Finding r \<Rightarrow> ''Finding('' @ (case r of
            ReturnMismatch \<Rightarrow> ''ReturnMismatch'' | StateMismatch \<Rightarrow> ''StateMismatch''
          | EventMismatch \<Rightarrow> ''EventMismatch'' | AuthorizationBypass \<Rightarrow> ''AuthorizationBypass''
          | UnexpectedError \<Rightarrow> ''UnexpectedError'' | ResourceLimit \<Rightarrow> ''ResourceLimit'') @ '')'')"

fun replay_outcome_hash :: "(string \<Rightarrow> string) \<Rightarrow> replay_outcome \<Rightarrow> string" where
  "replay_outcome_hash sha (Reproduced reason observed artifact) =
     hex (sha (''reproduced'' @ reason_name reason @ observed @ artifact))"
| "replay_outcome_hash sha (Mismatch wanted actual observed artifact) =
     hex (sha (''mismatch'' @ reason_name wanted @ classification_debug actual @ observed @ artifact))"

definition parse_artifact :: "replay_tools \<Rightarrow> string \<Rightarrow> (finding_artifact, replay_error) result" where
  "parse_artifact R text =
     and_then (sum_result Malformed (rp_parse R text)) (\<lambda>artifact.
       if fa_schema_version artifact \<noteq> SCHEMA_VERSION then
         Err (UnsupportedSchema (fa_schema_version artifact) SCHEMA_VERSION)
       else Ok artifact)"

definition verify_wasm :: "replay_tools \<Rightarrow> finding_artifact \<Rightarrow> string \<Rightarrow> (string, replay_error) result" where
  "verify_wasm R artifact wasm =
     (let actual = hex (at_sha (ct_artifact (rp_campaign R)) wasm) in
      if \<not> eq_ignore_ascii_case (ac_wasm_sha256 (fa_campaign artifact)) actual then
        Err (WasmHashMismatch (ac_wasm_sha256 (fa_campaign artifact)) actual)
      else Ok actual)"

definition replay_config :: "string \<Rightarrow> fuzz_config" where
  "replay_config seed = default_fuzz_config \<lparr>cfg_seed := seed, cfg_network_id := cfg_network_id default_fuzz_config\<rparr>"

definition replay_auth ::
  "replay_tools \<Rightarrow> fuzz_tools \<Rightarrow> function_call list \<Rightarrow> auth_mode \<Rightarrow> string \<Rightarrow> (string list list, replay_error) result" where
  "replay_auth R T steps mode case_id =
     (if mode = NoAuth then Ok []
      else try_map (\<lambda>(i, call).
             map_err (\<lambda>e. ReplayExecution (fuzz_error_display e))
               (invoke_auth_entries (rp_campaign R) mode
                 (contract_address (executor_case T (case_id @ ''/step'' @ show_nat i) call [])) call))
           (enumerate 0 steps))"

definition replay_observation ::
  "fuzz_tools \<Rightarrow> environment \<Rightarrow> function_call list \<Rightarrow> string \<Rightarrow> string list list \<Rightarrow>
   (observation, replay_error) result" where
  "replay_observation T env steps case_id auth_per_step =
     map_err (\<lambda>e. ReplayExecution (fuzz_error_display e))
       (if length steps > 1 then
          map_ok sr_final_observation (execute_sequence_auth T [] env steps case_id auth_per_step)
        else
          execute_with_auth T (executor_case T case_id (steps ! 0) []) env
            (case auth_per_step of entries # _ \<Rightarrow> entries | [] \<Rightarrow> []))"

definition replay :: "replay_tools \<Rightarrow> finding_artifact \<Rightarrow> string \<Rightarrow> (replay_outcome, replay_error) result" where
  "replay R artifact wasm =
     (let A = ct_artifact (rp_campaign R); shown = (\<lambda>e. ReplayInvalidArtifact (fuzz_error_display e)) in
     and_then (verify_wasm R artifact wasm) (\<lambda>_.
     if fa_schema_version artifact \<noteq> SCHEMA_VERSION then
       Err (UnsupportedSchema (fa_schema_version artifact) SCHEMA_VERSION)
     else
     and_then (ok_or (ReplayInvalidArtifact (''unknown reason_code `'' @ fa_reason_code artifact @ ''`''))
         (reason_from_name (fa_reason_code artifact))) (\<lambda>expected_reason.
     and_then (map_err shown (artifact_steps A artifact)) (\<lambda>steps.
     if steps = [] then Err (ReplayInvalidArtifact ''artifact contains no sequence steps'')
     else
     let environment = artifact_environment artifact in
     and_then (map_err shown (artifact_seed artifact)) (\<lambda>seed.
     and_then (map_err (\<lambda>e. ReplayExecution (fuzz_error_display e))
         (executor_new (rp_campaign R) wasm (replay_config seed))) (\<lambda>T.
     and_then (ok_or (ReplayInvalidArtifact (''unknown auth_mode `'' @ fa_auth_mode artifact @ ''`''))
         (auth_mode_from_name (fa_auth_mode artifact))) (\<lambda>mode.
     and_then (replay_auth R T steps mode (fa_case_id artifact)) (\<lambda>auth_per_step.
     and_then (replay_observation T environment steps (fa_case_id artifact) auth_per_step) (\<lambda>obs.
     let oracle = oracle_with_auth_mode (artifact_expected A artifact) mode;
         actual = classify oracle obs;
         observed = observation_hash R obs;
         artifact_hash = canonical_hash R artifact
     in Ok (case actual of
          Finding reason \<Rightarrow>
            if reason = expected_reason then Reproduced reason observed artifact_hash
            else Mismatch expected_reason actual observed artifact_hash
        | _ \<Rightarrow> Mismatch expected_reason actual observed artifact_hash))))))))))"

definition replay_json :: "replay_tools \<Rightarrow> string \<Rightarrow> string \<Rightarrow> (replay_outcome, replay_error) result" where
  "replay_json R text wasm = and_then (parse_artifact R text) (\<lambda>artifact. replay R artifact wasm)"

section \<open>Artifacts keep what a replay needs\<close>

text \<open>The codec of values as the XDR crate documents it: what was encoded decodes to the same value.\<close>

definition xdr_codec :: "artifact_tools \<Rightarrow> bool" where
  "xdr_codec A \<longleftrightarrow> (\<forall>v. \<exists>b. at_val_to_xdr A v = Some b \<and> at_val_from_xdr A b = Some v)"

lemma unhex_xdr_hex [simp]: "xdr_codec A \<Longrightarrow> unhex_xdr A (xdr_hex A v) = Some v"
  unfolding xdr_codec_def unhex_xdr_def xdr_hex_def by (metis bind.bind_lunit unhex_hex unwrap_or.simps(2))

lemma try_map_inverse: "(\<And>x. f (g x) = Ok x) \<Longrightarrow> try_map f (map g xs) = Ok xs"
  by (induction xs) simp_all

lemma filter_map_inverse: "(\<And>x. f (g x) = Some x) \<Longrightarrow> filter_map f (map g xs) = xs"
  by (induction xs) (simp_all add: filter_map_def option_list_def)

lemma bt_insert_last: "(\<forall>k' \<in> fst ` set m. k' < k) \<Longrightarrow> bt_insert k v m = m @ [(k, v)]"
  by (induction k v m rule: bt_insert.induct) auto

lemma bt_collect_sorted: "bt_wf m \<Longrightarrow> bt_collect m = m"
proof (induction m rule: rev_induct)
  case (snoc kv m)
  then have "bt_wf m" "\<forall>k' \<in> fst ` set m. k' < fst kv"
    by (auto simp: bt_wf_def sorted_wrt_append)
  then show ?case using snoc.IH bt_insert_last [of m "fst kv" "snd kv"] by (simp add: bt_collect_def)
qed (simp add: bt_collect_def)

text \<open>An expectation a JSON file can hold: sorted declared state and 32-byte contract ids.\<close>

definition expected_wf :: "expected \<Rightarrow> bool" where
  "expected_wf e \<longleftrightarrow> (\<forall>m. ex_state e = Some m \<longrightarrow> bt_wf m) \<and>
     (\<forall>evs. ex_events e = Some evs \<longrightarrow> (\<forall>ev \<in> set evs. \<forall>c. er_contract_id ev = Some c \<longrightarrow> length c = 32))"

lemma restore_snapshot_event:
  assumes "xdr_codec A" "\<forall>c. er_contract_id ev = Some c \<longrightarrow> length c = 32"
  shows "restore_event A (snapshot_event A ev) = ev"
  using assms by (cases ev; cases "er_contract_id ev")
    (simp_all add: restore_event_def snapshot_event_def filter_map_inverse unhex_32_def)

lemma to_expected_snapshot:
  assumes codec: "xdr_codec A" and wf: "expected_wf e"
  shows "to_expected A (snapshot_expected A e) = e"
proof -
  have state: "map_option (\<lambda>entries. bt_collect (filter_map restore_state_expectation entries))
      (map_option (map (\<lambda>(k, v). \<lparr>sx_key_xdr = hex k, sx_value_xdr = hex v\<rparr>)) (ex_state e)) = ex_state e"
    using wf by (cases "ex_state e") (simp_all add: expected_wf_def filter_map_inverse restore_state_expectation_def
        split_beta bt_collect_sorted)
  have events: "map_option (map (restore_event A)) (map_option (map (snapshot_event A)) (ex_events e)) = ex_events e"
    using wf by (cases "ex_events e") (simp_all add: expected_wf_def restore_snapshot_event [OF codec] map_idI)
  have behavior: "(case (case ex_behavior e of ExpectSuccess want \<Rightarrow> SnapSuccess (map_option (xdr_hex A) want)
        | ExpectError error_type code \<Rightarrow> SnapError error_type code | ExpectAny \<Rightarrow> SnapAny) of
      SnapSuccess want \<Rightarrow> ExpectSuccess (Option.bind want (unhex_xdr A))
    | SnapError error_type code \<Rightarrow> ExpectError error_type code | SnapAny \<Rightarrow> ExpectAny) = ex_behavior e"
    using codec by (cases "ex_behavior e") (auto simp: Option.bind_map_option comp_def)
  show ?thesis
    by (rule expected.equality) (simp_all add: to_expected_def snapshot_expected_def state events behavior)
qed

definition network_faithful :: "environment \<Rightarrow> bool" where
  "network_faithful env \<longleftrightarrow> (\<exists>p c. env_budget env = NetworkFaithful p c)"

lemma environment_snapshot_inverse:
  "\<not> network_faithful env \<Longrightarrow> environment_from_snapshot (snapshot_environment A env) = env"
  by (cases env; cases "env_budget env")
    (auto simp: network_faithful_def environment_from_snapshot_def snapshot_environment_def budget_plan_from_snapshot_def)

lemma artifact_steps_from_finding:
  "xdr_codec A \<Longrightarrow> artifact_steps A (from_finding A f cfg steps wasm) = Ok steps"
  unfolding artifact_steps_def from_finding_def
  by (simp add: try_map_inverse restore_step_def)

section \<open>Replaying a campaign's finding\<close>

lemma run_steps_nonempty: "run_steps T baseline env steps case_id = Ok obs \<Longrightarrow> steps \<noteq> []"
  by (auto simp: run_steps_def)

lemma minimized_steps_nonempty:
  "minimize_with_oracle T dbg target oracle original success = Ok out \<Longrightarrow> mo_steps out \<noteq> []"
  by (auto simp: minimize_with_oracle_def Let_def preserves_def dest!: run_steps_nonempty)

lemma replay_auth_same:
  "auth_for_steps (rp_campaign R) T steps mode case_id = Ok auth \<Longrightarrow> replay_auth R T steps mode case_id = Ok auth"
  by (auto simp: auth_for_steps_def replay_auth_def try_map_Ok_iff split_beta split: if_splits)

lemma replay_observation_same:
  "execute_case T env (length steps > 1) steps case_id auth = Ok obs \<Longrightarrow>
     replay_observation T env steps case_id auth = Ok obs"
  by (auto simp: execute_case_def replay_observation_def execute_with_def Let_def split: if_splits list.splits)

lemma replay_config_default: "replay_config seed = default_fuzz_config \<lparr>cfg_seed := seed\<rparr>"
  by (simp add: replay_config_def)

definition finding_oracle :: "finding \<Rightarrow> auth_mode \<Rightarrow> fuzz_oracle" where
  "finding_oracle f mode = oracle_with_auth_mode (fd_expected f) mode"

text \<open>The verdict on what the campaign recorded.\<close>

definition recorded_verdict :: "replay_tools \<Rightarrow> auth_mode \<Rightarrow> finding \<Rightarrow> finding_artifact \<Rightarrow> replay_outcome" where
  "recorded_verdict R mode f artifact =
     (let actual = classify (finding_oracle f mode) (fd_observation f);
          observed = observation_hash R (fd_observation f); artifact_hash = canonical_hash R artifact in
      if mz_preserved (fd_minimization f) then Reproduced (fd_reason_code f) observed artifact_hash
      else Mismatch (fd_reason_code f) actual observed artifact_hash)"

lemma or_expected_oracle: "or_expected (oracle_with_auth_mode ex mode) = ex"
  by (simp add: oracle_with_auth_mode_def)

lemma finding_replays:
  assumes codec: "xdr_codec (ct_artifact (rp_campaign R))"
    and seed: "length (cp_seed input) = 32" and env: "\<not> network_faithful (cp_environment input)"
    and wf: "expected_wf ex"
    and T: "executor_new (rp_campaign R) (cp_wasm input) (default_fuzz_config \<lparr>cfg_seed := cp_seed input\<rparr>) = Ok T"
    and run: "campaign_finding (rp_campaign R) T input (oracle_with_auth_mode ex (cp_auth_mode input)) function case_id
       mutation steps obs reason = Ok (f, artifact)"
  shows "replay R artifact (cp_wasm input) = Ok (recorded_verdict R (cp_auth_mode input) f artifact)"
proof -
  let ?A = "ct_artifact (rp_campaign R)"
  let ?orc = "oracle_with_auth_mode ex (cp_auth_mode input)"
  from run obtain out auth obs' where out: "mo_steps out \<noteq> []"
    and auth: "auth_for_steps (rp_campaign R) T (mo_steps out) (cp_auth_mode input) case_id = Ok auth"
    and obs': "execute_case T (cp_environment input) (length (mo_steps out) > 1) (mo_steps out) case_id auth = Ok obs'"
    and f': "f = minimized_finding T input ?orc function case_id mutation reason out obs'"
    and artifact: "artifact = from_finding ?A f (artifact_config (rp_campaign R) input) (mo_steps out) (cp_wasm input)"
    by (auto simp: campaign_finding_def Let_def dest: minimized_steps_nonempty)
  have f: "fd_reason_code f = reason" "fd_observation f = obs'" "fd_expected f = ex"
      "ci_case_id (fd_identity f) = case_id" "ci_auth_mode (fd_identity f) = auth_mode_name (cp_auth_mode input)"
      "mz_preserved (fd_minimization f) = (classify ?orc obs' = Finding reason)"
    by (simp_all add: f' minimized_finding_def or_expected_oracle)
  let ?actual = "classify (oracle_with_auth_mode ex (cp_auth_mode input)) obs'"
  have steps': "artifact_steps ?A artifact = Ok (mo_steps out)"
    unfolding artifact using codec by (rule artifact_steps_from_finding)
  have fields: "fa_schema_version artifact = SCHEMA_VERSION" "fa_case_id artifact = case_id"
    "fa_reason_code artifact = reason_name reason" "fa_auth_mode artifact = auth_mode_name (cp_auth_mode input)"
    "artifact_expected ?A artifact = ex"
    "artifact_environment artifact = cp_environment input" "artifact_seed artifact = Ok (cp_seed input)"
    "verify_wasm R artifact (cp_wasm input) = Ok (hex (at_sha ?A (cp_wasm input)))"
    unfolding artifact using codec wf seed env
    by (simp_all add: from_finding_def f artifact_expected_def to_expected_snapshot
        artifact_environment_def artifact_config_def environment_snapshot_inverse artifact_seed_def
        verify_wasm_def eq_ignore_ascii_case_def)
  show ?thesis
    unfolding replay_def Let_def
    using out T replay_auth_same [OF auth] replay_observation_same [OF obs']
    by (simp add: fields steps' replay_config_default recorded_verdict_def finding_oracle_def f split: classification.splits)
qed

section \<open>Campaigns\<close>

text \<open>What a case adds to the results: its id is recorded once, and a finding comes with its artifact.\<close>

definition recorded_ids :: "campaign_result \<Rightarrow> string list" where
  "recorded_ids r = cr_passed r @ cr_expected_errors r @ map (\<lambda>f. ci_case_id (fd_identity f)) (cr_findings r)"

lemma campaign_step_Ok:
  assumes "campaign_step C T input expectations functions (res, artifacts) n = Ok (res', artifacts')"
  shows "cr_executed res' = Suc (cr_executed res) \<and> cr_skipped_functions res' = cr_skipped_functions res \<and>
    mset (recorded_ids res') = add_mset (campaign_case_id n) (mset (recorded_ids res)) \<and>
    (cr_findings res' = cr_findings res \<and> artifacts' = artifacts \<or>
     (\<exists>f a mutation steps obs reason. cr_findings res' = cr_findings res @ [f] \<and> artifacts' = artifacts @ [a] \<and>
        campaign_finding C T input
          (oracle_with_auth_mode (unwrap_or default_expected (bt_get expectations (functions ! (n mod length functions))))
            (cp_auth_mode input)) (functions ! (n mod length functions)) (campaign_case_id n) mutation steps obs reason
          = Ok (f, a)))"
proof -
  have id: "ci_case_id (fd_identity f) = case_id"
    if "campaign_finding C T input orc fn case_id mutation steps obs reason = Ok (f, a)"
    for orc fn case_id mutation steps obs reason f a
    using that by (auto simp: campaign_finding_def Let_def minimized_finding_def)
  let ?fn = "functions ! (n mod length functions)"
  let ?orc = "oracle_with_auth_mode (unwrap_or default_expected (bt_get expectations ?fn)) (cp_auth_mode input)"
  from assms obtain steps mutation obs where
    rec: "record_observation C T input ?orc ?fn (campaign_case_id n) mutation steps obs
      (res \<lparr>cr_executed := Suc (cr_executed res)\<rparr>) artifacts = Ok (res', artifacts')"
    by (auto simp: campaign_step_def Let_def)
  show ?thesis
  proof (cases "classify ?orc obs")
    case (Finding reason)
    with rec obtain f a where
      run: "campaign_finding C T input ?orc ?fn (campaign_case_id n) mutation steps obs reason = Ok (f, a)"
      and res': "res' = res \<lparr>cr_executed := Suc (cr_executed res), cr_findings := cr_findings res @ [f]\<rparr>"
        "artifacts' = artifacts @ [a]"
      by (auto simp: record_observation_def)
    show ?thesis using id [OF run] run by (auto simp: res' recorded_ids_def)
  qed (use rec in \<open>auto simp: record_observation_def recorded_ids_def\<close>)
qed

lemma campaign_run_fold:
  assumes run: "run_campaign_inner C input expectations = Ok (res, artifacts)"
    and some: "fst (campaign_selectable input) \<noteq> []"
  obtains T where
    "executor_new C (cp_wasm input) (default_fuzz_config \<lparr>cfg_seed := cp_seed input\<rparr>) = Ok T"
    "try_fold (campaign_step C T input expectations (fst (campaign_selectable input)))
       (empty_campaign_result (snd (campaign_selectable input)), []) [0..<cp_cases input] = Ok (res, artifacts)"
  using assms by (auto simp: run_campaign_inner_def default_config_def Let_def case_prod_beta)


lemma campaign_case_id_inject: "campaign_case_id m = campaign_case_id n \<Longrightarrow> m = n"
proof -
  have "digits_value (pad4 k) = k" for k by (simp add: pad4_def)
  then show "campaign_case_id m = campaign_case_id n \<Longrightarrow> m = n"
    by (metis append_same_eq campaign_case_id_def same_append_eq)
qed

text \<open>
  C24. A campaign accounts for every case: when a campaign with a selectable function comes to an end,
  each of its cases has been executed, the id of each is recorded exactly once, as passed, as an
  expected error or as a finding, and there is one artifact for each finding.
\<close>

theorem campaign_accounts_every_case:
  assumes run: "run_campaign_inner C input expectations = Ok (res, artifacts)"
    and some: "fst (campaign_selectable input) \<noteq> []"
  shows "cr_executed res = cp_cases input \<and>
    mset (cr_passed res @ cr_expected_errors res @ map (\<lambda>f. ci_case_id (fd_identity f)) (cr_findings res)) =
      mset (map campaign_case_id [0..<cp_cases input]) \<and>
    distinct (cr_passed res @ cr_expected_errors res @ map (\<lambda>f. ci_case_id (fd_identity f)) (cr_findings res)) \<and>
    length artifacts = length (cr_findings res)"
proof -
  from campaign_run_fold [OF assms] obtain T where fold:
    "try_fold (campaign_step C T input expectations (fst (campaign_selectable input)))
       (empty_campaign_result (snd (campaign_selectable input)), []) [0..<cp_cases input] = Ok (res, artifacts)" .
  let ?I = "\<lambda>prior (r, as). cr_executed r = length prior \<and> mset (recorded_ids r) = mset (map campaign_case_id prior) \<and>
    length as = length (cr_findings r)"
  have "?I [0..<cp_cases input] (res, artifacts)"
  proof (rule try_fold_invariant [OF fold])
    fix prior x s s'
    assume inv: "?I prior s"
      and step: "campaign_step C T input expectations (fst (campaign_selectable input)) s x = Ok s'"
    obtain r as r' as' where [simp]: "s = (r, as)" "s' = (r', as')" by (cases s; cases s')
    from step have "campaign_step C T input expectations (fst (campaign_selectable input)) (r, as) x = Ok (r', as')" by simp
    from campaign_step_Ok [OF this] show "?I (prior @ [x]) s'" using inv by auto
  qed (simp add: empty_campaign_result_def recorded_ids_def)
  then have inv: "cr_executed res = cp_cases input" "length artifacts = length (cr_findings res)"
    and ids: "mset (recorded_ids res) = mset (map campaign_case_id [0..<cp_cases input])" by auto
  have "distinct (recorded_ids res)"
    unfolding mset_eq_imp_distinct_iff [OF ids] by (auto simp: distinct_map inj_on_def dest: campaign_case_id_inject)
  then show ?thesis using inv ids unfolding recorded_ids_def by blast
qed

lemma artifacts_replay:
  assumes codec: "xdr_codec (ct_artifact (rp_campaign R))"
    and seed: "length (cp_seed input) = 32" and env: "\<not> network_faithful (cp_environment input)"
    and wf: "\<forall>e \<in> snd ` set expectations. expected_wf e"
    and run: "run_campaign_inner (rp_campaign R) input expectations = Ok (res, artifacts)"
  shows "list_all2 (\<lambda>f a. replay R a (cp_wasm input) = Ok (recorded_verdict R (cp_auth_mode input) f a))
    (cr_findings res) artifacts"
proof (cases "fst (campaign_selectable input) = []")
  case True
  then have "cr_findings res = []" "artifacts = []"
    using run by (auto simp: run_campaign_inner_def Let_def case_prod_beta empty_campaign_result_def)
  then show ?thesis by simp
next
  case False
  let ?P = "\<lambda>f a. replay R a (cp_wasm input) = Ok (recorded_verdict R (cp_auth_mode input) f a)"
  from campaign_run_fold [OF run False] obtain T where
    T: "executor_new (rp_campaign R) (cp_wasm input) (default_fuzz_config \<lparr>cfg_seed := cp_seed input\<rparr>) = Ok T"
    and fold: "try_fold (campaign_step (rp_campaign R) T input expectations (fst (campaign_selectable input)))
       (empty_campaign_result (snd (campaign_selectable input)), []) [0..<cp_cases input] = Ok (res, artifacts)" .
  have ex: "expected_wf (unwrap_or default_expected (bt_get expectations k))" for k
    using wf by (cases "bt_get expectations k")
      (force simp: expected_wf_def default_expected_def bt_get_def dest: map_of_SomeD)+
  let ?I = "\<lambda>prior :: nat list. \<lambda>(r, as). list_all2 ?P (cr_findings r) as"
  have "?I [0..<cp_cases input] (res, artifacts)"
  proof (rule try_fold_invariant [OF fold])
    fix prior x s s'
    assume inv: "?I prior s"
      and step: "campaign_step (rp_campaign R) T input expectations (fst (campaign_selectable input)) s x = Ok s'"
    obtain r as r' as' where [simp]: "s = (r, as)" "s' = (r', as')" by (cases s; cases s')
    from step have st: "campaign_step (rp_campaign R) T input expectations (fst (campaign_selectable input)) (r, as) x = Ok (r', as')"
      by simp
    from campaign_step_Ok [OF st] consider "cr_findings r' = cr_findings r" "as' = as"
      | f a fn mutation steps obs reason where "cr_findings r' = cr_findings r @ [f]" "as' = as @ [a]"
        "campaign_finding (rp_campaign R) T input
          (oracle_with_auth_mode (unwrap_or default_expected (bt_get expectations fn)) (cp_auth_mode input))
          fn (campaign_case_id x) mutation steps obs reason = Ok (f, a)"
      by blast
    then show "?I (prior @ [x]) s'"
    proof cases
      case 2
      from finding_replays [OF codec seed env ex T 2(3)] show ?thesis
        using inv 2 by (simp add: list_all2_appendI)
    qed (use inv in simp)
  qed (simp add: empty_campaign_result_def)
  then show ?thesis by simp
qed



section \<open>A campaign with correct authorization\<close>

text \<open>
  The contract refuses a call without authorization; with it, the call fails on \<^verbatim>\<open>true\<close> only. Its one
  generated case calls it with \<^verbatim>\<open>true\<close>.
\<close>

definition guarded_fails :: "string list \<Rightarrow> function_call \<Rightarrow> bool" where
  "guarded_fails auth call \<longleftrightarrow> auth = [] \<or> fc_args call = [VBool True]"

definition guarded_tools :: fuzz_tools where
  "guarded_tools = demo_tools
     \<lparr>ft_invoke := \<lambda>budget info live inst data call auth. Ok
        \<lparr>hr_invoke_result = (if guarded_fails auth call
           then Inl \<lparr>he_type = Some (if auth = [] then EtAuth else EtContract), he_code = 1\<rparr> else Inr []),
         hr_ledger_changes = [], hr_events = [],
         hr_budget = \<lparr>bu_consumed_cpu = 0, bu_consumed_mem = 0, bu_remaining_cpu = 0, bu_remaining_mem = 0\<rparr>\<rparr>\<rparr>"

definition demo_replay_tools :: replay_tools where
  "demo_replay_tools =
     \<lparr>rp_campaign = \<lparr>ct_artifact = \<lparr>at_sha = const_sha, at_val_to_xdr = (\<lambda>v. Some (encode_demo v)),
          at_val_from_xdr = (\<lambda>s. Some (from_nat (digits_value s)))\<rparr>,
        ct_auth_to_xdr = (\<lambda>_. Inr ''entry''), ct_length_error = [], ct_module_cache = Inr (),
        ct_parse_module = (\<lambda>_. Inr ()), ct_tools = (\<lambda>_ _. guarded_tools), ct_debug_length = (\<lambda>_. 0)\<rparr>,
      rp_artifact_value = (\<lambda>_. JNull), rp_observation_value = (\<lambda>_. JNull), rp_json_bytes = (\<lambda>_. []),
      rp_parse = (\<lambda>_. Inl [])\<rparr>"

definition guarded_campaign :: campaign_input where
  "guarded_campaign =
     \<lparr>cp_wasm = ''wasm'', cp_spec = demo_spec [primitive ''bool''], cp_seed = replicate 32 (CHR ''s''), cp_cases = 1,
      cp_function = None, cp_sequence_length = 2, cp_sequence_every = 0, cp_generation = default_generation_caps,
      cp_mutations_per_case = 0, cp_environment = default_environment, cp_auth_mode = CorrectAuth\<rparr>"

definition success_expectations :: "(string, expected) btree_map" where
  "success_expectations = [(''f'', or_expected success_oracle)]"

definition guarded_call :: "bool \<Rightarrow> function_call" where
  "guarded_call b = \<lparr>fc_function = ''f'', fc_args = [VBool b]\<rparr>"

lemma guarded_run:
  assumes "length (fc_function call) \<le> 32"
  shows "\<exists>obs. execute_with_auth guarded_tools (executor_case guarded_tools cid call []) default_environment auth = Ok obs \<and>
     obs_status obs = (if guarded_fails auth call then ContractError (if auth = [] then ''Auth'' else ''Contract'') 1
       else ReturnedVoid)"
  using assms
  by (simp add: execute_with_auth_def executor_case_def case_instance_def guarded_tools_def
      make_budget_def invoke_contract_def ledger_info_of_def demo_tools_def result_status_def error_type_and_code_def
      decode_events_def state_entries_from_footprint_def default_environment_def)

abbreviation guarded_oracle :: fuzz_oracle where
  "guarded_oracle \<equiv> oracle_with_auth_mode (or_expected success_oracle) CorrectAuth"

lemma guarded_classify:
  "obs_status obs = ContractError t c \<Longrightarrow> classify guarded_oracle obs = Finding UnexpectedError \<and> \<not> is_success obs"
  "obs_status obs = ReturnedVoid \<Longrightarrow> classify guarded_oracle obs = Pass \<and> is_success obs"
  by (simp_all add: classify_def classify_outcome_def oracle_with_auth_mode_def success_oracle_def is_success_def)

lemma guarded_preserves:
  "length (fc_function call) \<le> 32 \<Longrightarrow>
     preserves guarded_tools guarded_oracle [] (Finding UnexpectedError) False cid [call] default_environment = Ok True"
  using guarded_run [of call cid "[]"] guarded_classify(1)
  by (auto simp: preserves_def run_steps_def execute_with_def guarded_fails_def)

lemma guarded_minimized:
  "\<exists>out. minimize_with_oracle guarded_tools dbg
       \<lparr>mt_steps = [guarded_call True], mt_baseline = [], mt_environment = default_environment\<rparr>
       guarded_oracle (Finding UnexpectedError) False = Ok out \<and> mo_steps out = [guarded_call False]"
proof -
  let ?P = "\<lambda>cid. preserves guarded_tools guarded_oracle [] (Finding UnexpectedError) False cid"
  note pass = minimize_pass_def reduce_step_args_def reduce_arg_def set_arg_def reduce_environment_def Let_def
    accept_steps_def guarded_preserves guarded_call_def
  have pass1: "\<exists>c rs. minimize_pass dbg (?P cid) \<lparr>ms_steps = [guarded_call True], ms_env = default_environment,
      ms_complexity = n, ms_reductions = rds\<rparr> =
      Ok (\<lparr>ms_steps = [guarded_call False], ms_env = default_environment, ms_complexity = c, ms_reductions = rs\<rparr>, True)"
    for cid n rds
    by (simp add: pass)
  have pass2: "minimize_pass dbg (?P cid) \<lparr>ms_steps = [guarded_call False], ms_env = default_environment,
      ms_complexity = n, ms_reductions = rds\<rparr> =
      Ok (\<lparr>ms_steps = [guarded_call False], ms_env = default_environment, ms_complexity = n, ms_reductions = rds\<rparr>, False)"
    for cid n rds
    by (simp add: pass)
  have "\<exists>c rs. minimize_loop dbg (?P cid) \<lparr>ms_steps = [guarded_call True], ms_env = default_environment,
      ms_complexity = n, ms_reductions = rds\<rparr> =
      Ok \<lparr>ms_steps = [guarded_call False], ms_env = default_environment, ms_complexity = c, ms_reductions = rs\<rparr>"
    for cid n rds
  proof -
    from pass1 [of cid n rds] obtain c1 rs1 where p1: "minimize_pass dbg (?P cid) \<lparr>ms_steps = [guarded_call True],
        ms_env = default_environment, ms_complexity = n, ms_reductions = rds\<rparr> =
        Ok (\<lparr>ms_steps = [guarded_call False], ms_env = default_environment, ms_complexity = c1, ms_reductions = rs1\<rparr>, True)"
      by blast
    show ?thesis
      by (subst minimize_loop.simps, simp only: p1 result.case prod.case if_True,
          subst minimize_loop.simps, simp add: pass2)
  qed
  moreover have "?P ''minimize-final'' [guarded_call False] default_environment = Ok True"
    by (simp add: guarded_preserves guarded_call_def)
  ultimately show ?thesis
    unfolding minimize_with_oracle_def Let_def by simp (metis (no_types, lifting) and_then.simps(1) min_state.select_convs(1,2) minimization_outcome.select_convs(2))
qed


lemma guarded_executor:
  "executor_new (rp_campaign demo_replay_tools) ''wasm'' (default_fuzz_config \<lparr>cfg_seed := seed\<rparr>) = Ok guarded_tools"
  by (simp add: executor_new_def demo_replay_tools_def config_validate_def default_fuzz_config_def
      default_ledger_config_def BASELINE_TTL_WINDOW_def)

lemma guarded_generated:
  "generate_steps (rp_campaign demo_replay_tools) guarded_tools guarded_campaign 0 ''f'' cid = Ok [guarded_call True]"
proof -
  have "generate_value const_sha le default_generation_caps (primitive ''bool'') k 0 = Ok (VBool True)" for le k
    by (simp add: generate_value.simps default_generation_caps_def primitive_def keyed_const_sha
        generate_primitive_def below_def next_const)
  moreover have "type_supported (primitive ''bool'')"
    by (simp add: type_supported.simps primitive_def supported_primitives_def)
  ultimately show ?thesis
    by (simp add: generate_steps_def campaign_call_def generate_call_def find_function_def demo_spec_def
        demo_function_def demo_parameter_def generate_arg_def guarded_campaign_def demo_replay_tools_def
        is_sequence_case_def guarded_call_def Let_def)
qed

lemma guarded_selectable: "campaign_selectable guarded_campaign = ([''f''], [])"
proof -
  have "type_supported (primitive ''bool'')"
    by (simp add: type_supported.simps primitive_def supported_primitives_def)
  then show ?thesis
    by (simp add: campaign_selectable_def finding_selectable_def selectable_functions_def select_function_def
        guarded_campaign_def demo_spec_def demo_function_def demo_parameter_def)
qed

lemma guarded_auth:
  "length (fc_function call) \<le> 32 \<Longrightarrow> length (fc_args call) = 1 \<Longrightarrow>
     auth_for_steps (rp_campaign demo_replay_tools) guarded_tools [call] CorrectAuth cid = Ok [[''entry'']]"
  by (simp add: auth_for_steps_def invoke_auth_entries_def invoke_root_invocation_def xdr_vec_def encode_auth_def
      demo_replay_tools_def)

lemma guarded_campaign_run:
  "\<exists>res artifact f. run_campaign_inner (rp_campaign demo_replay_tools) guarded_campaign success_expectations = Ok (res, [artifact]) \<and>
     cr_findings res = [f] \<and> fd_reason_code f = UnexpectedError \<and> \<not> mz_preserved (fd_minimization f) \<and>
     classify (finding_oracle f CorrectAuth) (fd_observation f) = Pass"
proof -
  let ?C = "rp_campaign demo_replay_tools"
  have call: "length (fc_function (guarded_call b)) \<le> 32" "length (fc_args (guarded_call b)) = 1" for b
    by (simp_all add: guarded_call_def)
  from guarded_run [OF call(1) [of True], of "campaign_case_id 0" "[''entry'']"] obtain obs where
    obs: "execute_case guarded_tools default_environment False [guarded_call True] (campaign_case_id 0) [[''entry'']] = Ok obs"
      "obs_status obs = ContractError ''Contract'' 1"
    by (auto simp: execute_case_def guarded_fails_def guarded_call_def)
  from guarded_run [OF call(1) [of False], of "campaign_case_id 0" "[''entry'']"] obtain obs' where
    obs': "execute_case guarded_tools default_environment False [guarded_call False] (campaign_case_id 0) [[''entry'']] = Ok obs'"
      "obs_status obs' = ReturnedVoid"
    by (auto simp: execute_case_def guarded_fails_def guarded_call_def)
  from guarded_minimized [of "\<lambda>_. 0"] obtain out where
    out: "minimize_with_oracle guarded_tools (\<lambda>_. 0)
       \<lparr>mt_steps = [guarded_call True], mt_baseline = [], mt_environment = default_environment\<rparr>
       guarded_oracle (Finding UnexpectedError) False = Ok out" "mo_steps out = [guarded_call False]" by blast
  let ?f = "minimized_finding guarded_tools guarded_campaign guarded_oracle ''f'' (campaign_case_id 0) None UnexpectedError out obs'"
  let ?a = "from_finding (ct_artifact ?C) ?f (artifact_config ?C guarded_campaign) [guarded_call False] ''wasm''"
  have fields: "cp_environment guarded_campaign = default_environment" "cp_auth_mode guarded_campaign = CorrectAuth"
    "cp_wasm guarded_campaign = ''wasm''" "cp_cases guarded_campaign = 1" "ct_debug_length ?C = (\<lambda>_. 0)"
    "cp_mutations_per_case guarded_campaign = 0"
    by (simp_all add: guarded_campaign_def demo_replay_tools_def)
  have finding: "campaign_finding ?C guarded_tools guarded_campaign guarded_oracle ''f'' (campaign_case_id 0) None
      [guarded_call True] obs UnexpectedError = Ok (?f, ?a)"
    using out obs' guarded_auth [OF call] guarded_classify(1) [OF obs(2)]
    by (simp add: campaign_finding_def fields Let_def)
  have orc: "oracle_with_auth_mode (unwrap_or default_expected (bt_get success_expectations ''f'')) CorrectAuth = guarded_oracle"
    by (simp add: success_expectations_def bt_get_def)
  let ?res = "(empty_campaign_result []) \<lparr>cr_executed := 1, cr_findings := [?f]\<rparr>"
  have "campaign_step ?C guarded_tools guarded_campaign success_expectations [''f''] (empty_campaign_result [], []) 0 =
      Ok (?res, [?a])"
    using guarded_generated obs guarded_auth [OF call] finding guarded_classify(1) [OF obs(2)]
    by (simp add: campaign_step_def fields orc mutate_steps_def is_sequence_case_def record_observation_def
        guarded_campaign_def [THEN arg_cong [where f = cp_sequence_every]] empty_campaign_result_def Let_def)
  moreover have "default_config guarded_campaign = Ok (default_fuzz_config \<lparr>cfg_seed := cp_seed guarded_campaign\<rparr>)"
    by (simp add: default_config_def environment_validate_def config_validate_def default_fuzz_config_def
        default_ledger_config_def BASELINE_TTL_WINDOW_def guarded_campaign_def default_environment_def Let_def)
  ultimately have "run_campaign_inner ?C guarded_campaign success_expectations = Ok (?res, [?a])"
    by (simp add: run_campaign_inner_def guarded_executor guarded_selectable fields)
  moreover have "cr_findings ?res = [?f]" "fd_reason_code ?f = UnexpectedError"
    "\<not> mz_preserved (fd_minimization ?f)" "classify (finding_oracle ?f CorrectAuth) (fd_observation ?f) = Pass"
    using guarded_classify(2) [OF obs'(2)] by (simp_all add: minimized_finding_def finding_oracle_def or_expected_oracle)
  ultimately show ?thesis by blast
qed


lemma demo_codec: "xdr_codec (ct_artifact (rp_campaign demo_replay_tools))"
  by (simp add: xdr_codec_def demo_replay_tools_def encode_demo_def)

lemma guarded_facts:
  "length (cp_seed guarded_campaign) = 32" "\<not> network_faithful (cp_environment guarded_campaign)"
  "\<forall>e \<in> snd ` set success_expectations. expected_wf e" "fst (campaign_selectable guarded_campaign) \<noteq> []"
  by (simp_all add: guarded_selectable) (simp_all add: guarded_campaign_def network_faithful_def default_environment_def
      success_expectations_def success_oracle_def expected_wf_def)

lemma guarded_replay:
  "\<exists>res f artifact observed artifact_hash.
     run_campaign_inner (rp_campaign demo_replay_tools) guarded_campaign success_expectations = Ok (res, [artifact]) \<and>
     cr_findings res = [f] \<and> fd_reason_code f = UnexpectedError \<and>
     replay demo_replay_tools artifact (cp_wasm guarded_campaign) = Ok (Mismatch UnexpectedError Pass observed artifact_hash)"
proof -
  from guarded_campaign_run obtain res artifact f where
    run: "run_campaign_inner (rp_campaign demo_replay_tools) guarded_campaign success_expectations = Ok (res, [artifact])"
    and f: "cr_findings res = [f]" "fd_reason_code f = UnexpectedError" "\<not> mz_preserved (fd_minimization f)"
      "classify (finding_oracle f CorrectAuth) (fd_observation f) = Pass" by blast
  have "cp_auth_mode guarded_campaign = CorrectAuth" by (simp add: guarded_campaign_def)
  then have "replay demo_replay_tools artifact (cp_wasm guarded_campaign) = Ok (recorded_verdict demo_replay_tools CorrectAuth f artifact)"
    using artifacts_replay [OF demo_codec guarded_facts(1-3) run] f(1) by simp
  then show ?thesis using run f by (auto simp: recorded_verdict_def Let_def)
qed


definition deep_campaign :: campaign_input where
  "deep_campaign = guarded_campaign \<lparr>cp_spec := demo_spec [nested_vec]\<rparr>"

text \<open>
  A deep type aborts the campaign: a function whose parameter nests more compound types than the
  depth cap counts as supported and is selected, but a value of the type can be refused while a case
  is generated, and the refusal ends the whole campaign with a configuration error instead of
  skipping the function.
\<close>

theorem deep_type_aborts_campaign:
  "\<exists>C input expectations e.
     campaign_selectable input = ([''f''], []) \<and> cp_generation input = default_generation_caps \<and>
     run_campaign C input expectations = Err (InvalidConfig e)"
proof -
  let ?C = "rp_campaign demo_replay_tools"
  have sup: "type_supported nested_vec"
    by (simp add: nested_vec_def compound_def primitive_def type_supported.simps supported_primitives_def)
  have sel: "campaign_selectable deep_campaign = ([''f''], [])"
    by (simp add: campaign_selectable_def finding_selectable_def selectable_functions_def select_function_def
        deep_campaign_def guarded_campaign_def demo_spec_def demo_function_def demo_parameter_def sup)
  have caps: "cp_generation deep_campaign = default_generation_caps"
    by (simp add: deep_campaign_def guarded_campaign_def)
  have spec: "cp_spec deep_campaign = demo_spec [nested_vec]" by (simp add: deep_campaign_def)
  have sha: "at_sha (ct_artifact ?C) = const_sha" by (simp add: demo_replay_tools_def)
  have refused: "\<exists>e. generate_steps ?C guarded_tools deep_campaign 0 ''f'' cid = Err (InvalidConfig e)" for cid
    using nested_call_refused
    by (simp add: generate_steps_def campaign_call_def sha spec caps)
  have fields: "cp_cases deep_campaign = 1" "cp_wasm deep_campaign = ''wasm''"
    by (simp_all add: deep_campaign_def guarded_campaign_def)
  have "default_config deep_campaign = Ok (default_fuzz_config \<lparr>cfg_seed := cp_seed deep_campaign\<rparr>)"
    by (simp add: default_config_def environment_validate_def config_validate_def default_fuzz_config_def
        default_ledger_config_def BASELINE_TTL_WINDOW_def deep_campaign_def guarded_campaign_def default_environment_def Let_def)
  then have "\<exists>e. run_campaign ?C deep_campaign [] = Err (InvalidConfig e)"
    using refused [of "campaign_case_id 0"]
    by (auto simp: run_campaign_def run_campaign_inner_def guarded_executor sel fields campaign_step_def
        empty_campaign_result_def)
  with sel caps show ?thesis by blast
qed

section \<open>Witnesses\<close>

theorem campaign_accounts_every_case_witness:
  "\<exists>res artifacts. run_campaign_inner (rp_campaign demo_replay_tools) guarded_campaign success_expectations = Ok (res, artifacts) \<and>
     cr_executed res = 1 \<and> length artifacts = length (cr_findings res)"
proof -
  from guarded_campaign_run obtain res artifact where
    run: "run_campaign_inner (rp_campaign demo_replay_tools) guarded_campaign success_expectations = Ok (res, [artifact])" by blast
  have "cp_cases guarded_campaign = 1" by (simp add: guarded_campaign_def)
  then show ?thesis using run campaign_accounts_every_case [OF run guarded_facts(4)] by auto
qed


end
