(* ===== verification/State_Compare.thy ===== *)
theory State_Compare
  imports State_Capture
begin

text \<open>
  The comparison of the state a local execution left with the state changes an RPC simulation reported,
  \<^verbatim>\<open>sdkt-fuzz/src/state_compare.rs\<close>. Both sides are indexed by the encoded ledger key, the keys the
  executor owns are left out, and each key gets a verdict. The codecs of keys and entries are the
  parameters of the fuzz engine, base64 and the encoding of an entry are arguments.
\<close>

section \<open>Sides and verdicts\<close>

datatype side = Present string | Removed | Absent

datatype cannot_verify_reason =
    KeyOnOneSideOnly bool bool
  | ExecutorOwnedKey
  | NoComparableValue

datatype key_verdict =
    KeyMatch
  | KeyMatchRemoved
  | KeyMismatch side side
  | KeyCannotVerify cannot_verify_reason

datatype compare_outcome =
    StateMatch
  | StateMismatch "key_verdict list"
  | StateCannotVerify "key_verdict list"

definition is_match :: "compare_outcome \<Rightarrow> bool" where
  "is_match oc = (case oc of StateMatch \<Rightarrow> True | _ \<Rightarrow> False)"

definition mismatches :: "compare_outcome \<Rightarrow> key_verdict list" where
  "mismatches oc = (case oc of StateMismatch v \<Rightarrow> v | _ \<Rightarrow> [])"

definition unverified :: "compare_outcome \<Rightarrow> key_verdict list" where
  "unverified oc = (case oc of StateCannotVerify v \<Rightarrow> v | _ \<Rightarrow> [])"

record rpc_state_change =
  rc_key_xdr :: string
  rc_kind :: state_change_kind
  rc_after :: "string option"

text \<open>\<open>b64\<close> decodes base64 and \<open>entry_xdr\<close> encodes an entry; each may fail with a text.\<close>

definition from_decoded ::
  "(string \<Rightarrow> (string, string) result) \<Rightarrow> (ledger_entry \<Rightarrow> (string, string) result) \<Rightarrow>
   decoded_state_change \<Rightarrow> (rpc_state_change, string) result" where
  "from_decoded b64 entry_xdr d =
     and_then (b64 (trim (sx_key_b64 d))) (\<lambda>key.
     and_then (case sx_after d of None \<Rightarrow> Ok None | Some entry \<Rightarrow> map_ok Some (entry_xdr entry)) (\<lambda>after.
       Ok \<lparr>rc_key_xdr = key, rc_kind = sx_kind d, rc_after = after\<rparr>))"

definition side_of_value :: "string option \<Rightarrow> side" where
  "side_of_value v = (case v of Some x \<Rightarrow> Present x | None \<Rightarrow> Removed)"

definition rpc_side :: "rpc_state_change \<Rightarrow> side" where
  "rpc_side c = side_of_value (rc_after c)"

definition local_side :: "state_entry \<Rightarrow> side" where
  "local_side e = side_of_value (se_value_xdr e)"

definition is_executor_owned :: "fuzz_tools \<Rightarrow> string \<Rightarrow> bool" where
  "is_executor_owned T key_xdr =
     (case ft_key_from_xdr T key_xdr of Inl _ \<Rightarrow> False | Inr key \<Rightarrow> is_executor_owned_key key)"

section \<open>The comparison\<close>

text \<open>\<^verbatim>\<open>map.entry(k).or_insert(v)\<close> keeps the first value of a key.\<close>

definition bt_or_insert :: "'k::linorder \<Rightarrow> 'v \<Rightarrow> ('k, 'v) btree_map \<Rightarrow> ('k, 'v) btree_map" where
  "bt_or_insert k v m = (if bt_contains_key m k then m else bt_insert k v m)"

definition local_sides_filtered :: "fuzz_tools \<Rightarrow> observation \<Rightarrow> (string, side) btree_map" where
  "local_sides_filtered T obs =
     foldl (\<lambda>out e. if is_executor_owned T (se_key_xdr e) then out
                    else bt_or_insert (se_key_xdr e) (local_side e) out) [] (obs_state obs)"

definition rpc_index :: "rpc_state_change list \<Rightarrow> (string, rpc_state_change) btree_map" where
  "rpc_index rpc_changes = foldl (\<lambda>m c. bt_or_insert (rc_key_xdr c) c m) [] rpc_changes"

definition side_verdict :: "side \<Rightarrow> side \<Rightarrow> key_verdict" where
  "side_verdict l r =
     (case (l, r) of
        (Present a, Present b) \<Rightarrow> if a = b then KeyMatch else KeyMismatch l r
      | (Removed, Removed) \<Rightarrow> KeyMatchRemoved
      | _ \<Rightarrow> KeyMismatch l r)"

definition local_verdict :: "(string, rpc_state_change) btree_map \<Rightarrow> string \<times> side \<Rightarrow> key_verdict" where
  "local_verdict rpc kl =
     (case bt_get rpc (fst kl) of
        None \<Rightarrow> KeyCannotVerify (KeyOnOneSideOnly True False)
      | Some r \<Rightarrow> side_verdict (snd kl) (rpc_side r))"

definition rpc_only_verdict :: "fuzz_tools \<Rightarrow> string \<times> rpc_state_change \<Rightarrow> key_verdict" where
  "rpc_only_verdict T kc =
     KeyCannotVerify
       (if is_executor_owned T (fst kc) \<or> is_executor_owned T (rc_key_xdr (snd kc)) then ExecutorOwnedKey
        else KeyOnOneSideOnly False True)"

definition is_mismatch :: "key_verdict \<Rightarrow> bool" where
  "is_mismatch v = (case v of KeyMismatch _ _ \<Rightarrow> True | _ \<Rightarrow> False)"

definition is_cannot_verify :: "key_verdict \<Rightarrow> bool" where
  "is_cannot_verify v = (case v of KeyCannotVerify _ \<Rightarrow> True | _ \<Rightarrow> False)"

definition compare_state :: "fuzz_tools \<Rightarrow> observation \<Rightarrow> rpc_state_change list \<Rightarrow> compare_outcome" where
  "compare_state T obs rpc_changes =
     (let local = local_sides_filtered T obs;
          rpc = rpc_index rpc_changes;
          compared = map (local_verdict rpc) local;
          rpc_only = map (rpc_only_verdict T) (filter (\<lambda>kc. \<not> bt_contains_key local (fst kc)) rpc);
          disagreeing = filter is_mismatch compared;
          verdicts = compared @ rpc_only
      in if disagreeing \<noteq> [] then StateMismatch disagreeing
         else if list_all is_cannot_verify verdicts then StateCannotVerify verdicts
         else StateMatch)"

definition compare_state_counting ::
  "fuzz_tools \<Rightarrow> observation \<Rightarrow> rpc_state_change list \<Rightarrow> compare_outcome \<times> nat" where
  "compare_state_counting T obs rpc_changes =
     (let oc = compare_state T obs rpc_changes;
          comparable = (case oc of
              StateMatch \<Rightarrow>
                length (filter (\<lambda>c. bt_contains_key (local_sides_filtered T obs) (rc_key_xdr c)) rpc_changes)
            | StateMismatch v \<Rightarrow> length v
            | StateCannotVerify _ \<Rightarrow> 0)
      in if comparable = 0 then
           (case oc of StateMatch \<Rightarrow> (StateCannotVerify [], 0) | _ \<Rightarrow> (oc, comparable))
         else (oc, comparable))"

section \<open>What the two sides say of a key\<close>

text \<open>The specification looks a key up in the two reports directly: the first entry that has it.\<close>

definition local_report :: "fuzz_tools \<Rightarrow> observation \<Rightarrow> string \<Rightarrow> side option" where
  "local_report T obs k =
     (if is_executor_owned T k then None
      else map_option local_side (find (\<lambda>e. se_key_xdr e = k) (obs_state obs)))"

definition rpc_report :: "rpc_state_change list \<Rightarrow> string \<Rightarrow> side option" where
  "rpc_report rpc_changes k = map_option rpc_side (find (\<lambda>c. rc_key_xdr c = k) rpc_changes)"

lemma bt_or_insert_wf: "bt_wf m \<Longrightarrow> bt_wf (bt_or_insert k v m)"
  by (simp add: bt_or_insert_def)

lemma bt_get_or_insert:
  "bt_wf m \<Longrightarrow> bt_get (bt_or_insert k v m) k' = or_else (bt_get m k') (if k' = k then Some v else None)"
  by (cases "bt_get m k'") (auto simp: bt_or_insert_def bt_contains_key_get)

lemma local_sides_lookup:
  "bt_wf (local_sides_filtered T obs) \<and> bt_get (local_sides_filtered T obs) k = local_report T obs k"
proof -
  have "bt_wf m \<Longrightarrow>
      bt_wf (foldl (\<lambda>out e. if is_executor_owned T (se_key_xdr e) then out
                    else bt_or_insert (se_key_xdr e) (local_side e) out) m es) \<and>
      bt_get (foldl (\<lambda>out e. if is_executor_owned T (se_key_xdr e) then out
                    else bt_or_insert (se_key_xdr e) (local_side e) out) m es) k =
        or_else (bt_get m k) (if is_executor_owned T k then None
          else map_option local_side (find (\<lambda>e. se_key_xdr e = k) es))" for m es
  proof (induction es arbitrary: m)
    case Nil
    then show ?case by (cases "bt_get m k") auto
  next
    case (Cons e es)
    then show ?case
      by (cases "bt_get m k") (auto simp: bt_or_insert_wf bt_get_or_insert)
  qed
  from this [of "[]" "obs_state obs"] show ?thesis
    by (simp add: local_sides_filtered_def local_report_def bt_wf_def bt_get_def)
qed

lemma rpc_index_lookup:
  "bt_wf (rpc_index cs) \<and> bt_get (rpc_index cs) k = find (\<lambda>c. rc_key_xdr c = k) cs"
proof -
  have "bt_wf m \<Longrightarrow> bt_wf (foldl (\<lambda>m c. bt_or_insert (rc_key_xdr c) c m) m cs) \<and>
      bt_get (foldl (\<lambda>m c. bt_or_insert (rc_key_xdr c) c m) m cs) k =
        or_else (bt_get m k) (find (\<lambda>c. rc_key_xdr c = k) cs)" for m
  proof (induction cs arbitrary: m)
    case Nil
    then show ?case by (cases "bt_get m k") auto
  next
    case (Cons c cs)
    then show ?case by (cases "bt_get m k") (auto simp: bt_or_insert_wf bt_get_or_insert)
  qed
  from this [of "[]"] show ?thesis by (simp add: rpc_index_def bt_wf_def bt_get_def)
qed

lemma local_report_not_absent: "local_report T obs k \<noteq> Some Absent"
  by (auto simp: local_report_def local_side_def side_of_value_def split: option.splits)

lemma rpc_side_not_absent: "rpc_side c \<noteq> Absent"
  by (simp add: rpc_side_def side_of_value_def split: option.split)

lemma side_verdict_mismatch:
  "\<lbrakk>l \<noteq> Absent; r \<noteq> Absent\<rbrakk> \<Longrightarrow> is_mismatch (side_verdict l r) \<longleftrightarrow> l \<noteq> r"
  "\<not> is_cannot_verify (side_verdict l r)"
  by (cases l; cases r; simp add: side_verdict_def is_mismatch_def is_cannot_verify_def)+

lemma local_verdict_facts:
  assumes "(k, l) \<in> set (local_sides_filtered T obs)"
  shows "is_mismatch (local_verdict (rpc_index cs) (k, l)) \<longleftrightarrow> (\<exists>r. rpc_report cs k = Some r \<and> r \<noteq> l)"
    and "is_cannot_verify (local_verdict (rpc_index cs) (k, l)) \<longleftrightarrow> rpc_report cs k = None"
proof -
  have "local_report T obs k = Some l"
    using assms local_sides_lookup [of T obs k] bt.in_entries_iff by metis
  then have "l \<noteq> Absent" using local_report_not_absent by auto
  then show "is_mismatch (local_verdict (rpc_index cs) (k, l)) \<longleftrightarrow> (\<exists>r. rpc_report cs k = Some r \<and> r \<noteq> l)"
    "is_cannot_verify (local_verdict (rpc_index cs) (k, l)) \<longleftrightarrow> rpc_report cs k = None"
    using rpc_index_lookup [of cs k] side_verdict_mismatch rpc_side_not_absent
    by (auto simp: local_verdict_def rpc_report_def is_mismatch_def is_cannot_verify_def
        split: option.splits key_verdict.splits)
qed

lemma local_entry_iff: "(k, l) \<in> set (local_sides_filtered T obs) \<longleftrightarrow> local_report T obs k = Some l"
  using local_sides_lookup [of T obs k] bt.in_entries_iff by metis

text \<open>The three outcomes, read off the two lists the comparison builds.\<close>

lemma disagreeing_iff:
  "filter is_mismatch (map (local_verdict (rpc_index cs)) (local_sides_filtered T obs)) \<noteq> [] \<longleftrightarrow>
     (\<exists>k l r. local_report T obs k = Some l \<and> rpc_report cs k = Some r \<and> l \<noteq> r)"
proof -
  have "filter is_mismatch (map (local_verdict (rpc_index cs)) (local_sides_filtered T obs)) \<noteq> [] \<longleftrightarrow>
      (\<exists>k l. (k, l) \<in> set (local_sides_filtered T obs) \<and> is_mismatch (local_verdict (rpc_index cs) (k, l)))"
    by (auto simp: filter_empty_conv)
  also have "\<dots> \<longleftrightarrow> (\<exists>k l. local_report T obs k = Some l \<and> (\<exists>r. rpc_report cs k = Some r \<and> r \<noteq> l))"
    using local_entry_iff [of _ _ T obs] local_verdict_facts(1) [of _ _ T obs cs] by blast
  finally show ?thesis by metis
qed

lemma nothing_comparable_iff:
  "list_all is_cannot_verify
     (map (local_verdict (rpc_index cs)) (local_sides_filtered T obs) @ map (rpc_only_verdict T) kcs) \<longleftrightarrow>
     \<not> (\<exists>k l r. local_report T obs k = Some l \<and> rpc_report cs k = Some r)"
proof -
  have "list_all is_cannot_verify
      (map (local_verdict (rpc_index cs)) (local_sides_filtered T obs) @ map (rpc_only_verdict T) kcs) \<longleftrightarrow>
      (\<forall>k l. (k, l) \<in> set (local_sides_filtered T obs) \<longrightarrow> is_cannot_verify (local_verdict (rpc_index cs) (k, l)))"
    by (auto simp: list_all_iff rpc_only_verdict_def is_cannot_verify_def [of "KeyCannotVerify _"])
  also have "\<dots> \<longleftrightarrow> (\<forall>k l. local_report T obs k = Some l \<longrightarrow> rpc_report cs k = None)"
    using local_entry_iff [of _ _ T obs] local_verdict_facts(2) [of _ _ T obs cs] by blast
  finally show ?thesis by (metis not_None_eq)
qed

lemma rpc_report_mem: "rpc_report cs k \<noteq> None \<longleftrightarrow> (\<exists>c \<in> set cs. rc_key_xdr c = k)"
  by (auto simp: rpc_report_def find_None_iff)

text \<open>Counting never changes the outcome: a match always has a key that was compared.\<close>

lemma counting_keeps_outcome: "fst (compare_state_counting T obs cs) = compare_state T obs cs"
proof (cases "compare_state T obs cs")
  case StateMatch
  then obtain k l r where "local_report T obs k = Some l" "rpc_report cs k = Some r"
    using nothing_comparable_iff [of cs T obs]
    by (auto simp: compare_state_def Let_def split: if_splits)
  then obtain c where "c \<in> set cs" "rc_key_xdr c = k"
    "bt_contains_key (local_sides_filtered T obs) (rc_key_xdr c)"
    using rpc_report_mem [of cs k] local_sides_lookup [of T obs k] by (auto simp: bt_contains_key_get)
  then have "filter (\<lambda>c. bt_contains_key (local_sides_filtered T obs) (rc_key_xdr c)) cs \<noteq> []"
    by (auto simp: filter_empty_conv)
  with StateMatch show ?thesis by (simp add: compare_state_counting_def)
qed (simp_all add: compare_state_counting_def Let_def)

text \<open>
  C35. The verdict of the state comparison is exact. Looking each key up in the two reports, with the keys
  the executor owns left out: the outcome is a mismatch exactly when some key is reported by both
  sides with different results, a match exactly when some key is reported by both sides and all such
  keys agree, and it cannot be verified exactly when no key is reported by both sides, whatever the
  order and the repetition of entries.
\<close>

theorem compare_state_exact:
  "((\<exists>v. compare_state T obs cs = StateMismatch v) \<longleftrightarrow>
     (\<exists>k l r. local_report T obs k = Some l \<and> rpc_report cs k = Some r \<and> l \<noteq> r)) \<and>
   (compare_state T obs cs = StateMatch \<longleftrightarrow>
     (\<exists>k l. local_report T obs k = Some l \<and> rpc_report cs k = Some l) \<and>
     \<not> (\<exists>k l r. local_report T obs k = Some l \<and> rpc_report cs k = Some r \<and> l \<noteq> r)) \<and>
   ((\<exists>v. compare_state T obs cs = StateCannotVerify v) \<longleftrightarrow>
     \<not> (\<exists>k l r. local_report T obs k = Some l \<and> rpc_report cs k = Some r))"
proof -
  define differ where "differ = (\<exists>k l r. local_report T obs k = Some l \<and> rpc_report cs k = Some r \<and> l \<noteq> r)"
  define both where "both = (\<exists>k l r. local_report T obs k = Some l \<and> rpc_report cs k = Some r)"
  have kind: "(if differ then \<exists>v. compare_state T obs cs = StateMismatch v
      else if \<not> both then \<exists>v. compare_state T obs cs = StateCannotVerify v
      else compare_state T obs cs = StateMatch)"
    using disagreeing_iff [of cs T obs] nothing_comparable_iff [of cs T obs]
    by (simp add: compare_state_def Let_def differ_def both_def)
  have "differ \<Longrightarrow> both" by (auto simp: differ_def both_def)
  moreover have "(\<exists>k l. local_report T obs k = Some l \<and> rpc_report cs k = Some l) \<or> differ \<longleftrightarrow> both"
    unfolding differ_def both_def by metis
  ultimately show ?thesis
    using kind unfolding differ_def [symmetric] both_def [symmetric] by (auto split: if_splits)
qed

end
