(* ===== verification/Rpc_Client.thy ===== *)
theory Rpc_Client
  imports Config
begin

text \<open>
  The JSON-RPC client, \<^verbatim>\<open>sdkt-rpc/src/client.rs\<close> and \<^verbatim>\<open>error.rs\<close>, and the reading of many ledger entries in
  batches, \<^verbatim>\<open>storage.rs: fetch_ledger_entries\<close>. The node, the network and the clock are outside: a POST
  is a step of the world that gives a reply, a pause is a step of the world. A reply comes with its
  JSON already read, since reading it is the job of serde.
\<close>

section \<open>Errors\<close>

datatype rpc_error =
    TooManyLedgerKeys nat nat
  | RpcMessage string
  | JsonRpc int string "string option"
  | Reqwest string
  | HttpStatus nat
  | Json string
  | ConfigError string
  | ContractNotFound

definition rpc_error_display :: "rpc_error \<Rightarrow> string" where
  "rpc_error_display e =
     (case e of
        TooManyLedgerKeys received limit \<Rightarrow>
          ''getLedgerEntries accepts at most '' @ show_nat limit @ '' keys per request; received '' @ show_nat received @
          ''. Use fetch_ledger_entries to read larger key sets in batches''
      | RpcMessage m \<Rightarrow> ''RPC error: '' @ m
      | JsonRpc code m _ \<Rightarrow> ''RPC error: '' @ m @ '' (code '' @ show_int code @ '')''
      | Reqwest m \<Rightarrow> ''HTTP request error: '' @ m
      | HttpStatus s \<Rightarrow> ''HTTP request failed with status '' @ show_nat s
      | Json m \<Rightarrow> ''JSON parsing error: '' @ m
      | ConfigError m \<Rightarrow> ''Configuration error: '' @ m
      | ContractNotFound \<Rightarrow> ''Contract not found on the network'')"

definition rpc_code :: "rpc_error \<Rightarrow> int option" where
  "rpc_code e = (case e of JsonRpc code _ _ \<Rightarrow> Some code | _ \<Rightarrow> None)"

definition rpc_data :: "rpc_error \<Rightarrow> string option" where
  "rpc_data e = (case e of JsonRpc _ _ data \<Rightarrow> data | _ \<Rightarrow> None)"

section \<open>One request\<close>

record json_rpc_error =
  je_code :: "int option"
  je_message :: string
  je_data :: "string option"

record 'v json_rpc_response =
  jr_result :: "'v option"
  jr_error :: "json_rpc_error option"

text \<open>
  What a POST gives: no answer, with whether the cause was a timeout or a failed connection, or a
  status with a body, which is read as JSON or not.
\<close>

datatype 'v http_reply =
    SendFailed bool string
  | HttpReply nat "string + 'v json_rpc_response"

type_synonym ('w, 'v) post = "'w \<Rightarrow> 'w \<times> 'v http_reply"

text \<open>The clock, in milliseconds.\<close>

record 'w rpc_clock =
  ck_now :: "'w \<Rightarrow> nat"
  ck_sleep :: "nat \<Rightarrow> 'w \<Rightarrow> 'w"

definition is_success_status :: "nat \<Rightarrow> bool" where
  "is_success_status s \<longleftrightarrow> 200 \<le> s \<and> s < 300"

definition is_retry_status :: "nat \<Rightarrow> bool" where
  "is_retry_status s \<longleftrightarrow> s = 429 \<or> (500 \<le> s \<and> s < 600)"

definition response_result :: "'v json_rpc_response \<Rightarrow> ('v, rpc_error) result" where
  "response_result res =
     (case jr_error res of
        Some e \<Rightarrow>
          (case je_code e of
             Some code \<Rightarrow> Err (JsonRpc code (je_message e) (je_data e))
           | None \<Rightarrow> Err (RpcMessage (je_message e)))
      | None \<Rightarrow> ok_or (RpcMessage ''Missing result in JSON-RPC response'') (jr_result res))"

text \<open>The body of the loop: an error to retry after, or what the request returns.\<close>

definition attempt_end :: "'v http_reply \<Rightarrow> rpc_error + ('v, rpc_error) result" where
  "attempt_end reply =
     (case reply of
        SendFailed retryable e \<Rightarrow> if retryable then Inl (Reqwest e) else Inr (Err (Reqwest e))
      | HttpReply s body \<Rightarrow>
          if \<not> is_success_status s then
            (if is_retry_status s then Inl (HttpStatus s) else Inr (Err (HttpStatus s)))
          else
            (case body of
               Inl e \<Rightarrow> Inr (Err (Reqwest e))
             | Inr res \<Rightarrow> Inr (response_result res)))"

function request_loop ::
  "('w, 'z) rpc_clock_scheme \<Rightarrow> ('w, 'v) post \<Rightarrow> nat \<Rightarrow> rpc_error option \<Rightarrow> ('w, 'v, rpc_error) io" where
  "request_loop C post attempt last_err w =
     (if attempt < 2 then
        (case post w of
           (w1, reply) \<Rightarrow>
             (case attempt_end reply of
                Inl e \<Rightarrow> request_loop C post (attempt + 1) (Some e) (ck_sleep C 500 w1)
              | Inr out \<Rightarrow> (w1, out)))
      else (w, Err (unwrap_or (RpcMessage ''request failed'') last_err)))"
  by pat_completeness auto
termination by (relation "measure (\<lambda>(_, _, attempt, _, _). 2 - attempt)") auto

declare request_loop.simps [simp del]

definition request :: "('w, 'z) rpc_clock_scheme \<Rightarrow> ('w, 'v) post \<Rightarrow> ('w, 'v, rpc_error) io" where
  "request C post = request_loop C post 0 None"

section \<open>Ledger entries\<close>

definition MAX_LEDGER_KEYS :: nat where
  "MAX_LEDGER_KEYS = 200"

record ledger_entry_result =
  lr_key :: string
  lr_xdr :: string
  lr_last_modified :: nat
  lr_live_until :: "nat option"
  lr_value :: "string option"

record storage_response =
  st_entries :: "ledger_entry_result list"
  st_latest :: nat

text \<open>A client: its clock and the node's answer to \<^verbatim>\<open>getLedgerEntries\<close>.\<close>

record 'w ledger_client = "'w rpc_clock" +
  lc_get_entries :: "string list \<Rightarrow> ('w, storage_response) post"

definition get_contract_storage ::
  "('w, 'z) ledger_client_scheme \<Rightarrow> string list \<Rightarrow> ('w, storage_response, rpc_error) io" where
  "get_contract_storage C keys =
     (if length keys > MAX_LEDGER_KEYS then io_return (Err (TooManyLedgerKeys (length keys) MAX_LEDGER_KEYS))
      else request C (lc_get_entries C keys))"

text \<open>\<^verbatim>\<open>slice::chunks\<close>, which panics for size 0; the caller's size is positive.\<close>

function chunks :: "nat \<Rightarrow> 'a list \<Rightarrow> 'a list list" where
  "chunks n xs = (if xs = [] \<or> n = 0 then [] else take n xs # chunks n (drop n xs))"
  by pat_completeness auto
termination by (relation "measure (\<lambda>(_, xs). length xs)") auto

declare chunks.simps [simp del]

definition batch_size :: "nat \<Rightarrow> nat" where
  "batch_size max_entries = (if max_entries = 0 then MAX_LEDGER_KEYS else min max_entries MAX_LEDGER_KEYS)"

definition collect_entries ::
  "(string, ledger_entry_result) hash_map \<Rightarrow> ledger_entry_result list \<Rightarrow> (string, ledger_entry_result) hash_map" where
  "collect_entries m es = foldl (\<lambda>m e. hm_insert (lr_key e) e m) m es"

definition fetch_batch ::
  "('w, 'z) ledger_client_scheme \<Rightarrow> nat \<Rightarrow> (string, ledger_entry_result) hash_map \<Rightarrow> string list \<Rightarrow>
   ('w, (string, ledger_entry_result) hash_map, rpc_error) io" where
  "fetch_batch C latest m batch =
     io_bind (get_contract_storage C batch) (\<lambda>response.
       io_return
         (if st_latest response \<noteq> latest then
            Err (RpcMessage (''getLedgerEntries batches span different ledgers ('' @ show_nat latest @ '' and '' @
              show_nat (st_latest response) @ ''); retry the complete read''))
          else Ok (collect_entries m (st_entries response))))"

definition fetch_ledger_entries ::
  "('w, 'z) ledger_client_scheme \<Rightarrow> string list \<Rightarrow> nat \<Rightarrow> ('w, storage_response, rpc_error) io" where
  "fetch_ledger_entries C keys max_entries =
     (let size = batch_size max_entries in
      if length keys \<le> size then get_contract_storage C keys
      else
        io_bind (get_contract_storage C (take size keys)) (\<lambda>first.
        io_bind (io_fold (fetch_batch C (st_latest first)) (collect_entries [] (st_entries first))
                   (chunks size (drop size keys))) (\<lambda>m.
          io_return (Ok (first\<lparr>st_entries := List.map_filter (hm_get m) keys\<rparr>)))))"

section \<open>A request is at most two attempts\<close>

text \<open>The loop unrolled: a second POST is made only after a failure worth retrying.\<close>

lemma request_attempts:
  "request C post w =
     (case post w of
        (w1, reply) \<Rightarrow>
          (case attempt_end reply of
             Inr out \<Rightarrow> (w1, out)
           | Inl _ \<Rightarrow>
               (case post (ck_sleep C 500 w1) of
                  (w2, reply2) \<Rightarrow>
                    (case attempt_end reply2 of
                       Inr out \<Rightarrow> (w2, out)
                     | Inl e \<Rightarrow> (ck_sleep C 500 w2, Err e)))))"
  by (simp add: request_def request_loop.simps [of C post 0] request_loop.simps [of C post "Suc 0"]
      request_loop.simps [of C post "Suc (Suc 0)"] split: prod.split sum.split)

lemma response_result_cases: "response_result res \<noteq> Panic" "response_result res \<noteq> Err (TooManyLedgerKeys n m)"
  by (auto simp: response_result_def split: option.splits)

lemma attempt_end_cases:
  "attempt_end reply \<noteq> Inr Panic" "attempt_end reply \<noteq> Inr (Err (TooManyLedgerKeys n m))"
  "attempt_end reply \<noteq> Inl (TooManyLedgerKeys n m)"
  by (auto simp: attempt_end_def response_result_cases split: http_reply.split sum.split)

lemma request_cases:
  "snd (request C post w) \<noteq> Panic" "snd (request C post w) \<noteq> Err (TooManyLedgerKeys n m)"
  by (auto simp: request_attempts attempt_end_cases split: prod.split sum.split)

section \<open>Reading in batches\<close>

lemma batch_size_pos: "0 < batch_size n" "batch_size n \<le> MAX_LEDGER_KEYS"
  by (auto simp: batch_size_def MAX_LEDGER_KEYS_def)

lemma chunks_concat: "0 < n \<Longrightarrow> concat (chunks n xs) = xs"
proof (induction n xs rule: chunks.induct)
  case (1 n xs)
  then show ?case by (subst chunks.simps) auto
qed

lemma chunks_length: "0 < n \<Longrightarrow> c \<in> set (chunks n xs) \<Longrightarrow> length c \<le> n"
proof (induction n xs rule: chunks.induct)
  case (1 n xs)
  from "1.prems"(2) have "xs \<noteq> []" and "c = take n xs \<or> c \<in> set (chunks n (drop n xs))"
    by (subst (asm) chunks.simps, simp split: if_splits)+
  then show ?case using "1.IH" "1.prems"(1) by auto
qed

lemma get_collect_entries:
  assumes "\<forall>e \<in> set es. L (lr_key e) = Some e" and keys: "\<forall>k e. L k = Some e \<longrightarrow> lr_key e = k"
  shows "hm_get (collect_entries m es) k =
    (if L k \<noteq> None \<and> the (L k) \<in> set es then L k else hm_get m k)"
  unfolding collect_entries_def using assms(1)
proof (induction es arbitrary: m)
  case (Cons e es)
  have "L (lr_key e) = Some e" using Cons.prems by simp
  then show ?case using Cons.IH [of "hm_insert (lr_key e) e m"] Cons.prems keys by auto
qed simp

text \<open>
  A node that answers from its ledger: in a state of the world the ledger has a sequence number, a
  ledger gives each key an entry that carries the key, and a request that the node accepts returns
  the entries of its keys in one ledger, in some order.
\<close>

definition answers_from_ledgers ::
  "('w, 'z) ledger_client_scheme \<Rightarrow> (nat \<Rightarrow> string \<Rightarrow> ledger_entry_result option) \<Rightarrow> bool" where
  "answers_from_ledgers C ledger \<longleftrightarrow>
     (\<forall>n k e. ledger n k = Some e \<longrightarrow> lr_key e = k) \<and>
     (\<forall>keys w w' r. request C (lc_get_entries C keys) w = (w', Ok r) \<longrightarrow>
        set (st_entries r) = {e. \<exists>k \<in> set keys. ledger (st_latest r) k = Some e})"

lemma get_contract_storage_cases:
  assumes "length keys \<le> MAX_LEDGER_KEYS"
  shows "snd (get_contract_storage C keys w) \<noteq> Panic"
    "snd (get_contract_storage C keys w) \<noteq> Err (TooManyLedgerKeys n m)"
  using assms by (simp_all add: get_contract_storage_def request_cases)

lemma get_contract_storage_Ok:
  assumes "answers_from_ledgers C ledger" and "get_contract_storage C keys w = (w', Ok r)"
  shows "set (st_entries r) = {e. \<exists>k \<in> set keys. ledger (st_latest r) k = Some e}"
  using assms by (auto simp: answers_from_ledgers_def get_contract_storage_def split: if_splits)

text \<open>What the map holds after the entries of some keys have been collected.\<close>

lemma collect_answer:
  assumes answers: "answers_from_ledgers C ledger"
    and before: "\<forall>k. hm_get m k = (if k \<in> ks then ledger n k else None)"
    and got: "set es = {e. \<exists>k \<in> set keys. ledger n k = Some e}"
  shows "\<forall>k. hm_get (collect_entries m es) k = (if k \<in> ks \<union> set keys then ledger n k else None)"
proof
  fix k
  have key: "lr_key e = k" if "ledger n k = Some e" for k e
    using answers that by (simp add: answers_from_ledgers_def)
  have "\<forall>e \<in> set es. ledger n (lr_key e) = Some e" using got key by auto
  then have "hm_get (collect_entries m es) k =
      (if ledger n k \<noteq> None \<and> the (ledger n k) \<in> set es then ledger n k else hm_get m k)"
    by (rule get_collect_entries) (use key in blast)
  moreover have "the (ledger n k) \<in> set es \<longleftrightarrow> k \<in> set keys" if "ledger n k \<noteq> None"
    using that got key by auto (metis key)
  ultimately show "hm_get (collect_entries m es) k = (if k \<in> ks \<union> set keys then ledger n k else None)"
    using before by (cases "ledger n k") auto
qed

lemma fetch_batches_Ok:
  assumes answers: "answers_from_ledgers C ledger"
    and before: "\<forall>k. hm_get m k = (if k \<in> ks then ledger n k else None)"
    and run: "io_fold (fetch_batch C n) m batches w = (w', Ok m')"
  shows "\<forall>k. hm_get m' k = (if k \<in> ks \<union> set (concat batches) then ledger n k else None)"
  using before run
proof (induction batches arbitrary: m ks w)
  case (Cons batch batches)
  from Cons.prems(2) obtain w1 m1 where step: "fetch_batch C n m batch w = (w1, Ok m1)"
    and rest: "io_fold (fetch_batch C n) m1 batches w1 = (w', Ok m')"
    by (auto simp: io_bind_Ok_iff)
  from step obtain w0 r where r: "get_contract_storage C batch w = (w0, Ok r)" "st_latest r = n"
    "m1 = collect_entries m (st_entries r)"
    by (auto simp: fetch_batch_def io_bind_Ok_iff split: if_splits)
  have "\<forall>k. hm_get m1 k = (if k \<in> ks \<union> set batch then ledger n k else None)"
    using collect_answer [OF answers Cons.prems(1)] get_contract_storage_Ok [OF answers r(1)] r(2,3) by simp
  from Cons.IH [OF this rest] show ?case by (simp add: Un_assoc)
qed simp

lemma batched_read_Ok:
  assumes answers: "answers_from_ledgers C ledger" and "\<not> length keys \<le> batch_size max_entries"
    and run: "fetch_ledger_entries C keys max_entries w = (w', Ok r)"
  shows "st_entries r = List.map_filter (ledger (st_latest r)) keys"
proof -
  let ?n = "batch_size max_entries"
  obtain w1 first m where first: "get_contract_storage C (take ?n keys) w = (w1, Ok first)"
    and fold: "io_fold (fetch_batch C (st_latest first)) (collect_entries [] (st_entries first))
      (chunks ?n (drop ?n keys)) w1 = (w', Ok m)"
    and r: "r = first\<lparr>st_entries := List.map_filter (hm_get m) keys\<rparr>"
    using assms(2) run by (auto simp: fetch_ledger_entries_def Let_def io_bind_Ok_iff)
  have "\<forall>k. hm_get (collect_entries [] (st_entries first)) k =
      (if k \<in> {} \<union> set (take ?n keys) then ledger (st_latest first) k else None)"
    using collect_answer [OF answers _ get_contract_storage_Ok [OF answers first], of "[]" "{}"] by simp
  note found = fetch_batches_Ok [OF answers this fold]
  have "hm_get m k = ledger (st_latest r) k" if "k \<in> set keys" for k
  proof -
    have "set keys = {} \<union> set (take ?n keys) \<union> set (concat (chunks ?n (drop ?n keys)))"
      unfolding chunks_concat [OF batch_size_pos(1)] by (metis Un_empty_left append_take_drop_id set_append)
    then have "k \<in> {} \<union> set (take ?n keys) \<union> set (concat (chunks ?n (drop ?n keys)))" using that by simp
    then show ?thesis using found r by simp
  qed
  then show ?thesis using r by (auto simp: List.map_filter_def intro!: map_cong filter_cong)
qed

text \<open>The errors a batched read cannot have.\<close>

definition no_batch_error :: "('w, 'a, rpc_error) io \<Rightarrow> bool" where
  "no_batch_error m \<longleftrightarrow> (\<forall>w. snd (m w) \<noteq> Panic \<and> (\<forall>i j. snd (m w) \<noteq> Err (TooManyLedgerKeys i j)))"

lemma no_batch_error_bind:
  "\<lbrakk>no_batch_error m; \<And>x. no_batch_error (f x)\<rbrakk> \<Longrightarrow> no_batch_error (io_bind m f)"
  unfolding no_batch_error_def io_bind_def
  by (auto split: prod.splits result.splits) (metis snd_conv)+

lemma no_batch_error_request:
  "length keys \<le> MAX_LEDGER_KEYS \<Longrightarrow> no_batch_error (get_contract_storage C keys)"
  by (simp add: no_batch_error_def get_contract_storage_cases)

lemma no_batch_error_fold:
  "\<forall>b \<in> set batches. length b \<le> MAX_LEDGER_KEYS \<Longrightarrow> no_batch_error (io_fold (fetch_batch C n) m batches)"
proof (induction batches arbitrary: m)
  case (Cons b batches)
  have "no_batch_error (fetch_batch C n m b)"
    unfolding fetch_batch_def using Cons.prems
    by (intro no_batch_error_bind no_batch_error_request) (auto simp: no_batch_error_def)
  then show ?case using Cons by (auto intro: no_batch_error_bind)
qed (simp add: no_batch_error_def)

lemma batched_read_errors:
  assumes "length (take n keys) \<le> MAX_LEDGER_KEYS"
    and "\<forall>b \<in> set (chunks n (drop n keys)). length b \<le> MAX_LEDGER_KEYS"
  shows "no_batch_error
    (io_bind (get_contract_storage C (take n keys)) (\<lambda>first.
     io_bind (io_fold (fetch_batch C (st_latest first)) (collect_entries [] (st_entries first))
        (chunks n (drop n keys))) (\<lambda>m. io_return (Ok (first\<lparr>st_entries := List.map_filter (hm_get m) keys\<rparr>)))))"
  using assms
  by (intro no_batch_error_bind no_batch_error_request no_batch_error_fold) (auto simp: no_batch_error_def)

lemma set_map_filter: "set (List.map_filter f xs) = {y. \<exists>x \<in> set xs. f x = Some y}"
  by (force simp: List.map_filter_def)

lemma fetch_found:
  assumes "answers_from_ledgers C ledger" and "fetch_ledger_entries C keys max_entries w = (w', Ok r)"
  shows "set (st_entries r) = {e. \<exists>k \<in> set keys. ledger (st_latest r) k = Some e}"
proof (cases "length keys \<le> batch_size max_entries")
  case True
  then have "get_contract_storage C keys w = (w', Ok r)" using assms(2) by (simp add: fetch_ledger_entries_def)
  then show ?thesis by (rule get_contract_storage_Ok [OF assms(1)])
next
  case False
  then show ?thesis using batched_read_Ok [OF assms(1) _ assms(2)] by (simp add: set_map_filter)
qed

text \<open>
  C36. Reading many ledger entries gives one snapshot. The node may close ledgers between two requests.
  Against a node that answers each request from one ledger, whatever a successful read returns, in
  one request or in batches, is exactly the entries of the requested keys in the ledger it names;
  when it takes batches they come in the order of the keys, with an entry repeated for a key that is
  repeated. No batch exceeds the limit of the node, whatever the batch size asked for, and the read
  does not panic.
\<close>

theorem batched_read_is_snapshot:
  assumes answers: "answers_from_ledgers C ledger"
  shows "(\<forall>w' r. fetch_ledger_entries C keys max_entries w = (w', Ok r) \<longrightarrow>
      set (st_entries r) = {e. \<exists>k \<in> set keys. ledger (st_latest r) k = Some e} \<and>
      (length keys > batch_size max_entries \<longrightarrow>
         st_entries r = List.map_filter (ledger (st_latest r)) keys)) \<and>
    (\<forall>n m. snd (fetch_ledger_entries C keys max_entries w) \<noteq> Err (TooManyLedgerKeys n m)) \<and>
    snd (fetch_ledger_entries C keys max_entries w) \<noteq> Panic"
proof (cases "length keys \<le> batch_size max_entries")
  case True
  then have "length keys \<le> MAX_LEDGER_KEYS" using batch_size_pos(2) order_trans by blast
  with True show ?thesis
    using get_contract_storage_Ok [OF answers] get_contract_storage_cases [of keys C w]
    by (auto simp: fetch_ledger_entries_def)
next
  case False
  have first: "length (take (batch_size max_entries) keys) \<le> MAX_LEDGER_KEYS"
    using batch_size_pos(2) [of max_entries] by simp
  have rest: "\<forall>b \<in> set (chunks (batch_size max_entries) (drop (batch_size max_entries) keys)).
      length b \<le> MAX_LEDGER_KEYS"
    using chunks_length [OF batch_size_pos(1)] batch_size_pos(2) order_trans by blast
  have ok: "st_entries r = List.map_filter (ledger (st_latest r)) keys"
    if run: "fetch_ledger_entries C keys max_entries w = (w', Ok r)" for w' r
    using batched_read_Ok [OF answers False run] .
  have "no_batch_error (fetch_ledger_entries C keys max_entries)"
    using batched_read_errors [OF first rest] False by (simp add: fetch_ledger_entries_def Let_def)
  with ok show ?thesis by (auto simp: set_map_filter no_batch_error_def)
qed

text \<open>A node that closes a ledger with every request, over a world that counts the requests.\<close>

definition demo_rows :: "nat \<Rightarrow> string \<Rightarrow> ledger_entry_result option" where
  "demo_rows n k =
     (if k = ''a'' \<or> k = ''b'' then
        Some \<lparr>lr_key = k, lr_xdr = show_nat n, lr_last_modified = n, lr_live_until = None, lr_value = None\<rparr>
      else None)"

definition demo_node :: "nat \<Rightarrow> nat ledger_client" where
  "demo_node pace =
     \<lparr>ck_now = (\<lambda>w. w), ck_sleep = (\<lambda>_ w. w),
      lc_get_entries = (\<lambda>keys w. (w + pace, HttpReply 200 (Inr
        \<lparr>jr_result = Some \<lparr>st_entries = List.map_filter (demo_rows w) keys, st_latest = w\<rparr>, jr_error = None\<rparr>)))\<rparr>"

lemma demo_node_answers: "answers_from_ledgers (demo_node pace) demo_rows"
  by (auto simp: answers_from_ledgers_def demo_node_def request_attempts attempt_end_def is_success_status_def
      response_result_def set_map_filter demo_rows_def split: if_splits)

lemma demo_node_run:
  "fetch_ledger_entries (demo_node 0) [''b'', ''c'', ''b'', ''a''] 2 7 =
     (7, Ok \<lparr>st_entries = List.map_filter (demo_rows 7) [''b'', ''c'', ''b'', ''a''], st_latest = 7\<rparr>)"
  "\<exists>m. snd (fetch_ledger_entries (demo_node 1) [''b'', ''c'', ''a''] 2 7) = Err (RpcMessage m)"
  by (simp_all add: fetch_ledger_entries_def batch_size_def MAX_LEDGER_KEYS_def get_contract_storage_def demo_node_def
    request_attempts attempt_end_def is_success_status_def response_result_def io_bind_def fetch_batch_def
    chunks.simps collect_entries_def hm_get_def hm_insert_def demo_rows_def List.map_filter_def)

lemma batched_read_is_snapshot_witness:
  "\<exists>r. fetch_ledger_entries (demo_node 0) [''b'', ''c'', ''b'', ''a''] 2 7 = (7, Ok r) \<and> st_latest r = 7 \<and>
     set (st_entries r) = {e. \<exists>k \<in> {''b'', ''c'', ''a''}. demo_rows 7 k = Some e} \<and>
     st_entries r = List.map_filter (demo_rows 7) [''b'', ''c'', ''b'', ''a'']"
proof -
  have "batch_size 2 < length [''b'', ''c'', ''b'', ''a'']" by (simp add: batch_size_def MAX_LEDGER_KEYS_def)
  moreover have "{''b'', ''c'', ''a''} = set [''b'', ''c'', ''b'', ''a'']" by auto
  ultimately show ?thesis
    using batched_read_is_snapshot [OF demo_node_answers [of 0], of "[''b'', ''c'', ''b'', ''a'']" 2 7]
      demo_node_run(1) by fastforce
qed

end
