(* ===== verification/Submission.thy ===== *)
theory Submission
  imports Rpc_Client
begin

text \<open>
  The submission of a signed transaction and the wait for its settlement, \<^verbatim>\<open>sdkt-rpc/src/submission.rs\<close>.
  XDR and base64 are parameters: the results of a transaction are the types of the protocol the source
  matches on, a contract event is any type \<open>'ev\<close>.
\<close>

section \<open>Events of a settled transaction\<close>

datatype event_stage = BeforeAllTxs | AfterTx | AfterAllTxs

record 'ev transaction_event =
  te_stage :: event_stage
  te_event :: 'ev

text \<open>The meta of a transaction, as far as it is read: versions 0 to 2 hold no contract events.\<close>

datatype 'ev transaction_meta =
    MetaV0 | MetaV1 | MetaV2
  | MetaV3 "'ev list option"
  | MetaV4 "'ev transaction_event list" "'ev list list"

section \<open>Results of a settled transaction\<close>

datatype invoke_result =
    InvokeSuccess | InvokeMalformed | InvokeTrapped | InvokeResourceLimitExceeded | InvokeEntryArchived
  | InvokeInsufficientRefundableFee

datatype operation_result =
    OpInvokeHostFunction invoke_result
  | OpInner
  | OpBadAuth | OpNoAccount | OpNotSupported | OpTooManySubentries | OpExceededWorkLimit | OpTooManySponsoring

datatype result_code =
    TxSuccess
  | TxFailed "operation_result list"
  | TxTooEarly | TxTooLate | TxMissingOperation | TxBadSeq | TxBadAuth | TxInsufficientBalance | TxNoAccount
  | TxInsufficientFee | TxBadAuthExtra | TxInternalError | TxNotSupported | TxBadSponsorship
  | TxBadMinSeqAgeOrGap | TxMalformed | TxSorobanInvalid | TxFrozenKeyAccessed

text \<open>A fee-bump wrapper holds an inner code, which is never a wrapper.\<close>

datatype transaction_result =
    FeeBumpInnerSuccess result_code
  | FeeBumpInnerFailed result_code
  | PlainResult result_code

record 'ev tx_codec =
  tc_base64_decode :: "string \<Rightarrow> string option"
  tc_base64_encode :: "string \<Rightarrow> string"
  tc_meta_from_xdr :: "string \<Rightarrow> 'ev transaction_meta option"
  tc_result_from_xdr :: "string \<Rightarrow> transaction_result option"
  tc_event_to_xdr :: "'ev \<Rightarrow> string option"

text \<open>The loop over the staged events fills three lists, \<open>events\<close>, \<open>after_tx\<close> and \<open>after_all_txs\<close>.\<close>

definition sort_stage ::
  "'ev list \<times> 'ev list \<times> 'ev list \<Rightarrow> 'ev transaction_event \<Rightarrow> 'ev list \<times> 'ev list \<times> 'ev list" where
  "sort_stage acc e =
     (case acc of (before, after_tx, after_all) \<Rightarrow>
        (case te_stage e of
           BeforeAllTxs \<Rightarrow> (before @ [te_event e], after_tx, after_all)
         | AfterTx \<Rightarrow> (before, after_tx @ [te_event e], after_all)
         | AfterAllTxs \<Rightarrow> (before, after_tx, after_all @ [te_event e])))"

definition meta_events :: "'ev transaction_meta \<Rightarrow> 'ev list" where
  "meta_events meta =
     (case meta of
        MetaV3 soroban \<Rightarrow> unwrap_or [] soroban
      | MetaV4 events operations \<Rightarrow>
          (case foldl sort_stage ([], [], []) events of
             (before, after_tx, after_all) \<Rightarrow> before @ concat operations @ after_tx @ after_all)
      | _ \<Rightarrow> [])"

definition extract_contract_events :: "'ev tx_codec \<Rightarrow> string option \<Rightarrow> string list" where
  "extract_contract_events X result_meta_xdr =
     (case result_meta_xdr of
        None \<Rightarrow> []
      | Some encoded \<Rightarrow>
          (case tc_base64_decode X encoded of
             None \<Rightarrow> []
           | Some raw \<Rightarrow>
               (case tc_meta_from_xdr X raw of
                  None \<Rightarrow> []
                | Some meta \<Rightarrow> map (tc_base64_encode X) (List.map_filter (tc_event_to_xdr X) (meta_events meta)))))"

section \<open>Error codes\<close>

definition describe_invoke_result :: "invoke_result \<Rightarrow> string" where
  "describe_invoke_result r =
     (case r of
        InvokeSuccess \<Rightarrow> ''invoke_host_function_success''
      | InvokeMalformed \<Rightarrow> ''invoke_host_function_malformed''
      | InvokeTrapped \<Rightarrow> ''invoke_host_function_trapped''
      | InvokeResourceLimitExceeded \<Rightarrow> ''invoke_host_function_resource_limit_exceeded''
      | InvokeEntryArchived \<Rightarrow> ''invoke_host_function_entry_archived''
      | InvokeInsufficientRefundableFee \<Rightarrow> ''invoke_host_function_insufficient_refundable_fee'')"

definition describe_operation_result :: "operation_result \<Rightarrow> string option" where
  "describe_operation_result op =
     (case op of
        OpInvokeHostFunction r \<Rightarrow> Some (describe_invoke_result r)
      | OpInner \<Rightarrow> None
      | OpBadAuth \<Rightarrow> Some ''op_bad_auth''
      | OpNoAccount \<Rightarrow> Some ''op_no_account''
      | OpNotSupported \<Rightarrow> Some ''op_not_supported''
      | OpTooManySubentries \<Rightarrow> Some ''op_too_many_subentries''
      | OpExceededWorkLimit \<Rightarrow> Some ''op_exceeded_work_limit''
      | OpTooManySponsoring \<Rightarrow> Some ''op_too_many_sponsoring'')"

definition describe_failed_ops :: "operation_result list \<Rightarrow> string" where
  "describe_failed_ops ops =
     unwrap_or ''tx_failed''
       (find (\<lambda>code. code \<noteq> ''invoke_host_function_success'') (List.map_filter describe_operation_result ops))"

definition describe_code :: "result_code \<Rightarrow> string" where
  "describe_code r =
     (case r of
        TxSuccess \<Rightarrow> ''tx_success''
      | TxFailed ops \<Rightarrow> describe_failed_ops ops
      | TxTooEarly \<Rightarrow> ''tx_too_early''
      | TxTooLate \<Rightarrow> ''tx_too_late''
      | TxMissingOperation \<Rightarrow> ''tx_missing_operation''
      | TxBadSeq \<Rightarrow> ''tx_bad_seq''
      | TxBadAuth \<Rightarrow> ''tx_bad_auth''
      | TxInsufficientBalance \<Rightarrow> ''tx_insufficient_balance''
      | TxNoAccount \<Rightarrow> ''tx_no_account''
      | TxInsufficientFee \<Rightarrow> ''tx_insufficient_fee''
      | TxBadAuthExtra \<Rightarrow> ''tx_bad_auth_extra''
      | TxInternalError \<Rightarrow> ''tx_internal_error''
      | TxNotSupported \<Rightarrow> ''tx_not_supported''
      | TxBadSponsorship \<Rightarrow> ''tx_bad_sponsorship''
      | TxBadMinSeqAgeOrGap \<Rightarrow> ''tx_bad_min_seq_age_or_gap''
      | TxMalformed \<Rightarrow> ''tx_malformed''
      | TxSorobanInvalid \<Rightarrow> ''tx_soroban_invalid''
      | TxFrozenKeyAccessed \<Rightarrow> ''tx_frozen_key_accessed'')"

definition describe_transaction_result :: "transaction_result \<Rightarrow> string" where
  "describe_transaction_result r =
     (case r of
        FeeBumpInnerSuccess c \<Rightarrow> describe_code c
      | FeeBumpInnerFailed c \<Rightarrow> describe_code c
      | PlainResult c \<Rightarrow> describe_code c)"

definition decode_transaction_result_code :: "'ev tx_codec \<Rightarrow> string \<Rightarrow> string option" where
  "decode_transaction_result_code X encoded =
     (case tc_base64_decode X encoded of
        None \<Rightarrow> None
      | Some raw \<Rightarrow> map_option describe_transaction_result (tc_result_from_xdr X raw))"

section \<open>Responses and results\<close>

record send_response =
  sn_hash :: string
  sn_status :: string
  sn_latest_ledger :: "string option"
  sn_latest_ledger_close_time :: "string option"
  sn_error_result_xdr :: "string option"
  sn_diagnostic_events :: "string list"
  sn_error_result :: "string option"

datatype transaction_status = TxPending | TxSettledSuccess | TxSettledFailed | TxNotFound

definition status_from_str :: "string \<Rightarrow> transaction_status" where
  "status_from_str s =
     (let l = to_ascii_lowercase s in
      if l = ''success'' then TxSettledSuccess
      else if l = ''failed'' \<or> l = ''error'' then TxSettledFailed
      else if l = ''not_found'' then TxNotFound
      else TxPending)"

record status_response =
  gt_status :: string
  gt_latest_ledger :: "string option"
  gt_latest_ledger_close_time :: "string option"
  gt_oldest_ledger :: "string option"
  gt_oldest_ledger_close_time :: "string option"
  gt_application_order :: "nat option"
  gt_envelope_xdr :: "string option"
  gt_result_xdr :: "string option"
  gt_result_meta_xdr :: "string option"
  gt_error :: "string option"

definition status_enum :: "status_response \<Rightarrow> transaction_status" where
  "status_enum res = status_from_str (gt_status res)"

record submission_result =
  sub_hash :: string
  sub_status :: transaction_status
  sub_result_xdr :: "string option"
  sub_events :: "string list"
  sub_latest_ledger :: "string option"
  sub_error_code :: "string option"
  sub_error_result_xdr :: "string option"
  sub_diagnostic_events :: "string list"

text \<open>Durations are in milliseconds.\<close>

record poll_config =
  po_timeout :: nat
  po_interval :: nat

definition default_poll_config :: poll_config where
  "default_poll_config = \<lparr>po_timeout = 60 * 1000, po_interval = 1000\<rparr>"

section \<open>Submitting and polling\<close>

record 'w submit_client = "'w ledger_client" +
  su_send :: "string \<Rightarrow> ('w, send_response) post"
  su_get_transaction :: "string \<Rightarrow> ('w, status_response) post"

definition send_transaction ::
  "('w, 'z) submit_client_scheme \<Rightarrow> string \<Rightarrow> ('w, send_response, rpc_error) io" where
  "send_transaction C envelope =
     (if trim envelope = [] then io_return (Err (RpcMessage ''Transaction envelope is empty''))
      else request C (su_send C envelope))"

definition get_transaction_status ::
  "('w, 'z) submit_client_scheme \<Rightarrow> string \<Rightarrow> ('w, status_response, rpc_error) io" where
  "get_transaction_status C hash = request C (su_get_transaction C hash)"

definition settled_error_code :: "'ev tx_codec \<Rightarrow> status_response \<Rightarrow> string" where
  "settled_error_code X res =
     (case gt_error res of
        Some e \<Rightarrow>
          (if trim e \<noteq> [] then trim e
           else unwrap_or ''tx_failed'' (Option.bind (gt_result_xdr res) (decode_transaction_result_code X)))
      | None \<Rightarrow> unwrap_or ''tx_failed'' (Option.bind (gt_result_xdr res) (decode_transaction_result_code X)))"

definition settled_success :: "'ev tx_codec \<Rightarrow> string \<Rightarrow> status_response \<Rightarrow> submission_result" where
  "settled_success X hash res =
     \<lparr>sub_hash = hash, sub_status = TxSettledSuccess, sub_result_xdr = gt_result_xdr res,
      sub_events = extract_contract_events X (gt_result_meta_xdr res), sub_latest_ledger = gt_latest_ledger res,
      sub_error_code = None, sub_error_result_xdr = None, sub_diagnostic_events = []\<rparr>"

definition settled_failure :: "'ev tx_codec \<Rightarrow> string \<Rightarrow> status_response \<Rightarrow> submission_result" where
  "settled_failure X hash res =
     \<lparr>sub_hash = hash, sub_status = TxSettledFailed, sub_result_xdr = gt_result_xdr res, sub_events = [],
      sub_latest_ledger = gt_latest_ledger res, sub_error_code = Some (settled_error_code X res),
      sub_error_result_xdr = gt_result_xdr res,
      sub_diagnostic_events = extract_contract_events X (gt_result_meta_xdr res)\<rparr>"

definition poll_timed_out :: "string \<Rightarrow> poll_config \<Rightarrow> rpc_error" where
  "poll_timed_out hash cfg =
     RpcMessage (''Transaction polling timed out after '' @ show_nat (po_timeout cfg div 1000) @
       ''s (hash: '' @ hash @ '')'')"

text \<open>One round: what the loop returns, or nothing when it sleeps and goes on.\<close>

definition poll_round ::
  "('w, 'z) submit_client_scheme \<Rightarrow> 'ev tx_codec \<Rightarrow> string \<Rightarrow> poll_config \<Rightarrow> nat \<Rightarrow> 'w \<Rightarrow>
   'w \<times> (submission_result, rpc_error) result option" where
  "poll_round C X hash cfg start w =
     (case get_transaction_status C hash w of
        (w1, Ok res) \<Rightarrow>
          (case status_enum res of
             TxSettledSuccess \<Rightarrow> (w1, Some (Ok (settled_success X hash res)))
           | TxSettledFailed \<Rightarrow> (w1, Some (Ok (settled_failure X hash res)))
           | _ \<Rightarrow>
               if po_timeout cfg \<le> ck_now C w1 - start then (w1, Some (Err (poll_timed_out hash cfg)))
               else (ck_sleep C (po_interval cfg) w1, None))
      | (w1, Err e) \<Rightarrow> (w1, Some (Err e))
      | (w1, Panic) \<Rightarrow> (w1, Some Panic))"

fun poll_loop ::
  "nat \<Rightarrow> ('w, 'z) submit_client_scheme \<Rightarrow> 'ev tx_codec \<Rightarrow> string \<Rightarrow> poll_config \<Rightarrow> nat \<Rightarrow> 'w \<Rightarrow>
   ('w \<times> (submission_result, rpc_error) result) option" where
  "poll_loop 0 C X hash cfg start w = None"
| "poll_loop (Suc fuel) C X hash cfg start w =
     (case poll_round C X hash cfg start w of
        (w1, Some out) \<Rightarrow> Some (w1, out)
      | (w1, None) \<Rightarrow> poll_loop fuel C X hash cfg start w1)"

definition poll_transaction ::
  "nat \<Rightarrow> ('w, 'z) submit_client_scheme \<Rightarrow> 'ev tx_codec \<Rightarrow> string \<Rightarrow> poll_config \<Rightarrow> 'w \<Rightarrow>
   ('w \<times> (submission_result, rpc_error) result) option" where
  "poll_transaction fuel C X hash cfg w = poll_loop fuel C X hash cfg (ck_now C w) w"

definition rejected_result :: "send_response \<Rightarrow> submission_result" where
  "rejected_result sent =
     \<lparr>sub_hash = sn_hash sent, sub_status = TxSettledFailed, sub_result_xdr = None, sub_events = [],
      sub_latest_ledger = sn_latest_ledger sent, sub_error_code = sn_error_result sent,
      sub_error_result_xdr = sn_error_result_xdr sent, sub_diagnostic_events = sn_diagnostic_events sent\<rparr>"

definition pending_result :: "string \<Rightarrow> submission_result" where
  "pending_result hash =
     \<lparr>sub_hash = hash, sub_status = TxPending, sub_result_xdr = None, sub_events = [], sub_latest_ledger = None,
      sub_error_code = None, sub_error_result_xdr = None, sub_diagnostic_events = []\<rparr>"

definition submit_and_wait ::
  "nat \<Rightarrow> ('w, 'z) submit_client_scheme \<Rightarrow> 'ev tx_codec \<Rightarrow> string \<Rightarrow> bool \<Rightarrow> poll_config \<Rightarrow> 'w \<Rightarrow>
   ('w \<times> (submission_result, rpc_error) result) option" where
  "submit_and_wait fuel C X envelope wait cfg w =
     (case send_transaction C envelope w of
        (w1, Ok sent) \<Rightarrow>
          (if eq_ignore_ascii_case (sn_status sent) ''ERROR'' then Some (w1, Ok (rejected_result sent))
           else if \<not> wait then Some (w1, Ok (pending_result (sn_hash sent)))
           else poll_transaction fuel C X (sn_hash sent) cfg w1)
      | (w1, Err e) \<Rightarrow> Some (w1, Err e)
      | (w1, Panic) \<Rightarrow> Some (w1, Panic))"

section \<open>Events in the order of their stages\<close>

lemma sort_stage_filters:
  "foldl sort_stage (b, t, a) es =
     (b @ map te_event (filter (\<lambda>e. te_stage e = BeforeAllTxs) es),
      t @ map te_event (filter (\<lambda>e. te_stage e = AfterTx) es),
      a @ map te_event (filter (\<lambda>e. te_stage e = AfterAllTxs) es))"
proof (induction es arbitrary: b t a)
  case (Cons e es)
  show ?case by (cases "te_stage e") (simp_all add: sort_stage_def [of "(b, t, a)" e] Cons.IH)
qed simp

text \<open>The events before the transactions, those of the operations, those after, nothing lost.\<close>

lemma meta_events_V4:
  "meta_events (MetaV4 es ops) =
     map te_event (filter (\<lambda>e. te_stage e = BeforeAllTxs) es) @ concat ops @
     map te_event (filter (\<lambda>e. te_stage e = AfterTx) es) @ map te_event (filter (\<lambda>e. te_stage e = AfterAllTxs) es)"
  by (simp add: meta_events_def sort_stage_filters)

lemma meta_events_complete: "mset (meta_events (MetaV4 es ops)) = mset (map te_event es) + mset (concat ops)"
proof -
  have "mset es = mset (filter (\<lambda>e. te_stage e = BeforeAllTxs) es) + mset (filter (\<lambda>e. te_stage e = AfterTx) es) +
      mset (filter (\<lambda>e. te_stage e = AfterAllTxs) es)"
  proof (induction es)
    case (Cons e es)
    then show ?case by (cases "te_stage e") simp_all
  qed simp
  from arg_cong [OF this, of "image_mset te_event"] show ?thesis by (simp add: meta_events_V4 ac_simps)
qed

section \<open>Error codes are never empty\<close>

lemma describe_operation_nonempty: "describe_operation_result op = Some s \<Longrightarrow> s \<noteq> []"
  by (auto simp: describe_operation_result_def describe_invoke_result_def
      split: operation_result.splits invoke_result.splits)

lemma describe_failed_ops_nonempty: "describe_failed_ops ops \<noteq> []"
proof (cases "find (\<lambda>code. code \<noteq> ''invoke_host_function_success'') (List.map_filter describe_operation_result ops)")
  case (Some code)
  then have "code \<in> set (List.map_filter describe_operation_result ops)" by (auto simp: find_Some_iff)
  then show ?thesis
    using Some describe_operation_nonempty by (auto simp: describe_failed_ops_def set_map_filter)
qed (simp add: describe_failed_ops_def)

lemma describe_code_nonempty: "describe_transaction_result r \<noteq> []"
proof -
  have "describe_code c \<noteq> []" for c
    by (cases c) (simp_all add: describe_code_def describe_failed_ops_nonempty)
  then show ?thesis by (simp add: describe_transaction_result_def split: transaction_result.split)
qed

lemma settled_error_code_nonempty: "settled_error_code X res \<noteq> []"
proof -
  have "unwrap_or ''tx_failed'' (Option.bind o1 (decode_transaction_result_code X)) \<noteq> []" for o1
    by (cases "Option.bind o1 (decode_transaction_result_code X)")
      (auto simp: decode_transaction_result_code_def describe_code_nonempty split: option.splits Option.bind_splits)
  then show ?thesis by (simp add: settled_error_code_def split: option.split)
qed

section \<open>The wait ends\<close>

text \<open>The rounds of the loop that found the transaction unsettled and slept.\<close>

inductive keeps_waiting ::
  "('w, 'z) submit_client_scheme \<Rightarrow> 'ev tx_codec \<Rightarrow> string \<Rightarrow> poll_config \<Rightarrow> nat \<Rightarrow> 'w \<Rightarrow> 'w \<Rightarrow> bool"
  for C X hash cfg start where
  sleeps_on: "poll_round C X hash cfg start w = (w1, None) \<Longrightarrow> keeps_waiting C X hash cfg start w w1"

text \<open>A clock that a pause moves by its length at least, and that a request does not turn back.\<close>

definition clock_advances :: "('w, 'z) submit_client_scheme \<Rightarrow> bool" where
  "clock_advances C \<longleftrightarrow>
     (\<forall>d w. ck_now C w + d \<le> ck_now C (ck_sleep C d w)) \<and>
     (\<forall>hash w. ck_now C w \<le> ck_now C (fst (su_get_transaction C hash w)))"

lemma request_advances:
  assumes post: "\<forall>w. ck_now C w \<le> ck_now C (fst (post w))"
    and pause: "\<forall>d w. ck_now C w + d \<le> ck_now C (ck_sleep C d w)"
  shows "ck_now C w \<le> ck_now C (fst (request C post w))"
proof -
  obtain w1 r1 where first: "post w = (w1, r1)" by (cases "post w")
  obtain w2 r2 where second: "post (ck_sleep C 500 w1) = (w2, r2)" by (cases "post (ck_sleep C 500 w1)")
  have t1: "ck_now C w \<le> ck_now C w1" using post [rule_format, of w] first by simp
  have t2: "ck_now C w1 + 500 \<le> ck_now C (ck_sleep C 500 w1)" using pause by blast
  have t3: "ck_now C (ck_sleep C 500 w1) \<le> ck_now C w2"
    using post [rule_format, of "ck_sleep C 500 w1"] second by simp
  have t4: "ck_now C w2 + 500 \<le> ck_now C (ck_sleep C 500 w2)" using pause by blast
  show ?thesis using first second t1 t2 t3 t4 by (simp add: request_attempts split: sum.split)
qed

lemma poll_round_None:
  assumes "poll_round C X hash cfg start w = (w1, None)" and "clock_advances C"
  shows "ck_now C w + po_interval cfg \<le> ck_now C w1" and "ck_now C w - start < po_timeout cfg"
proof -
  obtain v res where status: "get_transaction_status C hash w = (v, Ok res)"
    and early: "ck_now C v - start < po_timeout cfg" and w1: "w1 = ck_sleep C (po_interval cfg) v"
    using assms(1) by (auto simp: poll_round_def split: prod.splits result.splits transaction_status.splits if_splits)
  have "ck_now C w \<le> ck_now C v"
    using request_advances [of C "su_get_transaction C hash" w] assms(2) status
    by (simp add: clock_advances_def get_transaction_status_def)
  moreover have "ck_now C v + po_interval cfg \<le> ck_now C w1" using assms(2) w1 by (simp add: clock_advances_def)
  ultimately show "ck_now C w + po_interval cfg \<le> ck_now C w1" "ck_now C w - start < po_timeout cfg"
    using early by linarith+
qed

lemma poll_loop_returns:
  assumes "clock_advances C" and "start \<le> ck_now C w"
    and "po_timeout cfg \<le> ck_now C w - start + po_interval cfg * fuel"
  shows "\<exists>r. poll_loop (Suc fuel) C X hash cfg start w = Some r"
  using assms(2,3)
proof (induction fuel arbitrary: w)
  case 0
  then show ?case using poll_round_None(2) [OF _ assms(1)]
    by (fastforce split: prod.split option.split)
next
  case (Suc fuel)
  obtain w1 out where round: "poll_round C X hash cfg start w = (w1, out)"
    by (cases "poll_round C X hash cfg start w")
  show ?case
  proof (cases out)
    case None
    then have "ck_now C w + po_interval cfg \<le> ck_now C w1"
      using poll_round_None(1) [OF _ assms(1)] round by simp
    then show ?thesis using Suc.IH [of w1] Suc.prems round None by simp
  qed (simp add: round)
qed

lemma poll_loop_last:
  "poll_loop fuel C X hash cfg start w = Some (w', out) \<Longrightarrow>
     \<exists>v. (keeps_waiting C X hash cfg start)\<^sup>*\<^sup>* w v \<and> poll_round C X hash cfg start v = (w', Some out)"
proof (induction fuel arbitrary: w)
  case (Suc fuel)
  obtain w1 out1 where round: "poll_round C X hash cfg start w = (w1, out1)"
    by (cases "poll_round C X hash cfg start w")
  show ?case
  proof (cases out1)
    case None
    then obtain v where "(keeps_waiting C X hash cfg start)\<^sup>*\<^sup>* w1 v"
      "poll_round C X hash cfg start v = (w', Some out)"
      using Suc.IH [of w1] Suc.prems round by auto
    then show ?thesis using round None by (meson converse_rtranclp_into_rtranclp sleeps_on)
  qed (use Suc.prems round in auto)
qed simp

lemma poll_round_Some:
  assumes "poll_round C X hash cfg start w = (w', Some out)"
  shows "(\<exists>res. get_transaction_status C hash w = (w', Ok res) \<and>
      (status_enum res = TxSettledSuccess \<and> out = Ok (settled_success X hash res) \<or>
       status_enum res = TxSettledFailed \<and> out = Ok (settled_failure X hash res) \<or>
       status_enum res \<in> {TxPending, TxNotFound} \<and> po_timeout cfg \<le> ck_now C w' - start \<and>
         out = Err (poll_timed_out hash cfg))) \<or>
    (\<exists>e. get_transaction_status C hash w = (w', Err e) \<and> out = Err e)"
  using assms request_cases(1) [of C "su_get_transaction C hash" w]
  by (auto simp: poll_round_def get_transaction_status_def
      split: prod.splits result.splits transaction_status.splits if_splits)

text \<open>
  What the three outcomes of a submission rest on. A success was reported by the node for the hash it
  had given to this envelope, after rounds of waiting that found the transaction unsettled.
\<close>

definition settled_as ::
  "('w, 'z) submit_client_scheme \<Rightarrow> 'ev tx_codec \<Rightarrow> string \<Rightarrow> poll_config \<Rightarrow> 'w \<Rightarrow> 'w \<Rightarrow> status_response \<Rightarrow> bool" where
  "settled_as C X hash cfg w w' res \<longleftrightarrow>
     (\<exists>v. (keeps_waiting C X hash cfg (ck_now C w))\<^sup>*\<^sup>* w v \<and> get_transaction_status C hash v = (w', Ok res))"

definition report_backed ::
  "('w, 'z) submit_client_scheme \<Rightarrow> 'ev tx_codec \<Rightarrow> string \<Rightarrow> bool \<Rightarrow> poll_config \<Rightarrow> 'w \<Rightarrow> 'w \<Rightarrow>
   submission_result \<Rightarrow> bool" where
  "report_backed C X envelope wait cfg w w' r \<longleftrightarrow>
     (\<exists>w1 sent. send_transaction C envelope w = (w1, Ok sent) \<and> sub_hash r = sn_hash sent \<and>
       (case sub_status r of
          TxPending \<Rightarrow> \<not> wait
        | TxNotFound \<Rightarrow> False
        | TxSettledSuccess \<Rightarrow> wait \<and>
            (\<exists>res. settled_as C X (sn_hash sent) cfg w1 w' res \<and> status_enum res = TxSettledSuccess)
        | TxSettledFailed \<Rightarrow> r = rejected_result sent \<or>
            wait \<and> (\<exists>res code. settled_as C X (sn_hash sent) cfg w1 w' res \<and>
              status_enum res = TxSettledFailed \<and> sub_error_code r = Some code \<and> code \<noteq> [])))"

definition error_backed ::
  "('w, 'z) submit_client_scheme \<Rightarrow> 'ev tx_codec \<Rightarrow> string \<Rightarrow> poll_config \<Rightarrow> 'w \<Rightarrow> 'w \<Rightarrow> rpc_error \<Rightarrow> bool" where
  "error_backed C X envelope cfg w w' e \<longleftrightarrow>
     send_transaction C envelope w = (w', Err e) \<or>
     (\<exists>w1 sent v. send_transaction C envelope w = (w1, Ok sent) \<and>
        (keeps_waiting C X (sn_hash sent) cfg (ck_now C w1))\<^sup>*\<^sup>* w1 v \<and>
        (get_transaction_status C (sn_hash sent) v = (w', Err e) \<or>
         (\<exists>res. get_transaction_status C (sn_hash sent) v = (w', Ok res) \<and>
           status_enum res \<in> {TxPending, TxNotFound} \<and> po_timeout cfg \<le> ck_now C w' - ck_now C w1 \<and>
           e = poll_timed_out (sn_hash sent) cfg)))"

lemma unwaited_backed:
  assumes send: "send_transaction C envelope w = (w1, Ok sent)"
  shows "report_backed C X envelope wait cfg w w1 (rejected_result sent)"
    and "\<not> wait \<Longrightarrow> report_backed C X envelope wait cfg w w1 (pending_result (sn_hash sent))"
  using send by (simp_all add: report_backed_def rejected_result_def pending_result_def)

lemma waited_backed:
  assumes send: "send_transaction C envelope w = (w1, Ok sent)" and "wait"
    and waits: "(keeps_waiting C X (sn_hash sent) cfg (ck_now C w1))\<^sup>*\<^sup>* w1 v"
    and round: "poll_round C X (sn_hash sent) cfg (ck_now C w1) v = (w', Some out)"
  shows "out \<noteq> Panic \<and> (\<forall>r. out = Ok r \<longrightarrow> report_backed C X envelope wait cfg w w' r) \<and>
    (\<forall>e. out = Err e \<longrightarrow> error_backed C X envelope cfg w w' e)"
proof -
  consider (success) res where "get_transaction_status C (sn_hash sent) v = (w', Ok res)"
      "status_enum res = TxSettledSuccess" "out = Ok (settled_success X (sn_hash sent) res)"
    | (failed) res where "get_transaction_status C (sn_hash sent) v = (w', Ok res)"
      "status_enum res = TxSettledFailed" "out = Ok (settled_failure X (sn_hash sent) res)"
    | (late) res where "get_transaction_status C (sn_hash sent) v = (w', Ok res)"
      "status_enum res \<in> {TxPending, TxNotFound}" "po_timeout cfg \<le> ck_now C w' - ck_now C w1"
      "out = Err (poll_timed_out (sn_hash sent) cfg)"
    | (broken) e where "get_transaction_status C (sn_hash sent) v = (w', Err e)" "out = Err e"
    using poll_round_Some [OF round] by blast
  then show ?thesis
  proof cases
    case success
    then have "settled_as C X (sn_hash sent) cfg w1 w' res" using waits unfolding settled_as_def by blast
    then show ?thesis using success send \<open>wait\<close> by (auto simp: report_backed_def settled_success_def)
  next
    case failed
    then have "settled_as C X (sn_hash sent) cfg w1 w' res" using waits unfolding settled_as_def by blast
    then show ?thesis using failed send \<open>wait\<close> settled_error_code_nonempty
      by (auto simp: report_backed_def settled_failure_def)
  next
    case late
    then show ?thesis using send waits unfolding error_backed_def by blast
  next
    case broken
    then show ?thesis using send waits unfolding error_backed_def by blast
  qed
qed

lemma submit_and_wait_backed:
  assumes run: "submit_and_wait fuel C X envelope wait cfg w = Some (w', out)"
  shows "out \<noteq> Panic \<and> (\<forall>r. out = Ok r \<longrightarrow> report_backed C X envelope wait cfg w w' r) \<and>
    (\<forall>e. out = Err e \<longrightarrow> error_backed C X envelope cfg w w' e)"
proof -
  obtain w1 reply where send: "send_transaction C envelope w = (w1, reply)"
    by (cases "send_transaction C envelope w")
  show ?thesis
  proof (cases reply)
    case (Ok sent)
    note sent = send [unfolded Ok]
    show ?thesis
    proof (cases "eq_ignore_ascii_case (sn_status sent) ''ERROR'' \<or> \<not> wait")
      case True
      then show ?thesis using unwaited_backed [OF sent] sent run
        by (auto simp: submit_and_wait_def split: if_splits)
    next
      case False
      then have loop: "poll_loop fuel C X (sn_hash sent) cfg (ck_now C w1) w1 = Some (w', out)"
        using run sent by (simp add: submit_and_wait_def poll_transaction_def)
      obtain v where "(keeps_waiting C X (sn_hash sent) cfg (ck_now C w1))\<^sup>*\<^sup>* w1 v"
        "poll_round C X (sn_hash sent) cfg (ck_now C w1) v = (w', Some out)"
        using poll_loop_last [OF loop] by auto
      then show ?thesis using waited_backed [OF sent] False by simp
    qed
  next
    case (Err e)
    then show ?thesis using send run by (auto simp: submit_and_wait_def error_backed_def)
  next
    case Panic
    then show ?thesis using send request_cases(1) [of C "su_send C envelope" w]
      by (auto simp: send_transaction_def split: if_splits)
  qed
qed

lemma submit_and_wait_returns:
  assumes "clock_advances C" and "0 < po_interval cfg" and "po_timeout cfg div po_interval cfg + 2 \<le> fuel"
  shows "\<exists>w' out. submit_and_wait fuel C X envelope wait cfg w = Some (w', out)"
proof -
  obtain n where n: "fuel = Suc n" "po_timeout cfg div po_interval cfg + 1 \<le> n" using assms(3) by (cases fuel) auto
  have "po_timeout cfg \<le> po_interval cfg * n"
    using n(2) assms(2) by (metis Suc_eq_plus1 div_less_iff_less_mult less_eq_Suc_le less_imp_le_nat mult.commute)
  then have "\<exists>r. poll_loop fuel C X hash cfg (ck_now C w1) w1 = Some r" for hash w1
    using poll_loop_returns [OF assms(1), of "ck_now C w1" w1 cfg n X hash] n(1) by auto
  then show ?thesis
    by (auto simp: submit_and_wait_def poll_transaction_def split: prod.split result.split)
qed


text \<open>A node that knows the result after some requests, over a clock in milliseconds.\<close>

definition demo_codec :: "string tx_codec" where
  "demo_codec =
     \<lparr>tc_base64_decode = Some, tc_base64_encode = (\<lambda>s. s),
      tc_meta_from_xdr = (\<lambda>s. Some (MetaV4 [\<lparr>te_stage = AfterTx, te_event = ''refund''\<rparr>,
        \<lparr>te_stage = BeforeAllTxs, te_event = ''fee''\<rparr>] [[s]])),
      tc_result_from_xdr = (\<lambda>_. Some (PlainResult (TxFailed [OpInvokeHostFunction InvokeTrapped]))),
      tc_event_to_xdr = Some\<rparr>"

definition demo_status :: "string \<Rightarrow> status_response" where
  "demo_status s =
     \<lparr>gt_status = s, gt_latest_ledger = None, gt_latest_ledger_close_time = None, gt_oldest_ledger = None,
      gt_oldest_ledger_close_time = None, gt_application_order = None, gt_envelope_xdr = None,
      gt_result_xdr = Some ''result'', gt_result_meta_xdr = Some ''transfer'', gt_error = None\<rparr>"

definition demo_submit :: "string \<Rightarrow> nat \<Rightarrow> nat submit_client" where
  "demo_submit verdict settled_at =
     \<lparr>ck_now = (\<lambda>w. w), ck_sleep = (\<lambda>d w. w + d),
      lc_get_entries = (\<lambda>keys w. (w, SendFailed False ''unused'')),
      su_send = (\<lambda>envelope w. (w + 10, HttpReply 200 (Inr \<lparr>jr_result = Some \<lparr>sn_hash = ''h'' @ envelope,
        sn_status = ''PENDING'', sn_latest_ledger = None, sn_latest_ledger_close_time = None,
        sn_error_result_xdr = None, sn_diagnostic_events = [], sn_error_result = None\<rparr>, jr_error = None\<rparr>))),
      su_get_transaction = (\<lambda>hash w. (w + 10, HttpReply 200 (Inr
        \<lparr>jr_result = Some (demo_status (if settled_at \<le> w then verdict else ''NOT_FOUND'')), jr_error = None\<rparr>)))\<rparr>"

lemma demo_submit_clock: "clock_advances (demo_submit verdict t)"
  by (simp add: clock_advances_def demo_submit_def)

lemma demo_submit_run:
  "submit_and_wait 7 (demo_submit ''SUCCESS'' 50) demo_codec ''tx'' True \<lparr>po_timeout = 100, po_interval = 20\<rparr> 0 =
     Some (80, Ok (settled_success demo_codec ''htx'' (demo_status ''SUCCESS'')))"
  by code_simp


end
