(* ===== verification/Contract_Deploy.thy ===== *)
theory Contract_Deploy
  imports Submission
begin

text \<open>
  The deployment of a contract in two transactions, \<^verbatim>\<open>sdkt-rpc/src/deploy.rs\<close>, with the simulation of a
  transaction (\<^verbatim>\<open>simulate.rs\<close>) and the sequence number of an account (\<^verbatim>\<open>account.rs\<close>). Building, decoding
  and signing XDR (\<^verbatim>\<open>sdkt-xdr\<close>), the metadata of a module and hexadecimal text are the fields of the
  record \<open>deploy_tools\<close>; each may fail with a text. Arithmetic is checked: an overflow is a panic.
\<close>

section \<open>Computations that may run out of fuel\<close>

text \<open>The polling of a submission has fuel, so a deployment is a computation whose \<open>None\<close> is too little of it.\<close>

type_synonym ('w, 'a, 'e) run = "'w \<Rightarrow> ('w \<times> ('a, 'e) result) option"

definition run_io :: "('w, 'a, 'e) io \<Rightarrow> ('w, 'a, 'e) run" where
  "run_io m = (\<lambda>w. Some (m w))"

definition run_bind :: "('w, 'a, 'e) run \<Rightarrow> ('a \<Rightarrow> ('w, 'b, 'e) run) \<Rightarrow> ('w, 'b, 'e) run" where
  "run_bind m f =
     (\<lambda>w. case m w of
        None \<Rightarrow> None
      | Some (w1, Ok x) \<Rightarrow> f x w1
      | Some (w1, Err e) \<Rightarrow> Some (w1, Err e)
      | Some (w1, Panic) \<Rightarrow> Some (w1, Panic))"

text \<open>\<^verbatim>\<open>match m { Ok(x) => f(x), Err(e) => g(e) }\<close>.\<close>

definition run_match ::
  "('w, 'a, 'e) run \<Rightarrow> ('a \<Rightarrow> ('w, 'b, 'f) run) \<Rightarrow> ('e \<Rightarrow> ('w, 'b, 'f) run) \<Rightarrow> ('w, 'b, 'f) run" where
  "run_match m f g =
     (\<lambda>w. case m w of
        None \<Rightarrow> None
      | Some (w1, Ok x) \<Rightarrow> f x w1
      | Some (w1, Err e) \<Rightarrow> g e w1
      | Some (w1, Panic) \<Rightarrow> Some (w1, Panic))"

definition run_result :: "('a, 'e) result \<Rightarrow> ('w, 'a, 'e) run" where
  "run_result r = (\<lambda>w. Some (w, r))"

text \<open>\<^verbatim>\<open>map_err(|e| RpcError::Rpc(format!("prefix: {}", e)))?\<close>.\<close>

definition or_message :: "string \<Rightarrow> string + 'a \<Rightarrow> ('a, rpc_error) result" where
  "or_message prefix r = (case r of Inl e \<Rightarrow> Err (RpcMessage (prefix @ e)) | Inr x \<Rightarrow> Ok x)"

lemma run_bind_Ok:
  "run_bind m f w = Some (w', Ok y) \<longleftrightarrow> (\<exists>w1 x. m w = Some (w1, Ok x) \<and> f x w1 = Some (w', Ok y))"
  by (auto simp: run_bind_def split: option.splits prod.splits result.splits)

lemma run_bind_OkE:
  assumes "run_bind m f w = Some (w', Ok y)"
  obtains w1 x where "m w = Some (w1, Ok x)" and "f x w1 = Some (w', Ok y)"
  using assms run_bind_Ok by metis

lemma run_result_Ok [simp]: "run_result r w = Some (w', Ok y) \<longleftrightarrow> w' = w \<and> r = Ok y"
  by (auto simp: run_result_def)

lemma run_io_Some [simp]: "run_io m w = Some (w', r) \<longleftrightarrow> m w = (w', r)"
  by (simp add: run_io_def)

lemma or_message_Ok [simp]: "or_message p r = Ok x \<longleftrightarrow> r = Inr x"
  by (auto simp: or_message_def split: sum.split)

section \<open>Simulation\<close>

record simulate_operation_result =
  so_auth :: "string list"
  so_xdr :: string

record simulate_response =
  si_transaction_data :: string
  si_min_resource_fee :: string
  si_results :: "simulate_operation_result list"
  si_error :: "string option"

record 'w deploy_client = "'w submit_client" +
  de_simulate :: "string \<Rightarrow> ('w, simulate_response) post"
  de_salt :: "'w \<Rightarrow> 'w \<times> string"

definition simulate_transaction ::
  "('w, 'z) deploy_client_scheme \<Rightarrow> string \<Rightarrow> ('w, simulate_response, rpc_error) io" where
  "simulate_transaction C envelope =
     (if trim envelope = [] then io_return (Err (RpcMessage ''Transaction envelope is empty''))
      else request C (de_simulate C envelope))"

section \<open>The tools and the records of a deployment\<close>

text \<open>Transactions to build; \<open>'d\<close> is Soroban transaction data, \<open>'a\<close> an authorization entry.\<close>

record upload_params =
  up_source_account :: string
  up_sequence :: int
  up_fee :: nat
  up_wasm_bytes :: string

record create_params =
  cp_source_account :: string
  cp_sequence :: int
  cp_fee :: nat
  cp_wasm_hash :: string
  cp_deployer_address :: string
  cp_salt :: string
  cp_constructor_args :: "string list"

record ('d, 'a) deploy_tools =
  dt_metadata_hash :: "string \<Rightarrow> string + string"
  dt_hex_decode :: "string \<Rightarrow> string + string"
  dt_hex_encode :: "string \<Rightarrow> string"
  dt_debug_text :: "string \<Rightarrow> string"
  dt_debug_texts :: "string list \<Rightarrow> string"
  dt_empty_data :: 'd
  dt_parse_args :: "string list \<Rightarrow> string + unit"
  dt_parse_data :: "string \<Rightarrow> string + 'd"
  dt_parse_auth :: "string list \<Rightarrow> string + 'a list"
  dt_build_upload :: "upload_params \<Rightarrow> 'd \<Rightarrow> string + string"
  dt_build_upload_auth :: "upload_params \<Rightarrow> 'd \<Rightarrow> 'a list \<Rightarrow> string + string"
  dt_build_create :: "create_params \<Rightarrow> 'd \<Rightarrow> string + string"
  dt_build_create_v2 :: "create_params \<Rightarrow> 'd \<Rightarrow> string + string"
  dt_build_create_auth :: "create_params \<Rightarrow> 'd \<Rightarrow> 'a list \<Rightarrow> string + string"
  dt_build_create_v2_auth :: "create_params \<Rightarrow> 'd \<Rightarrow> 'a list \<Rightarrow> string + string"
  dt_sign :: "string \<Rightarrow> string + string"
  dt_contract_id :: "string \<Rightarrow> string \<Rightarrow> string \<Rightarrow> string + string"
  dt_account_key :: "string \<Rightarrow> (string, rpc_error) result"
  dt_base64_decode :: "string \<Rightarrow> string + string"
  dt_account_sequence :: "string \<Rightarrow> (int, rpc_error) result"

record deploy_result =
  dr_wasm_hash :: string
  dr_contract_id :: string
  dr_upload_hash :: string
  dr_create_hash :: string
  dr_status :: string
  dr_salt :: string
  dr_upload_fee :: nat
  dr_create_fee :: nat
  dr_total_fee :: nat

record partial_deploy_result =
  pd_wasm_hash :: string
  pd_upload_hash :: string
  pd_error :: string

datatype deploy_outcome =
    DeploySuccess deploy_result
  | DeployPartial partial_deploy_result
  | DeployFailure string

definition deploy_outcome_display :: "deploy_outcome \<Rightarrow> string" where
  "deploy_outcome_display oc =
     (let line = (\<lambda>label text. CHR 0x0A # ''  '' @ label @ '': '' @ text) in
      case oc of
        DeploySuccess r \<Rightarrow>
          ''Deployment successful!'' @ line ''WASM Hash'' (dr_wasm_hash r) @ line ''Contract ID'' (dr_contract_id r) @
          line ''Upload TX'' (dr_upload_hash r) @ line ''Create TX'' (dr_create_hash r) @ line ''Salt'' (dr_salt r) @
          line ''Status'' (dr_status r) @ line ''Upload Fee'' (show_nat (dr_upload_fee r)) @
          line ''Create Fee'' (show_nat (dr_create_fee r)) @ line ''Total Fee'' (show_nat (dr_total_fee r))
      | DeployPartial p \<Rightarrow>
          ''Partial deployment: upload succeeded but create failed.'' @ line ''WASM Hash'' (pd_wasm_hash p) @
          line ''Upload TX'' (pd_upload_hash p) @ line ''Error'' (pd_error p)
      | DeployFailure e \<Rightarrow> ''Deployment failed: '' @ e)"

definition parse_wasm_hash :: "('d, 'a) deploy_tools \<Rightarrow> string \<Rightarrow> (string, rpc_error) result" where
  "parse_wasm_hash D hash_str =
     and_then (or_message ''Invalid WASM hash hex: '' (dt_hex_decode D hash_str)) (\<lambda>bytes.
       if length bytes \<noteq> 32 then Err (RpcMessage ''WASM hash must be 32 bytes'') else Ok bytes)"

text \<open>\<^verbatim>\<open>str::parse::<u64>\<close> and the conversion to \<^verbatim>\<open>u32\<close>.\<close>

definition parse_u64 :: "string \<Rightarrow> nat option" where
  "parse_u64 s =
     (let ds = (if starts_with ''+'' s then tl s else s)
      in if ds \<noteq> [] \<and> list_all is_ascii_digit ds \<and> int (digits_value ds) < 2 ^ 64 then Some (digits_value ds) else None)"

definition parse_min_resource_fee :: "('d, 'a) deploy_tools \<Rightarrow> string \<Rightarrow> (nat, rpc_error) result" where
  "parse_min_resource_fee D raw =
     (let trimmed = trim raw in
      case parse_u64 trimmed of
        None \<Rightarrow> Err (RpcMessage (''Simulation returned an invalid min_resource_fee: '' @ dt_debug_text D trimmed @
                  '' (expected a numeric stroop value)''))
      | Some v \<Rightarrow>
          if int v < 2 ^ 32 then Ok v
          else Err (RpcMessage (''Simulation min_resource_fee '' @ show_nat v @ '' exceeds the supported u32 fee range'')))"

text \<open>\<^verbatim>\<open>inclusion_fee + min_resource_fee\<close> on \<^verbatim>\<open>u32\<close>.\<close>

definition add_inclusion_fee :: "nat \<Rightarrow> (nat, rpc_error) result" where
  "add_inclusion_fee fee = (if int (100 + fee) < 2 ^ 32 then Ok (100 + fee) else Panic)"

section \<open>One transaction: simulate, price, sign, submit\<close>

definition get_next_sequence ::
  "('w, 'z) deploy_client_scheme \<Rightarrow> ('d, 'a) deploy_tools \<Rightarrow> string \<Rightarrow> ('w, int, rpc_error) run" where
  "get_next_sequence C D address =
     run_bind (run_result (dt_account_key D address)) (\<lambda>key.
     run_bind (run_io (get_contract_storage C [key])) (\<lambda>response.
       run_result
         (case st_entries response of
            [] \<Rightarrow> Err (RpcMessage ''Account not found on network'')
          | entry # _ \<Rightarrow>
              and_then (or_message ''Failed to decode account XDR: '' (dt_base64_decode D (lr_xdr entry))) (\<lambda>bytes.
              and_then (dt_account_sequence D bytes) (\<lambda>seq.
                if seq + 1 < 2 ^ 63 then Ok (seq + 1) else Panic)))))"

definition simulated_auth :: "('d, 'a) deploy_tools \<Rightarrow> simulate_response \<Rightarrow> ('a list, rpc_error) result" where
  "simulated_auth D simulation =
     (case si_results simulation of
        [] \<Rightarrow> Ok []
      | r # _ \<Rightarrow> or_message ''Failed to parse auth entries: '' (dt_parse_auth D (so_auth r)))"

text \<open>
  What a simulation gives for the final transaction: its data, its total fee and its authorization.
  The two callers differ in the name they put into the messages.
\<close>

definition read_simulation ::
  "('d, 'a) deploy_tools \<Rightarrow> string \<Rightarrow> simulate_response \<Rightarrow> ('d \<times> nat \<times> 'a list, rpc_error) result" where
  "read_simulation D name simulation =
     (case si_error simulation of
        Some e \<Rightarrow> Err (RpcMessage (name @ '' simulation error: '' @ e))
      | None \<Rightarrow>
          if si_transaction_data simulation = [] then
            Err (RpcMessage ''Simulation did not return SorobanTransactionData'')
          else
            and_then (or_message ''Failed to parse SorobanTransactionData: ''
                        (dt_parse_data D (si_transaction_data simulation))) (\<lambda>data.
            and_then (parse_min_resource_fee D (si_min_resource_fee simulation)) (\<lambda>min_fee.
            and_then (add_inclusion_fee min_fee) (\<lambda>total_fee.
            map_ok (\<lambda>auth. (data, total_fee, auth)) (simulated_auth D simulation)))))"

definition submit_failure :: "('d, 'a) deploy_tools \<Rightarrow> string \<Rightarrow> submission_result \<Rightarrow> string" where
  "submit_failure D name r =
     (let diag = (case sub_error_result_xdr r of Some xdr \<Rightarrow> '' | error_result_xdr='' @ xdr | None \<Rightarrow> []);
          events = (if sub_diagnostic_events r \<noteq> [] then
                      '' | diagnostic_events='' @ dt_debug_texts D (sub_diagnostic_events r) else [])
      in name @ '' transaction failed: code='' @ unwrap_or ''unknown'' (sub_error_code r) @ diag @ events)"

definition submit_checked ::
  "nat \<Rightarrow> ('w, 'z) deploy_client_scheme \<Rightarrow> 'ev tx_codec \<Rightarrow> ('d, 'a) deploy_tools \<Rightarrow> string \<Rightarrow> string \<Rightarrow> poll_config \<Rightarrow>
   ('w, string, rpc_error) run" where
  "submit_checked fuel C X D name signed cfg =
     run_bind (submit_and_wait fuel C X signed True cfg) (\<lambda>r.
       run_result
         (if sub_status r \<noteq> TxSettledSuccess then Err (RpcMessage (submit_failure D name r)) else Ok (sub_hash r)))"

definition upload_wasm ::
  "nat \<Rightarrow> ('w, 'z) deploy_client_scheme \<Rightarrow> 'ev tx_codec \<Rightarrow> ('d, 'a) deploy_tools \<Rightarrow> string \<Rightarrow> string \<Rightarrow> int \<Rightarrow> nat \<Rightarrow>
   poll_config \<Rightarrow> ('w, string \<times> string \<times> nat, rpc_error) run" where
  "upload_wasm fuel C X D wasm source sequence fee cfg =
     (if wasm = [] then run_result (Err (RpcMessage ''WASM bytes are empty''))
      else
        (let params = \<lparr>up_source_account = source, up_sequence = sequence, up_fee = fee, up_wasm_bytes = wasm\<rparr> in
         run_bind (run_result (or_message ''Failed to parse WASM metadata: '' (dt_metadata_hash D wasm))) (\<lambda>wasm_hash.
         run_bind (run_result (or_message ''Failed to build upload transaction: ''
                     (dt_build_upload D params (dt_empty_data D)))) (\<lambda>initial.
         run_bind (run_io (io_map_err (\<lambda>e. RpcMessage (''Upload simulation failed: '' @ rpc_error_display e))
                     (simulate_transaction C initial))) (\<lambda>simulation.
         run_bind (run_result (read_simulation D ''Upload'' simulation)) (\<lambda>(data, total_fee, auth).
         run_bind (run_result (or_message ''Failed to build final upload transaction: ''
                     (dt_build_upload_auth D (params\<lparr>up_fee := total_fee\<rparr>) data auth))) (\<lambda>final_envelope.
         run_bind (run_result (or_message ''Failed to sign upload transaction: '' (dt_sign D final_envelope))) (\<lambda>signed.
         run_bind (submit_checked fuel C X D ''Upload'' signed cfg) (\<lambda>hash.
           run_result (Ok (wasm_hash, hash, total_fee)))))))))))"

definition build_create ::
  "('d, 'a) deploy_tools \<Rightarrow> create_params \<Rightarrow> (string, rpc_error) result" where
  "build_create D params =
     (if cp_constructor_args params = [] then
        or_message ''Failed to build create transaction: '' (dt_build_create D params (dt_empty_data D))
      else or_message ''Failed to build create v2 transaction: '' (dt_build_create_v2 D params (dt_empty_data D)))"

definition build_final_create ::
  "('d, 'a) deploy_tools \<Rightarrow> create_params \<Rightarrow> 'd \<Rightarrow> 'a list \<Rightarrow> (string, rpc_error) result" where
  "build_final_create D params data auth =
     (if cp_constructor_args params = [] then
        or_message ''Failed to build final create transaction: '' (dt_build_create_auth D params data auth)
      else or_message ''Failed to build final create v2 transaction: '' (dt_build_create_v2_auth D params data auth))"

record create_contract_args =
  ca_wasm_hash :: string
  ca_deployer_address :: string
  ca_salt :: string
  ca_constructor_args :: "string list"

definition create_contract ::
  "nat \<Rightarrow> ('w, 'z) deploy_client_scheme \<Rightarrow> 'ev tx_codec \<Rightarrow> ('d, 'a) deploy_tools \<Rightarrow> create_contract_args \<Rightarrow> int \<Rightarrow> nat \<Rightarrow>
   poll_config \<Rightarrow> ('w, string \<times> string \<times> nat, rpc_error) run" where
  "create_contract fuel C X D args sequence fee cfg =
     (let params = \<lparr>cp_source_account = ca_deployer_address args, cp_sequence = sequence, cp_fee = fee,
                    cp_wasm_hash = ca_wasm_hash args, cp_deployer_address = ca_deployer_address args,
                    cp_salt = ca_salt args, cp_constructor_args = ca_constructor_args args\<rparr> in
      run_bind (run_result (build_create D params)) (\<lambda>initial.
      run_bind (run_io (io_map_err (\<lambda>e. RpcMessage (''Create simulation failed: '' @ rpc_error_display e))
                  (simulate_transaction C initial))) (\<lambda>simulation.
      run_bind (run_result (read_simulation D ''Create'' simulation)) (\<lambda>(data, total_fee, auth).
      run_bind (run_result (build_final_create D (params\<lparr>cp_fee := total_fee\<rparr>) data auth)) (\<lambda>final_envelope.
      run_bind (run_result (or_message ''Failed to sign create transaction: '' (dt_sign D final_envelope))) (\<lambda>signed.
      run_bind (submit_checked fuel C X D ''Create'' signed cfg) (\<lambda>hash.
      run_bind (run_result (or_message ''Failed to derive contract ID: ''
                  (dt_contract_id D (ca_deployer_address args) (ca_salt args) (ca_wasm_hash args)))) (\<lambda>contract_id.
        run_result (Ok (contract_id, hash, total_fee))))))))))"

section \<open>The two steps of a deployment\<close>

definition choose_salt :: "('w, 'z) deploy_client_scheme \<Rightarrow> string option \<Rightarrow> ('w, string, rpc_error) run" where
  "choose_salt C user_salt =
     (case user_salt of
        Some s \<Rightarrow> run_result (Ok s)
      | None \<Rightarrow> (\<lambda>w. case de_salt C w of (w1, s) \<Rightarrow> Some (w1, Ok s)))"

text \<open>The second step; the upload has succeeded.\<close>

definition create_after_upload ::
  "nat \<Rightarrow> ('w, 'z) deploy_client_scheme \<Rightarrow> 'ev tx_codec \<Rightarrow> ('d, 'a) deploy_tools \<Rightarrow> string \<Rightarrow> create_contract_args \<Rightarrow>
   poll_config \<Rightarrow> string \<Rightarrow> nat \<Rightarrow> ('w, deploy_outcome, rpc_error) run" where
  "create_after_upload fuel C X D hash_str cargs cfg upload_hash upload_fee =
     run_bind (get_next_sequence C D (ca_deployer_address cargs)) (\<lambda>sequence.
     run_match (create_contract fuel C X D cargs sequence 100 cfg)
       (\<lambda>(contract_id, create_hash, create_fee).
          run_result (Ok (DeploySuccess
            \<lparr>dr_wasm_hash = hash_str, dr_contract_id = contract_id, dr_upload_hash = upload_hash,
             dr_create_hash = create_hash, dr_status = ''SUCCESS'', dr_salt = dt_hex_encode D (ca_salt cargs),
             dr_upload_fee = upload_fee, dr_create_fee = create_fee,
             dr_total_fee = upload_fee + create_fee\<rparr>)))
       (\<lambda>e. run_result (Ok (DeployPartial
          \<lparr>pd_wasm_hash = hash_str, pd_upload_hash = upload_hash, pd_error = rpc_error_display e\<rparr>))))"

definition deploy_contract_with_args ::
  "nat \<Rightarrow> ('w, 'z) deploy_client_scheme \<Rightarrow> 'ev tx_codec \<Rightarrow> ('d, 'a) deploy_tools \<Rightarrow> string \<Rightarrow> string \<Rightarrow> string option \<Rightarrow>
   string list \<Rightarrow> poll_config \<Rightarrow> ('w, deploy_outcome, rpc_error) run" where
  "deploy_contract_with_args fuel C X D wasm source user_salt args cfg =
     (if wasm = [] then run_result (Err (RpcMessage ''WASM bytes are empty''))
      else
        run_bind (run_result (or_message ''Invalid constructor argument: '' (dt_parse_args D args))) (\<lambda>_.
        run_bind (run_result (or_message ''Failed to parse WASM metadata: '' (dt_metadata_hash D wasm))) (\<lambda>hash_str.
        run_bind (run_result (parse_wasm_hash D hash_str)) (\<lambda>wasm_hash.
        run_bind (choose_salt C user_salt) (\<lambda>salt.
        run_bind (get_next_sequence C D source) (\<lambda>sequence.
        run_match (upload_wasm fuel C X D wasm source sequence 100 cfg)
          (\<lambda>(_, upload_hash, upload_fee).
             create_after_upload fuel C X D hash_str
               \<lparr>ca_wasm_hash = wasm_hash, ca_deployer_address = source, ca_salt = salt, ca_constructor_args = args\<rparr>
               cfg upload_hash upload_fee)
          (\<lambda>e. run_result (Ok (DeployFailure (''Upload failed: '' @ rpc_error_display e))))))))))"

definition deploy_contract ::
  "nat \<Rightarrow> ('w, 'z) deploy_client_scheme \<Rightarrow> 'ev tx_codec \<Rightarrow> ('d, 'a) deploy_tools \<Rightarrow> string \<Rightarrow> string \<Rightarrow> string option \<Rightarrow>
   poll_config \<Rightarrow> ('w, deploy_outcome, rpc_error) run" where
  "deploy_contract fuel C X D wasm source user_salt cfg =
     deploy_contract_with_args fuel C X D wasm source user_salt [] cfg"

definition deploy_contract_from_hash ::
  "nat \<Rightarrow> ('w, 'z) deploy_client_scheme \<Rightarrow> 'ev tx_codec \<Rightarrow> ('d, 'a) deploy_tools \<Rightarrow> string \<Rightarrow> string \<Rightarrow> string option \<Rightarrow>
   string list \<Rightarrow> poll_config \<Rightarrow> ('w, deploy_outcome, rpc_error) run" where
  "deploy_contract_from_hash fuel C X D wasm_hash_hex source user_salt args cfg =
     run_bind (run_result (parse_wasm_hash D wasm_hash_hex)) (\<lambda>wasm_hash.
     run_bind (run_result (or_message ''Invalid constructor argument: '' (dt_parse_args D args))) (\<lambda>_.
     run_bind (choose_salt C user_salt) (\<lambda>salt.
     run_bind (get_next_sequence C D source) (\<lambda>sequence.
     run_match
       (create_contract fuel C X D
         \<lparr>ca_wasm_hash = wasm_hash, ca_deployer_address = source, ca_salt = salt, ca_constructor_args = args\<rparr>
         sequence 100 cfg)
       (\<lambda>(contract_id, create_hash, create_fee).
          run_result (Ok (DeploySuccess
            \<lparr>dr_wasm_hash = dt_hex_encode D wasm_hash, dr_contract_id = contract_id, dr_upload_hash = [],
             dr_create_hash = create_hash, dr_status = ''SUCCESS'', dr_salt = dt_hex_encode D salt,
             dr_upload_fee = 0, dr_create_fee = create_fee, dr_total_fee = create_fee\<rparr>)))
       (\<lambda>e. run_result (Ok (DeployFailure (''Create failed: '' @ rpc_error_display e))))))))"

section \<open>What a deployment rests on\<close>

text \<open>A signed envelope was sent in state \<open>w\<close>, got a hash, and settled as a success in state \<open>w'\<close>.\<close>

definition transaction_succeeded ::
  "('w, 'z) deploy_client_scheme \<Rightarrow> 'ev tx_codec \<Rightarrow> string \<Rightarrow> poll_config \<Rightarrow> 'w \<Rightarrow> 'w \<Rightarrow> string \<Rightarrow> bool" where
  "transaction_succeeded C X signed cfg w w' hash \<longleftrightarrow>
     (\<exists>w1 sent res. send_transaction C signed w = (w1, Ok sent) \<and> sn_hash sent = hash \<and>
        settled_as C X hash cfg w1 w' res \<and> status_enum res = TxSettledSuccess)"

definition signed_upload :: "('d, 'a) deploy_tools \<Rightarrow> string \<Rightarrow> string \<Rightarrow> nat \<Rightarrow> string \<Rightarrow> bool" where
  "signed_upload D wasm source fee signed \<longleftrightarrow>
     (\<exists>sequence data auth envelope.
        dt_build_upload_auth D
          \<lparr>up_source_account = source, up_sequence = sequence, up_fee = fee, up_wasm_bytes = wasm\<rparr> data auth =
            Inr envelope \<and> dt_sign D envelope = Inr signed)"

definition signed_create :: "('d, 'a) deploy_tools \<Rightarrow> create_contract_args \<Rightarrow> nat \<Rightarrow> string \<Rightarrow> bool" where
  "signed_create D args fee signed \<longleftrightarrow>
     (\<exists>sequence data auth envelope.
        build_final_create D
          \<lparr>cp_source_account = ca_deployer_address args, cp_sequence = sequence, cp_fee = fee,
           cp_wasm_hash = ca_wasm_hash args, cp_deployer_address = ca_deployer_address args,
           cp_salt = ca_salt args, cp_constructor_args = ca_constructor_args args\<rparr> data auth = Ok envelope \<and>
        dt_sign D envelope = Inr signed)"

lemma submit_checked_Ok:
  assumes "submit_checked fuel C X D name signed cfg w = Some (w', Ok hash)"
  shows "transaction_succeeded C X signed cfg w w' hash"
proof -
  obtain w1 r where run: "submit_and_wait fuel C X signed True cfg w = Some (w1, Ok r)"
    and finish: "run_result (if sub_status r \<noteq> TxSettledSuccess then Err (RpcMessage (submit_failure D name r))
      else Ok (sub_hash r)) w1 = Some (w', Ok hash)"
    using assms unfolding submit_checked_def by (rule run_bind_OkE)
  from finish have r: "w1 = w'" "sub_status r = TxSettledSuccess" "sub_hash r = hash"
    by (cases "sub_status r = TxSettledSuccess"; simp)+
  have "report_backed C X signed True cfg w w' r" using submit_and_wait_backed [OF run] r(1) by blast
  then show ?thesis using r(2,3) by (auto simp: report_backed_def transaction_succeeded_def)
qed

text \<open>The fee of a final transaction is within its type and covers the inclusion fee.\<close>

lemma add_inclusion_fee_Ok: "add_inclusion_fee fee = Ok t \<longleftrightarrow> 100 + fee < 2 ^ 32 \<and> t = 100 + fee"
proof -
  have "int (100 + fee) < 2 ^ 32 \<longleftrightarrow> 100 + fee < 2 ^ 32" by (simp only: of_nat_less_numeral_power_cancel_iff)
  then show ?thesis unfolding add_inclusion_fee_def
    by (cases "100 + fee < 2 ^ 32") (simp_all only: if_True if_False result.simps, blast+)
qed

lemma read_simulation_Ok:
  assumes "read_simulation D name simulation = Ok (data, fee, auth)"
  shows "100 \<le> fee \<and> fee < 2 ^ 32"
proof -
  obtain min_fee where "add_inclusion_fee min_fee = Ok fee"
    using assms by (cases "si_error simulation"; cases "si_transaction_data simulation = []")
      (simp_all add: read_simulation_def, blast)
  then show ?thesis by (simp add: add_inclusion_fee_Ok)
qed

lemma upload_wasm_Ok:
  assumes "upload_wasm fuel C X D wasm source sequence fee0 cfg w = Some (w', Ok (wasm_hash, hash, fee))"
  shows "\<exists>w1 signed. signed_upload D wasm source fee signed \<and> transaction_succeeded C X signed cfg w1 w' hash \<and>
    100 \<le> fee \<and> fee < 2 ^ 32"
proof -
  obtain simulation data auth envelope signed w1
    where "read_simulation D ''Upload'' simulation = Ok (data, fee, auth)"
      and "dt_build_upload_auth D
        \<lparr>up_source_account = source, up_sequence = sequence, up_fee = fee, up_wasm_bytes = wasm\<rparr> data auth = Inr envelope"
      and "dt_sign D envelope = Inr signed"
      and "submit_checked fuel C X D ''Upload'' signed cfg w1 = Some (w', Ok hash)"
    using assms by (auto simp: upload_wasm_def Let_def run_bind_Ok split: if_splits)
  note parts = this
  show ?thesis
    using read_simulation_Ok [OF parts(1)] submit_checked_Ok [OF parts(4)] parts unfolding signed_upload_def by blast
qed

lemma create_contract_Ok:
  assumes "create_contract fuel C X D args sequence fee0 cfg w = Some (w', Ok (contract_id, hash, fee))"
  shows "(\<exists>w1 signed. signed_create D args fee signed \<and> transaction_succeeded C X signed cfg w1 w' hash) \<and>
    100 \<le> fee \<and> fee < 2 ^ 32 \<and>
    dt_contract_id D (ca_deployer_address args) (ca_salt args) (ca_wasm_hash args) = Inr contract_id"
proof -
  obtain simulation data auth envelope signed w1
    where "read_simulation D ''Create'' simulation = Ok (data, fee, auth)"
      and "build_final_create D
          \<lparr>cp_source_account = ca_deployer_address args, cp_sequence = sequence, cp_fee = fee,
           cp_wasm_hash = ca_wasm_hash args, cp_deployer_address = ca_deployer_address args,
           cp_salt = ca_salt args, cp_constructor_args = ca_constructor_args args\<rparr> data auth = Ok envelope"
      and "dt_sign D envelope = Inr signed"
      and "submit_checked fuel C X D ''Create'' signed cfg w1 = Some (w', Ok hash)"
      and "dt_contract_id D (ca_deployer_address args) (ca_salt args) (ca_wasm_hash args) = Inr contract_id"
    using assms by (auto simp: create_contract_def Let_def run_bind_Ok)
  note parts = this
  show ?thesis
    using read_simulation_Ok [OF parts(1)] submit_checked_Ok [OF parts(4)] parts unfolding signed_create_def by blast
qed

lemma run_match_Ok:
  "run_match m f g w = Some (w', Ok y) \<longleftrightarrow>
     (\<exists>w1 x. m w = Some (w1, Ok x) \<and> f x w1 = Some (w', Ok y)) \<or>
     (\<exists>w1 e. m w = Some (w1, Err e) \<and> g e w1 = Some (w', Ok y))"
  by (auto simp: run_match_def split: option.splits prod.splits result.splits)

lemma choose_salt_Ok: "choose_salt C user_salt w = Some (w', Ok salt) \<Longrightarrow> user_salt = None \<or> user_salt = Some salt"
  by (auto simp: choose_salt_def split: option.splits)

text \<open>What each outcome of a deployment that ends in state \<open>w'\<close> stands for.\<close>

definition deployment_backed ::
  "('w, 'z) deploy_client_scheme \<Rightarrow> 'ev tx_codec \<Rightarrow> ('d, 'a) deploy_tools \<Rightarrow> string \<Rightarrow> string \<Rightarrow> string option \<Rightarrow> string list \<Rightarrow>
   poll_config \<Rightarrow> 'w \<Rightarrow> deploy_outcome \<Rightarrow> bool" where
  "deployment_backed C X D wasm source user_salt args cfg w' oc \<longleftrightarrow>
     (case oc of
        DeploySuccess r \<Rightarrow>
          (\<exists>salt hash up cr v1 v2 v3.
             dt_metadata_hash D wasm = Inr (dr_wasm_hash r) \<and> parse_wasm_hash D (dr_wasm_hash r) = Ok hash \<and>
             (user_salt = None \<or> user_salt = Some salt) \<and> dr_salt r = dt_hex_encode D salt \<and>
             signed_upload D wasm source (dr_upload_fee r) up \<and>
             transaction_succeeded C X up cfg v1 v2 (dr_upload_hash r) \<and>
             signed_create D \<lparr>ca_wasm_hash = hash, ca_deployer_address = source, ca_salt = salt,
               ca_constructor_args = args\<rparr> (dr_create_fee r) cr \<and>
             transaction_succeeded C X cr cfg v3 w' (dr_create_hash r) \<and>
             dt_contract_id D source salt hash = Inr (dr_contract_id r) \<and>
             dr_total_fee r = dr_upload_fee r + dr_create_fee r \<and> 100 \<le> dr_upload_fee r \<and> 100 \<le> dr_create_fee r)
      | DeployPartial p \<Rightarrow>
          dt_metadata_hash D wasm = Inr (pd_wasm_hash p) \<and>
          (\<exists>fee up v1 v2. signed_upload D wasm source fee up \<and>
             transaction_succeeded C X up cfg v1 v2 (pd_upload_hash p))
      | DeployFailure m \<Rightarrow>
          (\<exists>fuel sequence v e. upload_wasm fuel C X D wasm source sequence 100 cfg v = Some (w', Err e) \<and>
             m = ''Upload failed: '' @ rpc_error_display e))"

lemma create_after_upload_Ok:
  assumes run: "create_after_upload fuel C X D hash_str
      \<lparr>ca_wasm_hash = hash, ca_deployer_address = source, ca_salt = salt, ca_constructor_args = args\<rparr>
      cfg upload_hash upload_fee w = Some (w', Ok oc)"
    and meta: "dt_metadata_hash D wasm = Inr hash_str" "parse_wasm_hash D hash_str = Ok hash"
    and salt: "user_salt = None \<or> user_salt = Some salt"
    and up: "signed_upload D wasm source upload_fee up" "transaction_succeeded C X up cfg v1 v2 upload_hash"
      "100 \<le> upload_fee"
  shows "deployment_backed C X D wasm source user_salt args cfg w' oc"
proof -
  let ?args = "\<lparr>ca_wasm_hash = hash, ca_deployer_address = source, ca_salt = salt, ca_constructor_args = args\<rparr>"
  from run obtain w1 sequence where seq: "get_next_sequence C D source w = Some (w1, Ok sequence)"
    and create: "run_match (create_contract fuel C X D ?args sequence 100 cfg)
       (\<lambda>(contract_id, create_hash, create_fee).
          run_result (Ok (DeploySuccess
            \<lparr>dr_wasm_hash = hash_str, dr_contract_id = contract_id, dr_upload_hash = upload_hash,
             dr_create_hash = create_hash, dr_status = ''SUCCESS'', dr_salt = dt_hex_encode D salt,
             dr_upload_fee = upload_fee, dr_create_fee = create_fee,
             dr_total_fee = upload_fee + create_fee\<rparr>)))
       (\<lambda>e. run_result (Ok (DeployPartial
          \<lparr>pd_wasm_hash = hash_str, pd_upload_hash = upload_hash, pd_error = rpc_error_display e\<rparr>))) w1 =
      Some (w', Ok oc :: (deploy_outcome, rpc_error) result)"
    unfolding create_after_upload_def create_contract_args.simps by (auto elim!: run_bind_OkE)
  consider (created) contract_id create_hash create_fee where
      "create_contract fuel C X D ?args sequence 100 cfg w1 = Some (w', Ok (contract_id, create_hash, create_fee))"
      "oc = DeploySuccess
            \<lparr>dr_wasm_hash = hash_str, dr_contract_id = contract_id, dr_upload_hash = upload_hash,
             dr_create_hash = create_hash, dr_status = ''SUCCESS'', dr_salt = dt_hex_encode D salt,
             dr_upload_fee = upload_fee, dr_create_fee = create_fee, dr_total_fee = upload_fee + create_fee\<rparr>"
    | (partly) e where "oc = DeployPartial
          \<lparr>pd_wasm_hash = hash_str, pd_upload_hash = upload_hash, pd_error = rpc_error_display e\<rparr>"
    using create unfolding run_match_Ok by auto
  then show ?thesis
  proof cases
    case created
    note facts = create_contract_Ok [OF created(1)]
    obtain w2 cr where "signed_create D ?args create_fee cr" "transaction_succeeded C X cr cfg w2 w' create_hash"
      using facts by blast
    then show ?thesis using facts meta salt up created(2) unfolding deployment_backed_def by auto
  next
    case partly
    then show ?thesis using meta up unfolding deployment_backed_def by auto
  qed
qed


section \<open>Concrete deployments\<close>

text \<open>
  A network in which a transaction settles at once and whose node can no longer be reached from a given
  time on for ledger entries, and tools that label what they build.
\<close>

definition demo_account :: ledger_entry_result where
  "demo_account = \<lparr>lr_key = ''key'', lr_xdr = ''41'', lr_last_modified = 1, lr_live_until = None, lr_value = None\<rparr>"

definition demo_simulation :: simulate_response where
  "demo_simulation =
     \<lparr>si_transaction_data = ''data'', si_min_resource_fee = ''250'', si_results = [], si_error = None\<rparr>"

definition demo_deploy :: "nat \<Rightarrow> nat deploy_client" where
  "demo_deploy unreachable =
     \<lparr>ck_now = (\<lambda>w. w), ck_sleep = (\<lambda>d w. w + d),
      lc_get_entries = (\<lambda>keys w. (w + 10,
        if unreachable \<le> w then SendFailed False ''connection reset''
        else HttpReply 200 (Inr \<lparr>jr_result = Some \<lparr>st_entries = [demo_account], st_latest = 7\<rparr>, jr_error = None\<rparr>))),
      su_send = su_send (demo_submit ''SUCCESS'' 0), su_get_transaction = su_get_transaction (demo_submit ''SUCCESS'' 0),
      de_simulate = (\<lambda>envelope w. (w + 10, HttpReply 200 (Inr \<lparr>jr_result = Some demo_simulation, jr_error = None\<rparr>))),
      de_salt = (\<lambda>w. (w, replicate 20 (CHR ''r'')))\<rparr>"

definition demo_deploy_tools :: "(string, string) deploy_tools" where
  "demo_deploy_tools =
     \<lparr>dt_metadata_hash = (\<lambda>wasm. Inr (''sha256 of '' @ wasm)),
      dt_hex_decode = (\<lambda>_. Inr (replicate 32 (CHR ''h''))), dt_hex_encode = (\<lambda>s. ''hex '' @ s),
      dt_debug_text = (\<lambda>s. s), dt_debug_texts = concat, dt_empty_data = [], dt_parse_args = (\<lambda>_. Inr ()),
      dt_parse_data = Inr, dt_parse_auth = Inr,
      dt_build_upload = (\<lambda>p d. Inr ''draft''), dt_build_upload_auth = (\<lambda>p d a. Inr (''upload for '' @ show_nat (up_fee p))),
      dt_build_create = (\<lambda>p d. Inr ''draft''), dt_build_create_v2 = (\<lambda>p d. Inr ''draft''),
      dt_build_create_auth = (\<lambda>p d a. Inr (''create for '' @ show_nat (cp_fee p))),
      dt_build_create_v2_auth = (\<lambda>p d a. Inr (''create v2 for '' @ show_nat (cp_fee p))),
      dt_sign = (\<lambda>e. Inr (''signed '' @ e)), dt_contract_id = (\<lambda>source salt hash. Inr (''C'' @ source)),
      dt_account_key = Ok, dt_base64_decode = Inr, dt_account_sequence = (\<lambda>_. Ok 41)\<rparr>"

definition demo_deployed :: deploy_result where
  "demo_deployed =
     \<lparr>dr_wasm_hash = ''sha256 of wasm'', dr_contract_id = ''CG'', dr_upload_hash = ''hsigned upload for 350'',
      dr_create_hash = ''hsigned create for 350'', dr_status = ''SUCCESS'', dr_salt = ''hex salt'',
      dr_upload_fee = 350, dr_create_fee = 350, dr_total_fee = 700\<rparr>"

lemma demo_tools_simps:
  "dt_metadata_hash demo_deploy_tools wasm = Inr (''sha256 of '' @ wasm)"
  "dt_hex_encode demo_deploy_tools s = ''hex '' @ s"
  "dt_empty_data demo_deploy_tools = []"
  "dt_parse_args demo_deploy_tools args = Inr ()"
  "dt_build_upload demo_deploy_tools p d = Inr ''draft''"
  "dt_build_upload_auth demo_deploy_tools p d a = Inr (''upload for '' @ show_nat (up_fee p))"
  "dt_build_create demo_deploy_tools q d = Inr ''draft''"
  "dt_build_create_auth demo_deploy_tools q d a = Inr (''create for '' @ show_nat (cp_fee q))"
  "dt_sign demo_deploy_tools e = Inr (''signed '' @ e)"
  "dt_contract_id demo_deploy_tools source salt hash = Inr (''C'' @ source)"
  by (simp_all add: demo_deploy_tools_def)

lemma demo_simulated:
  "simulate_transaction (demo_deploy t) ''draft'' w = (w + 10, Ok demo_simulation)"
  "show_nat 350 = ''350''"
  "read_simulation demo_deploy_tools ''Upload'' demo_simulation = Ok (''data'', 350, [])"
  "read_simulation demo_deploy_tools ''Create'' demo_simulation = Ok (''data'', 350, [])"
  "parse_wasm_hash demo_deploy_tools ''sha256 of wasm'' = Ok (replicate 32 (CHR ''h''))"
proof -
  have "trim ''draft'' \<noteq> []" by code_simp
  then show "simulate_transaction (demo_deploy t) ''draft'' w = (w + 10, Ok demo_simulation)"
    by (simp add: simulate_transaction_def demo_deploy_def request_attempts attempt_end_def is_success_status_def
        response_result_def)
qed code_simp+

text \<open>The states of the network are its times.\<close>

lemma demo_runs:
  "get_next_sequence (demo_deploy 1000) demo_deploy_tools ''G'' 0 = Some (10, Ok 42)"
  "get_next_sequence (demo_deploy 1000) demo_deploy_tools ''G'' 40 = Some (50, Ok 42)"
  "get_next_sequence (demo_deploy 20) demo_deploy_tools ''G'' 0 = Some (10, Ok 42)"
  "get_next_sequence (demo_deploy 20) demo_deploy_tools ''G'' 40 = Some (50, Err (Reqwest ''connection reset''))"
  "submit_checked 7 (demo_deploy 1000) demo_codec demo_deploy_tools ''Upload'' ''signed upload for 350''
     \<lparr>po_timeout = 100, po_interval = 20\<rparr> 20 = Some (40, Ok ''hsigned upload for 350'')"
  "submit_checked 7 (demo_deploy 20) demo_codec demo_deploy_tools ''Upload'' ''signed upload for 350''
     \<lparr>po_timeout = 100, po_interval = 20\<rparr> 20 = Some (40, Ok ''hsigned upload for 350'')"
  "submit_checked 7 (demo_deploy 1000) demo_codec demo_deploy_tools ''Create'' ''signed create for 350''
     \<lparr>po_timeout = 100, po_interval = 20\<rparr> 60 = Some (80, Ok ''hsigned create for 350'')"
  by code_simp+

lemma demo_uploads:
  "upload_wasm 7 (demo_deploy 1000) demo_codec demo_deploy_tools ''wasm'' ''G'' 42 100
     \<lparr>po_timeout = 100, po_interval = 20\<rparr> 10 = Some (40, Ok (''sha256 of wasm'', ''hsigned upload for 350'', 350))"
  "upload_wasm 7 (demo_deploy 20) demo_codec demo_deploy_tools ''wasm'' ''G'' 42 100
     \<lparr>po_timeout = 100, po_interval = 20\<rparr> 10 = Some (40, Ok (''sha256 of wasm'', ''hsigned upload for 350'', 350))"
  by (simp_all add: upload_wasm_def run_bind_def run_result_def run_io_def io_map_err_def or_message_def
      demo_tools_simps demo_simulated demo_runs)

lemma demo_creates:
  "create_contract 7 (demo_deploy 1000) demo_codec demo_deploy_tools
     \<lparr>ca_wasm_hash = replicate 32 (CHR ''h''), ca_deployer_address = ''G'', ca_salt = ''salt'', ca_constructor_args = []\<rparr>
     42 100 \<lparr>po_timeout = 100, po_interval = 20\<rparr> 50 = Some (80, Ok (''CG'', ''hsigned create for 350'', 350))"
  by (simp add: create_contract_def run_bind_def run_result_def run_io_def io_map_err_def or_message_def
      build_create_def build_final_create_def demo_tools_simps demo_simulated demo_runs)

lemma demo_deployment:
  "deploy_contract_with_args 7 (demo_deploy 1000) demo_codec demo_deploy_tools ''wasm'' ''G'' (Some ''salt'') []
     \<lparr>po_timeout = 100, po_interval = 20\<rparr> 0 = Some (80, Ok (DeploySuccess demo_deployed))"
  by (simp add: deploy_contract_with_args_def create_after_upload_def run_bind_def run_match_def run_result_def
      or_message_def choose_salt_def demo_tools_simps demo_simulated demo_runs demo_uploads demo_creates demo_deployed_def)


text \<open>
  When the account cannot be read between the two steps, the whole deployment is an error: the upload has
  been paid for, and unlike after a failed creation nothing says so.
\<close>

lemma paid_upload_unreported:
  "deploy_contract_with_args 7 (demo_deploy 20) demo_codec demo_deploy_tools ''wasm'' ''G'' (Some ''salt'') []
     \<lparr>po_timeout = 100, po_interval = 20\<rparr> 0 = Some (50, Err (Reqwest ''connection reset'')) \<and>
   (\<exists>up v. signed_upload demo_deploy_tools ''wasm'' ''G'' 350 up \<and>
      transaction_succeeded (demo_deploy 20) demo_codec up \<lparr>po_timeout = 100, po_interval = 20\<rparr> v 40
        ''hsigned upload for 350'')"
proof
  show "deploy_contract_with_args 7 (demo_deploy 20) demo_codec demo_deploy_tools ''wasm'' ''G'' (Some ''salt'') []
     \<lparr>po_timeout = 100, po_interval = 20\<rparr> 0 = Some (50, Err (Reqwest ''connection reset''))"
    by (simp add: deploy_contract_with_args_def create_after_upload_def run_bind_def run_match_def run_result_def
        or_message_def choose_salt_def demo_tools_simps demo_simulated demo_runs demo_uploads)
  show "\<exists>up v. signed_upload demo_deploy_tools ''wasm'' ''G'' 350 up \<and>
      transaction_succeeded (demo_deploy 20) demo_codec up \<lparr>po_timeout = 100, po_interval = 20\<rparr> v 40
        ''hsigned upload for 350''"
    using upload_wasm_Ok [OF demo_uploads(2)] by blast
qed

text \<open>A simulated fee near the end of its type overflows the sum that extending or restoring saturates.\<close>

lemma inclusion_fee_overflows: "add_inclusion_fee (2 ^ 32 - 100) = Panic"
  by (simp add: add_inclusion_fee_def)

end
