(* ===== verification/Storage_Report.thy ===== *)
theory Storage_Report
  imports Fuzz_Exec Rpc_Client
begin

text \<open>
  The analysis of a contract's storage: the time to live of the entries a node reports,
  \<^verbatim>\<open>sdkt-rpc/src/storage.rs: get_ttl_info_for_keys\<close>, and the report made of it,
  \<^verbatim>\<open>sdkt-storage/src/analyzer.rs\<close>, \<^verbatim>\<open>types.rs\<close> and \<^verbatim>\<open>error.rs\<close>. The codecs of keys and entries and the
  footprint of a contract are the fields of \<open>storage_tools\<close>. Arithmetic on \<^verbatim>\<open>u32\<close> is checked; the sums in
  \<^verbatim>\<open>u64\<close> stay far below their limit and are natural numbers.
\<close>

section \<open>Time to live\<close>

record storage_tools =
  sg_extend_keys :: "string \<Rightarrow> string list \<Rightarrow> (string list, rpc_error) result"
  sg_contract_data_value :: "string \<Rightarrow> string option"
  sg_ledger_key :: "string \<Rightarrow> ledger_key option"

record ttl_entry =
  tt_key :: string
  tt_current_ttl :: nat
  tt_expiration_time :: string
  tt_days_remaining :: nat
  tt_extension_cost :: nat
  tt_expiring_soon :: bool
  tt_value :: "string option"

record ttl_info =
  ti_contract_id :: string
  ti_entries :: "ttl_entry list"
  ti_latest_ledger :: "nat option"

definition calculate_extension_cost :: "nat \<Rightarrow> nat" where
  "calculate_extension_cost ledger_delta = ledger_delta * 100"

text \<open>\<^verbatim>\<open>saturating_sub\<close> is the subtraction of natural numbers.\<close>

definition entry_ttl :: "nat \<Rightarrow> ledger_entry_result \<Rightarrow> nat" where
  "entry_ttl capture_ledger entry =
     (case lr_live_until entry of Some live_until \<Rightarrow> live_until - capture_ledger | None \<Rightarrow> 0)"

definition describe_ttl ::
  "storage_tools \<Rightarrow> nat \<Rightarrow> nat \<Rightarrow> ledger_entry_result \<Rightarrow> (ttl_entry, rpc_error) result" where
  "describe_ttl G capture_ledger expiring_soon_ledgers entry =
     (let current_ttl = entry_ttl capture_ledger entry in
      if int (current_ttl * 5) \<ge> 2 ^ 32 then Panic
      else
        (let days_remaining = (current_ttl * 5) div (24 * 3600) in
         Ok \<lparr>tt_key = lr_key entry, tt_current_ttl = current_ttl,
             tt_expiration_time = ''~'' @ show_nat days_remaining @ '' days'', tt_days_remaining = days_remaining,
             tt_extension_cost = calculate_extension_cost current_ttl,
             tt_expiring_soon = (current_ttl < expiring_soon_ledgers),
             tt_value = sg_contract_data_value G (lr_xdr entry)\<rparr>))"

definition get_ttl_info_for_keys ::
  "('w, 'z) ledger_client_scheme \<Rightarrow> storage_tools \<Rightarrow> string \<Rightarrow> string list \<Rightarrow> nat \<Rightarrow> nat \<Rightarrow> ('w, ttl_info, rpc_error) io" where
  "get_ttl_info_for_keys C G contract_id extra_keys max_entries expiring_soon_ledgers =
     io_bind (io_return (sg_extend_keys G contract_id extra_keys)) (\<lambda>keys.
     io_bind (fetch_ledger_entries C keys max_entries) (\<lambda>resp.
       io_return
         (map_ok (\<lambda>es. \<lparr>ti_contract_id = contract_id, ti_entries = es, ti_latest_ledger = Some (st_latest resp)\<rparr>)
            (try_map (describe_ttl G (st_latest resp) expiring_soon_ledgers) (st_entries resp)))))"

definition get_ttl_info :: "('w, 'z) ledger_client_scheme \<Rightarrow> storage_tools \<Rightarrow> string \<Rightarrow> ('w, ttl_info, rpc_error) io" where
  "get_ttl_info C G contract_id = get_ttl_info_for_keys C G contract_id [] 200 17280"

section \<open>The report\<close>

datatype storage_class = InstanceClass | PersistentClass | TemporaryClass | OtherClass

definition class_label :: "storage_class \<Rightarrow> string" where
  "class_label c =
     (case c of
        InstanceClass \<Rightarrow> ''instance''
      | PersistentClass \<Rightarrow> ''persistent''
      | TemporaryClass \<Rightarrow> ''temporary''
      | OtherClass \<Rightarrow> ''other'')"

record storage_entry =
  sn_key :: string
  sn_label :: "string option"
  sn_class :: storage_class
  sn_current_ttl :: nat
  sn_days_remaining :: nat
  sn_extension_cost :: nat
  sn_value :: "string option"

record ttl_summary =
  ts_minimum_ttl :: nat
  ts_maximum_ttl :: nat
  ts_average_ttl :: nat
  ts_expiring_entries :: nat
  ts_estimated_rent_cost :: "nat option"

record storage_report =
  rp_contract_id :: string
  rp_total_entries :: nat
  rp_instance_entries :: nat
  rp_persistent_entries :: nat
  rp_temporary_entries :: nat
  rp_other_entries :: nat
  rp_total_size_bytes :: "nat option"
  rp_ttl_summary :: "ttl_summary option"
  rp_entries :: "storage_entry list"
  rp_latest_ledger :: "nat option"
  rp_network :: "string option"

datatype storage_error =
    StorageRpc rpc_error
  | StorageContractNotFound
  | InvalidContractId string
  | ContractIdMismatch string string
  | NetworkMismatch string string
  | StorageParse string
  | StorageIo string
  | StorageNotFound string
  | NoDefaultIdentity
  | CorruptCache string
  | StorageConfig string

definition classify_key :: "storage_tools \<Rightarrow> string \<Rightarrow> storage_class" where
  "classify_key G base64_key =
     (case sg_ledger_key G (trim base64_key) of
        None \<Rightarrow> OtherClass
      | Some key \<Rightarrow>
          (case key of
             KeyContractData _ k dur \<Rightarrow>
               if k = VLedgerKeyContractInstance then InstanceClass
               else (case dur of Temporary \<Rightarrow> TemporaryClass | Persistent \<Rightarrow> PersistentClass)
           | _ \<Rightarrow> OtherClass))"

record 'w storage_analyzer =
  an_client :: "'w ledger_client"
  an_network :: "string option"
  an_max_entries :: nat
  an_expiring_soon_ledgers :: nat

definition EXPIRING_SOON_LEDGERS :: nat where
  "EXPIRING_SOON_LEDGERS = 17280"

definition new_analyzer :: "'w ledger_client \<Rightarrow> 'w storage_analyzer" where
  "new_analyzer client =
     \<lparr>an_client = client, an_network = None, an_max_entries = 200, an_expiring_soon_ledgers = EXPIRING_SOON_LEDGERS\<rparr>"

definition with_network :: "string \<Rightarrow> 'w storage_analyzer \<Rightarrow> 'w storage_analyzer" where
  "with_network name an = an\<lparr>an_network := Some name\<rparr>"

text \<open>\<^verbatim>\<open>ttl_warning_days.saturating_mul(17_280)\<close>.\<close>

definition with_config :: "'w ledger_client \<Rightarrow> nat \<Rightarrow> nat \<Rightarrow> 'w storage_analyzer" where
  "with_config client max_entries ttl_warning_days =
     \<lparr>an_client = client, an_network = None, an_max_entries = max_entries,
      an_expiring_soon_ledgers = min (ttl_warning_days * 17280) (2 ^ 32 - 1)\<rparr>"

text \<open>The variables of the loop over the entries.\<close>

record analysis =
  ac_min_ttl :: nat
  ac_max_ttl :: nat
  ac_total_ttl :: nat
  ac_expiring_soon :: nat
  ac_total_cost :: nat
  ac_ttl_bearing :: nat
  ac_instance :: nat
  ac_persistent :: nat
  ac_temporary :: nat
  ac_other :: nat
  ac_detailed :: "storage_entry list"

definition empty_analysis :: analysis where
  "empty_analysis =
     \<lparr>ac_min_ttl = 2 ^ 32 - 1, ac_max_ttl = 0, ac_total_ttl = 0, ac_expiring_soon = 0, ac_total_cost = 0,
      ac_ttl_bearing = 0, ac_instance = 0, ac_persistent = 0, ac_temporary = 0, ac_other = 0, ac_detailed = []\<rparr>"

definition count_class :: "storage_class \<Rightarrow> analysis \<Rightarrow> analysis" where
  "count_class c a =
     (case c of
        InstanceClass \<Rightarrow> a\<lparr>ac_instance := ac_instance a + 1\<rparr>
      | PersistentClass \<Rightarrow> a\<lparr>ac_persistent := ac_persistent a + 1\<rparr>
      | TemporaryClass \<Rightarrow> a\<lparr>ac_temporary := ac_temporary a + 1\<rparr>
      | OtherClass \<Rightarrow> a\<lparr>ac_other := ac_other a + 1\<rparr>)"

definition count_ttl :: "nat \<Rightarrow> ttl_entry \<Rightarrow> analysis \<Rightarrow> analysis" where
  "count_ttl threshold entry a =
     (let ttl = tt_current_ttl entry in
      a\<lparr>ac_min_ttl := (if ttl < ac_min_ttl a then ttl else ac_min_ttl a),
        ac_max_ttl := (if ttl > ac_max_ttl a then ttl else ac_max_ttl a),
        ac_total_ttl := ac_total_ttl a + ttl,
        ac_expiring_soon := ac_expiring_soon a + (if ttl < threshold then 1 else 0),
        ac_total_cost := ac_total_cost a + tt_extension_cost entry,
        ac_ttl_bearing := ac_ttl_bearing a + 1\<rparr>)"

definition detailed_entry :: "storage_tools \<Rightarrow> ttl_entry \<Rightarrow> storage_entry" where
  "detailed_entry G entry =
     \<lparr>sn_key = tt_key entry, sn_label = None, sn_class = classify_key G (tt_key entry),
      sn_current_ttl = tt_current_ttl entry, sn_days_remaining = tt_days_remaining entry,
      sn_extension_cost = tt_extension_cost entry, sn_value = tt_value entry\<rparr>"

definition analyze_entry :: "storage_tools \<Rightarrow> nat \<Rightarrow> analysis \<Rightarrow> ttl_entry \<Rightarrow> analysis" where
  "analyze_entry G threshold a entry =
     (let c = classify_key G (tt_key entry);
          a1 = count_class c a;
          a2 = (if c \<noteq> OtherClass then count_ttl threshold entry a1 else a1)
      in a2\<lparr>ac_detailed := ac_detailed a2 @ [detailed_entry G entry]\<rparr>)"

definition summary_of :: "analysis \<Rightarrow> ttl_summary option" where
  "summary_of a =
     (if ac_ttl_bearing a > 0 then
        Some \<lparr>ts_minimum_ttl = (if ac_min_ttl a = 2 ^ 32 - 1 then 0 else ac_min_ttl a),
              ts_maximum_ttl = ac_max_ttl a, ts_average_ttl = ac_total_ttl a div ac_ttl_bearing a,
              ts_expiring_entries = ac_expiring_soon a, ts_estimated_rent_cost = Some (ac_total_cost a)\<rparr>
      else None)"

definition report_of :: "'w storage_analyzer \<Rightarrow> storage_tools \<Rightarrow> string \<Rightarrow> ttl_info \<Rightarrow> storage_report" where
  "report_of an G contract_id info =
     (if ti_entries info = [] then
        \<lparr>rp_contract_id = contract_id, rp_total_entries = 0, rp_instance_entries = 0, rp_persistent_entries = 0,
         rp_temporary_entries = 0, rp_other_entries = 0, rp_total_size_bytes = None, rp_ttl_summary = None,
         rp_entries = [], rp_latest_ledger = ti_latest_ledger info, rp_network = an_network an\<rparr>
      else
        (let a = foldl (analyze_entry G (an_expiring_soon_ledgers an)) empty_analysis (ti_entries info) in
         \<lparr>rp_contract_id = contract_id, rp_total_entries = length (ti_entries info),
          rp_instance_entries = ac_instance a, rp_persistent_entries = ac_persistent a,
          rp_temporary_entries = ac_temporary a, rp_other_entries = ac_other a, rp_total_size_bytes = None,
          rp_ttl_summary = summary_of a, rp_entries = ac_detailed a, rp_latest_ledger = ti_latest_ledger info,
          rp_network = an_network an\<rparr>))"

definition inspect_contract_storage_keys ::
  "'w storage_analyzer \<Rightarrow> storage_tools \<Rightarrow> string \<Rightarrow> string list \<Rightarrow> ('w, storage_report, storage_error) io" where
  "inspect_contract_storage_keys an G contract_id extra_keys =
     (if contract_id = [] then io_return (Err (InvalidContractId ''Contract ID cannot be empty''))
      else
        io_bind
          (io_map_err StorageRpc (get_ttl_info_for_keys (an_client an) G contract_id extra_keys (an_max_entries an)
             (an_expiring_soon_ledgers an)))
          (\<lambda>info. io_return (Ok (report_of an G contract_id info))))"

definition inspect_contract_storage ::
  "'w storage_analyzer \<Rightarrow> storage_tools \<Rightarrow> string \<Rightarrow> ('w, storage_report, storage_error) io" where
  "inspect_contract_storage an G contract_id = inspect_contract_storage_keys an G contract_id []"

section \<open>The loop and what it counts\<close>

text \<open>The entries of a report that have a time to live.\<close>

definition ttl_bearing :: "storage_report \<Rightarrow> storage_entry list" where
  "ttl_bearing r = filter (\<lambda>e. sn_class e \<noteq> OtherClass) (rp_entries r)"

definition class_count :: "storage_class \<Rightarrow> storage_entry list \<Rightarrow> nat" where
  "class_count c es = length (filter (\<lambda>e. sn_class e = c) es)"

text \<open>The loop variables after a prefix of the entries, as functions of the details collected so far.\<close>

definition analysis_of :: "nat \<Rightarrow> storage_entry list \<Rightarrow> analysis" where
  "analysis_of threshold ds =
     (let ts = filter (\<lambda>e. sn_class e \<noteq> OtherClass) ds in
      \<lparr>ac_min_ttl = fold min (map sn_current_ttl ts) (2 ^ 32 - 1), ac_max_ttl = fold max (map sn_current_ttl ts) 0,
       ac_total_ttl = sum_list (map sn_current_ttl ts),
       ac_expiring_soon = length (filter (\<lambda>e. sn_current_ttl e < threshold) ts),
       ac_total_cost = sum_list (map sn_extension_cost ts), ac_ttl_bearing = length ts,
       ac_instance = class_count InstanceClass ds, ac_persistent = class_count PersistentClass ds,
       ac_temporary = class_count TemporaryClass ds, ac_other = class_count OtherClass ds, ac_detailed = ds\<rparr>)"

lemma analyze_entry_step:
  "analyze_entry G threshold (analysis_of threshold ds) e = analysis_of threshold (ds @ [detailed_entry G e])"
proof -
  have "sn_class (detailed_entry G e) = classify_key G (tt_key e)" by (simp add: detailed_entry_def)
  then show ?thesis
    by (cases "classify_key G (tt_key e)")
      (auto simp: analyze_entry_def analysis_of_def count_class_def count_ttl_def class_count_def Let_def
        detailed_entry_def min_def max_def)
qed

lemma analyze_entries:
  "foldl (analyze_entry G threshold) (analysis_of threshold ds) es = analysis_of threshold (ds @ map (detailed_entry G) es)"
  by (induction es arbitrary: ds) (simp_all add: analyze_entry_step)

lemma analyze_all:
  "foldl (analyze_entry G threshold) empty_analysis es = analysis_of threshold (map (detailed_entry G) es)"
proof -
  have "empty_analysis = analysis_of threshold []"
    by (simp add: empty_analysis_def analysis_of_def class_count_def)
  then show ?thesis using analyze_entries [of G threshold "[]" es] by simp
qed

lemma class_count_total:
  "class_count InstanceClass ds + class_count PersistentClass ds + class_count TemporaryClass ds +
     class_count OtherClass ds = length ds"
proof (induction ds)
  case (Cons d ds)
  then show ?case by (cases "sn_class d") (simp_all add: class_count_def)
qed (simp add: class_count_def)

text \<open>The extremes of the loop are the extremes of the list, since every time to live is below the start value.\<close>

lemma fold_min_start: "\<lbrakk>xs \<noteq> []; \<forall>x \<in> set xs. x \<le> m\<rbrakk> \<Longrightarrow> fold min xs m = Min (set xs)" for xs :: "nat list"
proof -
  assume xs: "xs \<noteq> []" and le: "\<forall>x \<in> set xs. x \<le> m"
  obtain x where "x \<in> set xs" using xs by (cases xs) auto
  then have "Min (set xs) \<le> m" using le by (meson List.finite_set Min_le le_trans)
  then show ?thesis using xs by (subst Min.set_eq_fold [symmetric]) (simp add: Min_insert min_absorb2)
qed

lemma fold_max_start: "xs \<noteq> [] \<Longrightarrow> fold max xs 0 = Max (set xs)" for xs :: "nat list"
  by (subst Max.set_eq_fold [symmetric]) (simp add: Max_insert)

lemma describe_ttl_Ok:
  assumes "describe_ttl G n threshold x = Ok t"
  shows "tt_key t = lr_key x" "tt_current_ttl t = entry_ttl n x" "tt_extension_cost t = 100 * entry_ttl n x"
    "entry_ttl n x < 2 ^ 32 - 1" "tt_expiring_soon t \<longleftrightarrow> entry_ttl n x < threshold"
proof -
  have small: "int (entry_ttl n x * 5) < 2 ^ 32"
    using assms by (cases "int (entry_ttl n x * 5) \<ge> 2 ^ 32") (simp_all add: describe_ttl_def Let_def)
  then have "int (entry_ttl n x) < 2 ^ 32 - 1" by simp
  then show "entry_ttl n x < 2 ^ 32 - 1" by simp
  have t: "t = (let days = entry_ttl n x * 5 div (24 * 3600) in
      \<lparr>tt_key = lr_key x, tt_current_ttl = entry_ttl n x,
       tt_expiration_time = ''~'' @ show_nat days @ '' days'', tt_days_remaining = days,
       tt_extension_cost = calculate_extension_cost (entry_ttl n x), tt_expiring_soon = (entry_ttl n x < threshold),
       tt_value = sg_contract_data_value G (lr_xdr x)\<rparr>)"
    using assms small by (simp add: describe_ttl_def Let_def del: of_nat_mult)
  show "tt_key t = lr_key x" "tt_current_ttl t = entry_ttl n x" "tt_extension_cost t = 100 * entry_ttl n x"
    "tt_expiring_soon t \<longleftrightarrow> entry_ttl n x < threshold"
    by (simp_all add: t Let_def calculate_extension_cost_def)
qed

lemma describe_all:
  "try_map (describe_ttl G n threshold) xs = Ok ts \<Longrightarrow>
     map tt_key ts = map lr_key xs \<and> map tt_current_ttl ts = map (entry_ttl n) xs \<and>
     map tt_extension_cost ts = map (\<lambda>x. 100 * entry_ttl n x) xs \<and> (\<forall>x \<in> set xs. entry_ttl n x < 2 ^ 32 - 1)"
proof (induction xs arbitrary: ts)
  case (Cons x xs)
  from Cons.prems obtain t ts' where t: "describe_ttl G n threshold x = Ok t"
    and ts': "try_map (describe_ttl G n threshold) xs = Ok ts'" and ts: "ts = t # ts'" by auto
  show ?case using Cons.IH [OF ts'] describe_ttl_Ok [OF t] ts by simp
qed simp

lemma sum_list_between:
  "\<lbrakk>xs \<noteq> []; \<forall>x \<in> set xs. a \<le> x \<and> x \<le> b\<rbrakk> \<Longrightarrow> a \<le> sum_list xs div length xs \<and> sum_list xs div length xs \<le> b"
  for xs :: "nat list"
proof -
  assume "xs \<noteq> []" and bounds: "\<forall>x \<in> set xs. a \<le> x \<and> x \<le> b"
  have "a * length xs \<le> sum_list xs \<and> sum_list xs \<le> b * length xs"
    using bounds by (induction xs) auto
  moreover have "0 < length xs" using \<open>xs \<noteq> []\<close> by simp
  ultimately show "a \<le> sum_list xs div length xs \<and> sum_list xs div length xs \<le> b"
    by (metis div_le_mono nonzero_mult_div_cancel_right less_not_refl2)
qed

lemma summary_facts:
  assumes small: "\<forall>e \<in> set ds. sn_current_ttl e < 2 ^ 32 - 1 \<and> sn_extension_cost e = 100 * sn_current_ttl e"
    and ts: "ts = filter (\<lambda>e. sn_class e \<noteq> OtherClass) ds"
  shows "case summary_of (analysis_of threshold ds) of
       None \<Rightarrow> ts = []
     | Some s \<Rightarrow> ts \<noteq> [] \<and>
         ts_minimum_ttl s = Min (sn_current_ttl ` set ts) \<and> ts_maximum_ttl s = Max (sn_current_ttl ` set ts) \<and>
         ts_minimum_ttl s \<le> ts_average_ttl s \<and> ts_average_ttl s \<le> ts_maximum_ttl s \<and>
         ts_expiring_entries s = length (filter (\<lambda>e. sn_current_ttl e < threshold) ts) \<and>
         ts_estimated_rent_cost s = Some (100 * sum_list (map sn_current_ttl ts))"
proof (cases "ts = []")
  case True
  then show ?thesis using ts by (simp add: summary_of_def analysis_of_def Let_def)
next
  case False
  let ?ttls = "map sn_current_ttl ts"
  have below: "\<forall>x \<in> set ?ttls. x < 2 ^ 32 - 1" using small ts by auto
  have low: "fold min ?ttls (2 ^ 32 - 1) = Min (set ?ttls)" using False below by (intro fold_min_start) auto
  have high: "fold max ?ttls 0 = Max (set ?ttls)" using False by (intro fold_max_start) simp
  have "Min (set ?ttls) \<in> set ?ttls" using False by (intro Min_in) simp_all
  then have start: "Min (set ?ttls) \<noteq> 2 ^ 32 - 1" using below by (metis less_irrefl)
  have cost: "sum_list (map sn_extension_cost ts) = 100 * sum_list ?ttls"
  proof -
    have "map sn_extension_cost ts = map (\<lambda>e. 100 * sn_current_ttl e) ts" using small ts by (intro map_cong) auto
    then show ?thesis by (simp only: sum_list_const_mult)
  qed
  have mean: "Min (set ?ttls) \<le> sum_list ?ttls div length ?ttls \<and> sum_list ?ttls div length ?ttls \<le> Max (set ?ttls)"
    using False by (intro sum_list_between) simp_all
  have "summary_of (analysis_of threshold ds) = Some
      \<lparr>ts_minimum_ttl = Min (set ?ttls), ts_maximum_ttl = Max (set ?ttls),
       ts_average_ttl = sum_list ?ttls div length ?ttls,
       ts_expiring_entries = length (filter (\<lambda>e. sn_current_ttl e < threshold) ts),
       ts_estimated_rent_cost = Some (100 * sum_list ?ttls)\<rparr>"
    using False low high start cost by (simp add: summary_of_def analysis_of_def Let_def ts [symmetric])
  then show ?thesis using False mean by simp
qed

lemma analysis_of_simps:
  "ac_instance (analysis_of t ds) = class_count InstanceClass ds"
  "ac_persistent (analysis_of t ds) = class_count PersistentClass ds"
  "ac_temporary (analysis_of t ds) = class_count TemporaryClass ds"
  "ac_other (analysis_of t ds) = class_count OtherClass ds"
  "ac_detailed (analysis_of t ds) = ds"
  by (simp_all add: analysis_of_def Let_def)

lemma report_of_analysis:
  "report_of an G contract_id info =
     (let ds = map (detailed_entry G) (ti_entries info); a = analysis_of (an_expiring_soon_ledgers an) ds in
      \<lparr>rp_contract_id = contract_id, rp_total_entries = length ds, rp_instance_entries = class_count InstanceClass ds,
       rp_persistent_entries = class_count PersistentClass ds, rp_temporary_entries = class_count TemporaryClass ds,
       rp_other_entries = class_count OtherClass ds, rp_total_size_bytes = None, rp_ttl_summary = summary_of a,
       rp_entries = ds, rp_latest_ledger = ti_latest_ledger info, rp_network = an_network an\<rparr>)"
proof (cases "ti_entries info = []")
  case True
  then show ?thesis by (simp add: report_of_def analysis_of_def summary_of_def class_count_def)
next
  case False
  then show ?thesis by (simp add: report_of_def analyze_all analysis_of_simps Let_def)
qed


text \<open>A contract with an instance entry about to expire, a persistent entry and one that is not there.\<close>

definition demo_ledger :: "nat \<Rightarrow> string \<Rightarrow> ledger_entry_result option" where
  "demo_ledger n k =
     (if k = ''instance'' \<or> k = ''balance'' then
        Some \<lparr>lr_key = k, lr_xdr = ''xdr'', lr_last_modified = 1,
              lr_live_until = Some (if k = ''instance'' then 1100 else 91000), lr_value = None\<rparr>
      else None)"

definition demo_reader :: "unit ledger_client" where
  "demo_reader =
     \<lparr>ck_now = (\<lambda>_. 0), ck_sleep = (\<lambda>_ w. w),
      lc_get_entries = (\<lambda>keys w. (w, HttpReply 200 (Inr
        \<lparr>jr_result = Some \<lparr>st_entries = List.map_filter (demo_ledger 1000) keys, st_latest = 1000\<rparr>,
         jr_error = None\<rparr>)))\<rparr>"

definition demo_storage_tools :: storage_tools where
  "demo_storage_tools =
     \<lparr>sg_extend_keys = (\<lambda>c extra. Ok (''instance'' # extra)), sg_contract_data_value = Some,
      sg_ledger_key = (\<lambda>k. Some (KeyContractData ''C'' (if k = ''instance'' then VLedgerKeyContractInstance else VVoid)
        Persistent))\<rparr>"

definition demo_report :: storage_report where
  "demo_report =
     \<lparr>rp_contract_id = ''C'', rp_total_entries = 2, rp_instance_entries = 1, rp_persistent_entries = 1,
      rp_temporary_entries = 0, rp_other_entries = 0, rp_total_size_bytes = None,
      rp_ttl_summary = Some \<lparr>ts_minimum_ttl = 100, ts_maximum_ttl = 90000, ts_average_ttl = 45050,
        ts_expiring_entries = 1, ts_estimated_rent_cost = Some 9010000\<rparr>,
      rp_entries =
        [\<lparr>sn_key = ''instance'', sn_label = None, sn_class = InstanceClass, sn_current_ttl = 100, sn_days_remaining = 0,
          sn_extension_cost = 10000, sn_value = Some ''xdr''\<rparr>,
         \<lparr>sn_key = ''balance'', sn_label = None, sn_class = PersistentClass, sn_current_ttl = 90000, sn_days_remaining = 5,
          sn_extension_cost = 9000000, sn_value = Some ''xdr''\<rparr>],
      rp_latest_ledger = Some 1000, rp_network = None\<rparr>"

lemma demo_reader_answers: "answers_from_ledgers demo_reader demo_ledger"
  by (auto simp: answers_from_ledgers_def demo_reader_def request_attempts attempt_end_def is_success_status_def
      response_result_def set_map_filter demo_ledger_def split: if_splits)

lemma demo_fetch:
  "fetch_ledger_entries demo_reader [''instance'', ''balance'', ''gone''] 200 () =
     ((), Ok \<lparr>st_entries = List.map_filter (demo_ledger 1000) [''instance'', ''balance'', ''gone''], st_latest = 1000\<rparr>)"
  by (simp add: fetch_ledger_entries_def batch_size_def MAX_LEDGER_KEYS_def get_contract_storage_def demo_reader_def
      request_attempts attempt_end_def is_success_status_def response_result_def)

lemma demo_classes:
  "classify_key demo_storage_tools ''instance'' = InstanceClass" "classify_key demo_storage_tools ''balance'' = PersistentClass"
  "sg_contract_data_value demo_storage_tools x = Some x" "sg_extend_keys demo_storage_tools c ks = Ok (''instance'' # ks)"
proof -
  show "sg_contract_data_value demo_storage_tools x = Some x" "sg_extend_keys demo_storage_tools c ks = Ok (''instance'' # ks)"
    by (simp_all add: demo_storage_tools_def)
qed code_simp+

lemma demo_inspection:
  "inspect_contract_storage_keys (new_analyzer demo_reader) demo_storage_tools ''C'' [''balance'', ''gone''] () =
     ((), Ok demo_report)"
  by (simp add: inspect_contract_storage_keys_def get_ttl_info_for_keys_def new_analyzer_def io_bind_def io_map_err_def
      demo_fetch demo_classes List.map_filter_def demo_ledger_def
      describe_ttl_def entry_ttl_def calculate_extension_cost_def EXPIRING_SOON_LEDGERS_def
      report_of_def analyze_entry_def empty_analysis_def count_class_def count_ttl_def summary_of_def detailed_entry_def
      demo_report_def flip: numeral_2_eq_2)


end
