(* ===== verification/Storage_Snapshot.thy ===== *)
theory Storage_Snapshot
  imports Storage_Report
begin

text \<open>
  Snapshots of a contract's storage, their comparison and the plan to extend what expires,
  \<^verbatim>\<open>sdkt-storage/src/snapshot.rs\<close>. The order in which a hash map iterates is a parameter: a function that
  permutes the association list. Ledger numbers and times to live are \<^verbatim>\<open>u32\<close> values as natural numbers,
  with the saturation of their arithmetic written out.
\<close>

section \<open>Snapshots\<close>

definition DEFAULT_SUGGESTED_LEDGERS :: nat where
  "DEFAULT_SUGGESTED_LEDGERS = 518400"

record snapshot_entry =
  ss_key :: string
  ss_label :: "string option"
  ss_current_ttl :: nat
  ss_value :: "string option"

record storage_snapshot =
  sh_contract_id :: string
  sh_latest_ledger :: "nat option"
  sh_network :: "string option"
  sh_entries :: "snapshot_entry list"

definition snapshot_from_report :: "storage_report \<Rightarrow> (storage_snapshot, storage_error) result" where
  "snapshot_from_report r =
     (if rp_total_entries r > 0 \<and> rp_entries r = [] then
        Err (StorageParse (''Snapshot report for contract '' @ CHR 0x27 # rp_contract_id r @ CHR 0x27 #
          '' has total_entries ('' @ show_nat (rp_total_entries r) @ '') > 0 but entries array is empty '' @
          ''(legacy or summary-only report without per-entry detail)''))
      else
        Ok \<lparr>sh_contract_id = rp_contract_id r, sh_latest_ledger = rp_latest_ledger r, sh_network = rp_network r,
            sh_entries = map (\<lambda>e. \<lparr>ss_key = sn_key e, ss_label = sn_label e, ss_current_ttl = sn_current_ttl e,
              ss_value = sn_value e\<rparr>) (rp_entries r)\<rparr>)"

definition snapshot_from_entries :: "string \<Rightarrow> snapshot_entry list \<Rightarrow> storage_snapshot" where
  "snapshot_from_entries contract_id entries =
     \<lparr>sh_contract_id = contract_id, sh_latest_ledger = None, sh_network = None, sh_entries = entries\<rparr>"

definition with_context :: "nat option \<Rightarrow> string option \<Rightarrow> storage_snapshot \<Rightarrow> storage_snapshot" where
  "with_context ledger net s = s\<lparr>sh_latest_ledger := ledger, sh_network := net\<rparr>"

section \<open>Differences\<close>

datatype diff_status = DiffRemoved | DiffExpiringSoon | DiffUnchanged | DiffValueChanged

record diff_entry =
  df_key :: string
  df_label :: "string option"
  df_status :: diff_status
  df_old_ttl :: "nat option"
  df_new_ttl :: "nat option"
  df_normalized_old_ttl :: "nat option"
  df_old_value :: "string option"
  df_new_value :: "string option"

record snapshot_diff =
  sf_contract_id :: string
  sf_old_ledger :: "nat option"
  sf_new_ledger :: "nat option"
  sf_ledger_delta :: "int option"
  sf_network :: "string option"
  sf_capture_context :: "string option"
  sf_entries :: "diff_entry list"

definition actionable :: "snapshot_diff \<Rightarrow> diff_entry list" where
  "actionable d = filter (\<lambda>e. df_status e = DiffRemoved \<or> df_status e = DiffExpiringSoon) (sf_entries d)"

definition normalize_ttl :: "int \<Rightarrow> nat \<Rightarrow> nat" where
  "normalize_ttl delta old_ttl =
     (if delta \<ge> 0 then old_ttl - nat delta else min (old_ttl + nat (- delta)) (2 ^ 32 - 1))"

definition live_status :: "snapshot_entry option \<Rightarrow> snapshot_entry \<Rightarrow> diff_status" where
  "live_status old new =
     (if ss_current_ttl new < EXPIRING_SOON_LEDGERS then DiffExpiringSoon
      else
        (case old of
           None \<Rightarrow> DiffUnchanged
         | Some o1 \<Rightarrow>
             (case (ss_value o1, ss_value new) of
                (Some v, Some v') \<Rightarrow> if v \<noteq> v' then DiffValueChanged else DiffUnchanged
              | _ \<Rightarrow> DiffUnchanged)))"

text \<open>The body of the loop over the old entries, and of the loop over the new ones.\<close>

definition old_diff_entry ::
  "int option \<Rightarrow> (string, snapshot_entry) hash_map \<Rightarrow> string \<times> snapshot_entry \<Rightarrow> diff_entry" where
  "old_diff_entry delta new_map ke =
     (let old = snd ke in
      case hm_get new_map (fst ke) of
        Some new \<Rightarrow>
          \<lparr>df_key = fst ke, df_label = or_else (ss_label new) (ss_label old), df_status = live_status (Some old) new,
           df_old_ttl = Some (ss_current_ttl old), df_new_ttl = Some (ss_current_ttl new),
           df_normalized_old_ttl = map_option (\<lambda>d. normalize_ttl d (ss_current_ttl old)) delta,
           df_old_value = ss_value old, df_new_value = ss_value new\<rparr>
      | None \<Rightarrow>
          \<lparr>df_key = fst ke, df_label = ss_label old, df_status = DiffRemoved, df_old_ttl = Some (ss_current_ttl old),
           df_new_ttl = None, df_normalized_old_ttl = None, df_old_value = ss_value old, df_new_value = None\<rparr>)"

definition new_diff_entry :: "string \<times> snapshot_entry \<Rightarrow> diff_entry" where
  "new_diff_entry ke =
     (let new = snd ke in
      \<lparr>df_key = fst ke, df_label = ss_label new, df_status = live_status None new, df_old_ttl = None,
       df_new_ttl = Some (ss_current_ttl new), df_normalized_old_ttl = None, df_old_value = None,
       df_new_value = ss_value new\<rparr>)"

definition snapshot_map :: "storage_snapshot \<Rightarrow> (string, snapshot_entry) hash_map" where
  "snapshot_map s = hm_collect (map (\<lambda>e. (ss_key e, e)) (sh_entries s))"

definition common_network :: "string option \<Rightarrow> string option \<Rightarrow> string option" where
  "common_network old new =
     (case (old, new) of
        (Some o1, Some n1) \<Rightarrow> if o1 = n1 then Some o1 else None
      | (Some o1, None) \<Rightarrow> Some o1
      | (None, Some n1) \<Rightarrow> Some n1
      | (None, None) \<Rightarrow> None)"

definition check_networks :: "string option \<Rightarrow> string option \<Rightarrow> (unit, storage_error) result" where
  "check_networks old new =
     (case (old, new) of
        (Some o1, Some n1) \<Rightarrow> if o1 \<noteq> n1 then Err (NetworkMismatch o1 n1) else Ok ()
      | _ \<Rightarrow> Ok ())"

definition ledger_delta :: "nat option \<Rightarrow> nat option \<Rightarrow> int option" where
  "ledger_delta old new = (case (old, new) of (Some o1, Some n1) \<Rightarrow> Some (int n1 - int o1) | _ \<Rightarrow> None)"

definition diff_snapshots ::
  "((string \<times> snapshot_entry) list \<Rightarrow> (string \<times> snapshot_entry) list) \<Rightarrow> storage_snapshot \<Rightarrow> storage_snapshot \<Rightarrow>
   (snapshot_diff, storage_error) result" where
  "diff_snapshots iteration old new =
     (if sh_contract_id old \<noteq> sh_contract_id new then
        Err (ContractIdMismatch (sh_contract_id old) (sh_contract_id new))
      else
        and_then (check_networks (sh_network old) (sh_network new)) (\<lambda>_.
          (let delta = ledger_delta (sh_latest_ledger old) (sh_latest_ledger new);
               unknown = (sh_latest_ledger old = None \<or> sh_latest_ledger new = None \<or>
                          sh_network old = None \<or> sh_network new = None);
               old_map = snapshot_map old;
               new_map = snapshot_map new;
               entries = map (old_diff_entry delta new_map) (iteration old_map) @
                 map new_diff_entry (filter (\<lambda>ke. \<not> hm_contains_key old_map (fst ke)) (iteration new_map))
           in Ok \<lparr>sf_contract_id = sh_contract_id old, sf_old_ledger = sh_latest_ledger old,
                  sf_new_ledger = sh_latest_ledger new, sf_ledger_delta = delta,
                  sf_network = common_network (sh_network old) (sh_network new),
                  sf_capture_context = (if unknown then Some ''unknown'' else None),
                  sf_entries = sort_key df_key entries\<rparr>)))"

section \<open>The plan\<close>

record extend_plan =
  ep_contract_id :: string
  ep_keys :: "string list"
  ep_suggested_ledgers :: nat
  ep_reason :: string

definition remaining_ttls :: "diff_entry list \<Rightarrow> nat list" where
  "remaining_ttls es = List.map_filter (\<lambda>e. if df_status e = DiffExpiringSoon then df_new_ttl e else None) es"

text \<open>\<^verbatim>\<open>Iterator::min\<close>.\<close>

definition min_option :: "nat list \<Rightarrow> nat option" where
  "min_option xs = (case xs of [] \<Rightarrow> None | y # ys \<Rightarrow> Some (fold min ys y))"

definition derive_extend_plan :: "snapshot_diff \<Rightarrow> extend_plan" where
  "derive_extend_plan d =
     (let es = actionable d in
      if es = [] then
        \<lparr>ep_contract_id = sf_contract_id d, ep_keys = [], ep_suggested_ledgers = DEFAULT_SUGGESTED_LEDGERS,
         ep_reason = ''No actionable entries; nothing to extend.''\<rparr>
      else
        (case min_option (remaining_ttls es) of
           Some min_ttl \<Rightarrow>
             (let suggested = min (min_ttl + DEFAULT_SUGGESTED_LEDGERS) (2 ^ 32 - 1) in
              \<lparr>ep_contract_id = sf_contract_id d, ep_keys = map df_key es, ep_suggested_ledgers = suggested,
               ep_reason = ''Minimum remaining TTL of expiring entries is '' @ show_nat min_ttl @
                 '' ledgers; suggested '' @ show_nat suggested @ '' (min_ttl + '' @ show_nat DEFAULT_SUGGESTED_LEDGERS @
                 '' default horizon).''\<rparr>)
         | None \<Rightarrow>
             \<lparr>ep_contract_id = sf_contract_id d, ep_keys = map df_key es,
              ep_suggested_ledgers = DEFAULT_SUGGESTED_LEDGERS,
              ep_reason = ''All actionable entries are removed (no remaining TTL); defaulting to '' @
                show_nat DEFAULT_SUGGESTED_LEDGERS @ '' ledgers (~30 days).''\<rparr>))"

section \<open>The comparison is a function of the two snapshots\<close>

text \<open>What a snapshot says of a key: its last entry for the key.\<close>

definition entry_at :: "storage_snapshot \<Rightarrow> string \<Rightarrow> snapshot_entry option" where
  "entry_at s k = find (\<lambda>e. ss_key e = k) (rev (sh_entries s))"

text \<open>The entry of a comparison for a key, from what the two snapshots say of it.\<close>

definition expected_entry ::
  "int option \<Rightarrow> string \<Rightarrow> snapshot_entry option \<Rightarrow> snapshot_entry option \<Rightarrow> diff_entry option" where
  "expected_entry delta k old new =
     (case (old, new) of
        (None, None) \<Rightarrow> None
      | (Some o1, None) \<Rightarrow>
          Some \<lparr>df_key = k, df_label = ss_label o1, df_status = DiffRemoved, df_old_ttl = Some (ss_current_ttl o1),
                df_new_ttl = None, df_normalized_old_ttl = None, df_old_value = ss_value o1, df_new_value = None\<rparr>
      | (_, Some n1) \<Rightarrow>
          Some \<lparr>df_key = k, df_label = or_else (ss_label n1) (Option.bind old ss_label), df_status = live_status old n1,
                df_old_ttl = map_option ss_current_ttl old, df_new_ttl = Some (ss_current_ttl n1),
                df_normalized_old_ttl =
                  Option.bind old (\<lambda>o1. map_option (\<lambda>d. normalize_ttl d (ss_current_ttl o1)) delta),
                df_old_value = Option.bind old ss_value, df_new_value = ss_value n1\<rparr>)"

lemma snapshot_map_facts: "hm_wf (snapshot_map s)" "hm_get (snapshot_map s) k = entry_at s k"
  unfolding snapshot_map_def
  by (simp_all add: hm.wf_collect hm.lookup_collect entry_at_def map_of_find rev_map)

lemma entry_at_key: "entry_at s k = Some e \<Longrightarrow> ss_key e = k"
  by (auto simp: entry_at_def find_Some_iff)

text \<open>The list of the entries before it is sorted.\<close>

definition unsorted_entries ::
  "((string \<times> snapshot_entry) list \<Rightarrow> (string \<times> snapshot_entry) list) \<Rightarrow> storage_snapshot \<Rightarrow> storage_snapshot \<Rightarrow>
   diff_entry list" where
  "unsorted_entries iteration old new =
     map (old_diff_entry (ledger_delta (sh_latest_ledger old) (sh_latest_ledger new)) (snapshot_map new))
       (iteration (snapshot_map old)) @
     map new_diff_entry (filter (\<lambda>ke. \<not> hm_contains_key (snapshot_map old) (fst ke)) (iteration (snapshot_map new)))"

lemma iterated:
  assumes "\<forall>m. mset (iteration m) = mset m"
  shows "(k, e) \<in> set (iteration (snapshot_map s)) \<longleftrightarrow> entry_at s k = Some e"
    and "distinct (map fst (iteration (snapshot_map s)))"
proof -
  have same: "mset (iteration (snapshot_map s)) = mset (snapshot_map s)" using assms by blast
  then show "(k, e) \<in> set (iteration (snapshot_map s)) \<longleftrightarrow> entry_at s k = Some e"
    using hm_get_in_iff [OF snapshot_map_facts(1)] snapshot_map_facts(2) by (metis mset_eq_setD)
  have "mset (map fst (iteration (snapshot_map s))) = mset (map fst (snapshot_map s))" using same by simp
  then show "distinct (map fst (iteration (snapshot_map s)))"
    using snapshot_map_facts(1) [of s] unfolding hm_wf_def by (metis mset_eq_imp_distinct_iff)
qed

lemma old_diff_entry_expected:
  "entry_at old k = Some o1 \<Longrightarrow>
     Some (old_diff_entry delta (snapshot_map new) (k, o1)) = expected_entry delta k (entry_at old k) (entry_at new k)"
  by (simp add: old_diff_entry_def expected_entry_def snapshot_map_facts split: option.split)

lemma new_diff_entry_expected:
  "\<lbrakk>entry_at old k = None; entry_at new k = Some n1\<rbrakk> \<Longrightarrow>
     Some (new_diff_entry (k, n1)) = expected_entry delta k (entry_at old k) (entry_at new k)"
  by (cases "ss_label n1") (simp_all add: new_diff_entry_def expected_entry_def)

lemma expected_entry_key: "expected_entry delta k old new = Some e \<Longrightarrow> df_key e = k"
  by (auto simp: expected_entry_def split: option.splits)

lemma unsorted_entries_facts:
  assumes iteration: "\<forall>m. mset (iteration m) = mset m"
  shows "e \<in> set (unsorted_entries iteration old new) \<longleftrightarrow>
      expected_entry (ledger_delta (sh_latest_ledger old) (sh_latest_ledger new)) (df_key e)
        (entry_at old (df_key e)) (entry_at new (df_key e)) = Some e"
    and "distinct (map df_key (unsorted_entries iteration old new))"
proof -
  let ?delta = "ledger_delta (sh_latest_ledger old) (sh_latest_ledger new)"
  note mem = iterated(1) [OF iteration] and keys = iterated(2) [OF iteration]
  show "e \<in> set (unsorted_entries iteration old new) \<longleftrightarrow>
      expected_entry ?delta (df_key e) (entry_at old (df_key e)) (entry_at new (df_key e)) = Some e"
  proof
    assume "e \<in> set (unsorted_entries iteration old new)"
    then consider (old) k o1 where "entry_at old k = Some o1" "e = old_diff_entry ?delta (snapshot_map new) (k, o1)"
      | (new) k n1 where "entry_at new k = Some n1" "entry_at old k = None" "e = new_diff_entry (k, n1)"
      by (auto simp: unsorted_entries_def mem hm_contains_key_get snapshot_map_facts)
    then obtain k where "expected_entry ?delta k (entry_at old k) (entry_at new k) = Some e"
      using old_diff_entry_expected new_diff_entry_expected by cases metis+
    then show "expected_entry ?delta (df_key e) (entry_at old (df_key e)) (entry_at new (df_key e)) = Some e"
      using expected_entry_key by metis
  next
    let ?k = "df_key e"
    assume expected: "expected_entry ?delta ?k (entry_at old ?k) (entry_at new ?k) = Some e"
    show "e \<in> set (unsorted_entries iteration old new)"
    proof (cases "entry_at old ?k")
      case (Some o1)
      then have "e = old_diff_entry ?delta (snapshot_map new) (?k, o1)"
        using old_diff_entry_expected [OF Some] expected by (metis option.inject)
      moreover have "(?k, o1) \<in> set (iteration (snapshot_map old))" using Some mem by blast
      ultimately show ?thesis unfolding unsorted_entries_def by (metis Un_iff imageI set_append set_map)
    next
      case None
      then obtain n1 where n1: "entry_at new ?k = Some n1"
        using expected by (cases "entry_at new ?k") (simp_all add: expected_entry_def)
      then have "e = new_diff_entry (?k, n1)"
        using new_diff_entry_expected [OF None n1] expected by (metis option.inject)
      moreover have "(?k, n1) \<in> set (filter (\<lambda>ke. \<not> hm_contains_key (snapshot_map old) (fst ke)) (iteration (snapshot_map new)))"
        using n1 None mem by (simp add: hm_contains_key_get snapshot_map_facts)
      ultimately show ?thesis unfolding unsorted_entries_def by (metis Un_iff imageI set_append set_map)
    qed
  qed
  have key: "df_key (old_diff_entry d m ke) = fst ke" "df_key (new_diff_entry ke) = fst ke" for d m ke
    by (simp_all add: old_diff_entry_def new_diff_entry_def Let_def split: option.split)
  then have "map df_key (unsorted_entries iteration old new) =
      map fst (iteration (snapshot_map old)) @
      map fst (filter (\<lambda>ke. \<not> hm_contains_key (snapshot_map old) (fst ke)) (iteration (snapshot_map new)))"
    by (simp add: unsorted_entries_def comp_def)
  moreover have "fst ke \<notin> fst ` set (iteration (snapshot_map old))"
    if "\<not> hm_contains_key (snapshot_map old) (fst ke)" for ke
    using that mem by (force simp: hm_contains_key_get snapshot_map_facts)
  ultimately show "distinct (map df_key (unsorted_entries iteration old new))"
    using keys by (auto simp: distinct_map_filter) (metis fst_conv image_eqI)
qed

lemma diff_snapshots_Ok:
  assumes "diff_snapshots iteration old new = Ok d"
  shows "sf_entries d = sort_key df_key (unsorted_entries iteration old new)"
    and "sf_ledger_delta d = ledger_delta (sh_latest_ledger old) (sh_latest_ledger new)"
  using assms unfolding unsorted_entries_def
  by (auto simp: diff_snapshots_def Let_def split: if_splits)

lemma diff_snapshots_accepts:
  "(\<exists>d. diff_snapshots iteration old new = Ok d) \<longleftrightarrow>
     sh_contract_id old = sh_contract_id new \<and>
     (sh_network old = None \<or> sh_network new = None \<or> sh_network old = sh_network new)"
  by (auto simp: diff_snapshots_def check_networks_def Let_def split: option.splits)

lemma expected_actionable:
  "expected_entry delta k old new = Some e \<Longrightarrow>
     (df_status e = DiffRemoved \<or> df_status e = DiffExpiringSoon) \<longleftrightarrow>
     (case new of None \<Rightarrow> True | Some n1 \<Rightarrow> ss_current_ttl n1 < EXPIRING_SOON_LEDGERS)"
  by (auto simp: expected_entry_def live_status_def split: option.splits if_splits)

lemma expected_entry_exists:
  "(\<exists>e. expected_entry delta k old new = Some e) \<longleftrightarrow> old \<noteq> None \<or> new \<noteq> None"
  by (cases old; cases new) (auto simp: expected_entry_def)

lemma plan_keys: "ep_keys (derive_extend_plan d) = map df_key (actionable d)"
  by (simp add: derive_extend_plan_def Let_def split: option.split)

lemma plan_horizon: "DEFAULT_SUGGESTED_LEDGERS \<le> ep_suggested_ledgers (derive_extend_plan d)"
  by (simp add: derive_extend_plan_def Let_def DEFAULT_SUGGESTED_LEDGERS_def split: option.split)


text \<open>Two snapshots of one contract, iterated backwards.\<close>

definition demo_snapshot :: "nat \<Rightarrow> (string \<times> nat \<times> string option) list \<Rightarrow> storage_snapshot" where
  "demo_snapshot n rows =
     with_context (Some n) (Some ''testnet'')
       (snapshot_from_entries ''C'' (map (\<lambda>(k, ttl, v). \<lparr>ss_key = k, ss_label = None, ss_current_ttl = ttl, ss_value = v\<rparr>) rows))"

lemma demo_order:
  "''a'' \<le> ''b''" "''a'' \<le> ''c''" "''a'' \<le> ''d''" "''b'' \<le> ''c''" "''b'' \<le> ''d''" "''c'' \<le> ''d''"
  "\<not> ''b'' \<le> ''a''" "\<not> ''c'' \<le> ''a''" "\<not> ''d'' \<le> ''a''" "\<not> ''c'' \<le> ''b''" "\<not> ''d'' \<le> ''b''" "\<not> ''d'' \<le> ''c''"
  by code_simp+

lemma demo_diff:
  "map_ok (\<lambda>d. (map df_key (sf_entries d), map df_status (sf_entries d), ep_keys (derive_extend_plan d),
       ep_suggested_ledgers (derive_extend_plan d)))
     (diff_snapshots rev (demo_snapshot 100 [(''b'', 90000, Some ''1''), (''a'', 90000, None), (''c'', 20000, None)])
        (demo_snapshot 5100 [(''b'', 85000, Some ''2''), (''c'', 15000, None), (''d'', 90000, None)])) =
   Ok ([''a'', ''b'', ''c'', ''d''], [DiffRemoved, DiffValueChanged, DiffExpiringSoon, DiffUnchanged],
       [''a'', ''c''], 533400)"
  by (simp add: diff_snapshots_def demo_snapshot_def with_context_def snapshot_from_entries_def check_networks_def
      ledger_delta_def snapshot_map_def hm_collect_def hm_insert_def hm_get_def hm_contains_key_def
      old_diff_entry_def new_diff_entry_def live_status_def EXPIRING_SOON_LEDGERS_def demo_order
      derive_extend_plan_def actionable_def remaining_ttls_def List.map_filter_def min_option_def
      DEFAULT_SUGGESTED_LEDGERS_def)


end
