(* ===== verification/Capability_Registry.thy ===== *)
theory Capability_Registry
  imports Rust_Std
begin

text \<open>
  The capability registry, \<^verbatim>\<open>sdkt-core/src/registry.rs\<close>: the table of the commands of the CLI, what
  each requires and how dangerous it is. The agent looks a request up here before it builds a command
  line. Every entry of the table is one definition; \<open>capabilities\<close> lists them in the order of the
  source. The theorems state the rules of the module's documentation for the whole table.
\<close>

section \<open>Classes of commands\<close>

datatype safety = ReadOnly | LocalWrite | Mutating

datatype network_requirement = NetNone | NetTestnet | NetMainnet | NetBoth

record exit_semantics =
  ex_success :: int
  ex_runtime_error :: int
  ex_usage_error :: int
  ex_verdict_can_fail :: bool

definition STANDARD :: exit_semantics where
  "STANDARD = \<lparr>ex_success = 0, ex_runtime_error = 1, ex_usage_error = 2, ex_verdict_can_fail = False\<rparr>"

definition VERDICT_GATED :: exit_semantics where
  "VERDICT_GATED = STANDARD\<lparr>ex_verdict_can_fail := True\<rparr>"

record output_formats =
  fm_pretty :: bool
  fm_json :: bool

definition PRETTY :: output_formats where
  "PRETTY = \<lparr>fm_pretty = True, fm_json = False\<rparr>"

definition PRETTY_JSON :: output_formats where
  "PRETTY_JSON = \<lparr>fm_pretty = True, fm_json = True\<rparr>"

datatype evidence_level = VerifiedLocal | VerifiedTestnet | Unverified

section \<open>Capabilities\<close>

record capability =
  cp_id :: string
  cp_command :: "string list"
  cp_summary :: string
  cp_required_args :: "string list"
  cp_optional_args :: "string list"
  cp_formats :: output_formats
  cp_exit :: exit_semantics
  cp_network :: network_requirement
  cp_safety :: safety
  cp_requires_confirmation :: bool
  cp_evidence :: evidence_level
  cp_notes :: "string option"

definition BASE :: capability where
  "BASE = \<lparr>cp_id = [], cp_command = [], cp_summary = [], cp_required_args = [], cp_optional_args = [],
     cp_formats = PRETTY, cp_exit = STANDARD, cp_network = NetNone, cp_safety = ReadOnly,
     cp_requires_confirmation = False, cp_evidence = Unverified, cp_notes = None\<rparr>"

definition capability_argv :: "capability \<Rightarrow> string" where
  "capability_argv c = foldl (\<lambda>s part. s @ '' '' @ part) ''sdkt'' (cp_command c)"

section \<open>The table\<close>

text \<open>The UTF-8 encodings of the two characters of the notes that are not ASCII.\<close>

definition em_dash :: string where
  "em_dash = [CHR 0xE2, CHR 0x80, CHR 0x94]"

definition right_arrow :: string where
  "right_arrow = [CHR 0xE2, CHR 0x86, CHR 0x92]"

subsection \<open>WASM inspection\<close>

definition cap_wasm_inspect :: capability where
  "cap_wasm_inspect = BASE
     \<lparr>cp_id := ''wasm.inspect'',
      cp_command := [''wasm'', ''inspect''],
      cp_summary := ''Offline analysis of a local WASM artifact: hash, size, sections, decoded contractmetav0, spec.'',
      cp_required_args := [''<file.wasm>''],
      cp_optional_args := [''--format''],
      cp_formats := PRETTY_JSON,
      cp_evidence := VerifiedLocal\<rparr>"

definition cap_wasm_metadata :: capability where
  "cap_wasm_metadata = BASE
     \<lparr>cp_id := ''wasm.metadata'',
      cp_command := [''wasm'', ''metadata''],
      cp_summary := ''Metadata + parsed ABI + storage/TTL posture for a deployed contract (cached; optional refresh).'',
      cp_required_args := [''--contract <C...>''],
      cp_optional_args := [''--rpc-url'', ''--network-passphrase'', ''--network'', ''--network-profile'', ''--refresh'', ''--format''],
      cp_formats := PRETTY_JSON,
      cp_network := NetBoth,
      cp_evidence := VerifiedTestnet\<rparr>"

subsection \<open>Diff / upgrade safety\<close>

definition cap_diff :: capability where
  "cap_diff = BASE
     \<lparr>cp_id := ''diff'',
      cp_command := [''diff''],
      cp_summary := ''Offline ABI/function/event/type diff between two WASM artifacts, plus signed size deltas.'',
      cp_required_args := [''--old-wasm <f>'', ''--new-wasm <f>''],
      cp_optional_args := [''--format'', ''--upgrade-safety'', ''--max-size-bytes'', ''--max-growth-pct''],
      cp_formats := PRETTY_JSON,
      cp_exit := VERDICT_GATED,
      cp_evidence := VerifiedLocal,
      cp_notes := Some ''Size policy flags are rejected in combination with --upgrade-safety.''\<rparr>"

definition cap_diff_upgrade_safety :: capability where
  "cap_diff_upgrade_safety = BASE
     \<lparr>cp_id := ''diff.upgrade_safety'',
      cp_command := [''diff'', ''--upgrade-safety''],
      cp_summary := ''Breaking/non-breaking upgrade verdict between two artifacts.'',
      cp_required_args := [''--old-wasm <f>'', ''--new-wasm <f>''],
      cp_optional_args := [''--format''],
      cp_formats := PRETTY_JSON,
      cp_evidence := VerifiedLocal,
      cp_notes := Some (''An incompatible verdict is reported in the JSON (`compatible: false`) but still exits 0 '' @ em_dash @ '' it is a signal to read, not a gate. Only the opt-in size policy (--max-size-bytes / --max-growth-pct) makes `diff` exit non-zero.'')\<rparr>"

subsection \<open>Static audit\<close>

definition cap_audit :: capability where
  "cap_audit = BASE
     \<lparr>cp_id := ''audit'',
      cp_command := [''audit''],
      cp_summary := ''Heuristic static security analysis of Soroban Rust sources (AUTH/MATH/CEI/MOVE rules).'',
      cp_required_args := [''<paths..>''],
      cp_optional_args := [''--format'', ''--disable'', ''--rules'', ''--no-plugins'', ''--list-rules'', ''--fail-on''],
      cp_formats := PRETTY_JSON,
      cp_evidence := VerifiedLocal,
      cp_notes := Some ''Findings are advisory signals, never proofs of exploitability; exits 0 by default, or 1 if findings meet or exceed --fail-on.''\<rparr>"

definition cap_audit_list_rules :: capability where
  "cap_audit_list_rules = BASE
     \<lparr>cp_id := ''audit.list_rules'',
      cp_command := [''audit'', ''--list-rules''],
      cp_summary := ''Registered rule ids with severity and description; no source path required.'',
      cp_optional_args := [''--format''],
      cp_formats := PRETTY_JSON,
      cp_evidence := VerifiedLocal\<rparr>"

subsection \<open>Deployed reality\<close>

definition cap_verify :: capability where
  "cap_verify = BASE
     \<lparr>cp_id := ''verify'',
      cp_command := [''verify''],
      cp_summary := ''Compare a local WASM's offline hash against the deployed contract's on-chain hash.'',
      cp_required_args := [''--contract <C...>''],
      cp_optional_args := [''--rpc-url'', ''--network-passphrase'', ''--wasm <f>'', ''--network'', ''--network-profile'', ''--format'', ''--upgrade-safety''],
      cp_formats := PRETTY_JSON,
      cp_exit := VERDICT_GATED,
      cp_network := NetBoth,
      cp_evidence := VerifiedTestnet,
      cp_notes := Some ''Mismatch exits 1; without --wasm the report is OnChainOnly and exits 0.''\<rparr>"

definition cap_deployment_verify :: capability where
  "cap_deployment_verify = BASE
     \<lparr>cp_id := ''deployment.verify'',
      cp_command := [''deployment-verify''],
      cp_summary := ''Read-only deployment verification: compare a local WASM's offline hash against the deployed contract's executable. Verdicts: MATCH, DRIFT, UNKNOWN, NOT_FOUND.'',
      cp_required_args := [''--contract <C...>''],
      cp_optional_args := [''--wasm <f>'', ''--network'', ''--rpc-url'', ''--network-passphrase'', ''--network-profile'', ''--format''],
      cp_formats := PRETTY_JSON,
      cp_exit := VERDICT_GATED,
      cp_network := NetBoth,
      cp_evidence := VerifiedTestnet,
      cp_notes := Some ''Exits 0 only on MATCH; DRIFT, UNKNOWN and NOT_FOUND exit 1 with a valid report. Probes the raw contract-instance ledger entry (no bytecode download); non-Wasm executables (stellar_asset) and unresolvable CAP-85 external refs are UNKNOWN with a reason, never a guessed match. Read-only: never signs, submits or deploys.''\<rparr>"

definition cap_health :: capability where
  "cap_health = BASE
     \<lparr>cp_id := ''health'',
      cp_command := [''health''],
      cp_summary := ''Read-only contract posture: WASM verification, storage layout, TTL expiry, verdict + reasons.'',
      cp_required_args := [''--contract <C...>''],
      cp_optional_args := [''--rpc-url'', ''--network-passphrase'', ''--wasm <f>'', ''--network'', ''--network-profile'', ''--format''],
      cp_formats := PRETTY_JSON,
      cp_exit := VERDICT_GATED,
      cp_network := NetBoth,
      cp_evidence := VerifiedTestnet,
      cp_notes := Some ''A `critical` verdict exits 1 while still printing a full report; `at_risk` and `healthy` exit 0.''\<rparr>"

definition cap_inspect :: capability where
  "cap_inspect = BASE
     \<lparr>cp_id := ''inspect'',
      cp_command := [''inspect''],
      cp_summary := ''On-chain contract inspection: wasm hash/size, ABI summary, storage and TTL.'',
      cp_required_args := [''<contract-id>''],
      cp_optional_args := [''--rpc-url'', ''--network-passphrase'', ''--network-profile'', ''--format''],
      cp_formats := PRETTY_JSON,
      cp_network := NetBoth,
      cp_evidence := VerifiedTestnet,
      cp_notes := Some ''Protocol 28 `stellar_asset` / CAP-85 external executables have no WASM hash and error explicitly.''\<rparr>"

definition cap_release_assurance :: capability where
  "cap_release_assurance = BASE
     \<lparr>cp_id := ''release_assurance'',
      cp_command := [''release-assurance''],
      cp_summary := ''Aggregate release verdict: artifact, audit, upgrade safety, deployed verification, health, size policy.'',
      cp_required_args := [''--wasm <f>''],
      cp_optional_args := [''--rpc-url'', ''--network-passphrase'', ''--previous-wasm <f>'', ''--audit <path>'', ''--disable <RULE>'', ''--contract <C>'', ''--network <n>'', ''--max-size-bytes <N>'', ''--max-growth-pct <N>'', ''--format''],
      cp_formats := PRETTY_JSON,
      cp_exit := VERDICT_GATED,
      cp_network := NetBoth,
      cp_evidence := VerifiedTestnet,
      cp_notes := Some ''Skipped sections never flatten into PASS; --max-growth-pct requires --previous-wasm and is a hard CLI error without it.''\<rparr>"

subsection \<open>Storage / events / calls\<close>

definition cap_storage_analyze :: capability where
  "cap_storage_analyze = BASE
     \<lparr>cp_id := ''storage.analyze'',
      cp_command := [''storage'', ''analyze''],
      cp_summary := ''Classify a contract's storage into Instance/Persistent/Temporary with TTL summary.'',
      cp_required_args := [''<contract-id>''],
      cp_optional_args := [''--rpc-url'', ''--network-passphrase'', ''--key-xdr'', ''--map-key'', ''--key-arg'', ''--durability'', ''--abi-contract'', ''--format''],
      cp_formats := PRETTY_JSON,
      cp_network := NetBoth,
      cp_evidence := VerifiedTestnet\<rparr>"

definition cap_events :: capability where
  "cap_events = BASE
     \<lparr>cp_id := ''events'',
      cp_command := [''events''],
      cp_summary := ''Fetch contract events with ledger range, server-side topic filter, optional ABI decoding.'',
      cp_required_args := [''<contract-id>''],
      cp_optional_args := [''--rpc-url'', ''--network-passphrase'', ''--start-ledger'', ''--end-ledger'', ''--topic'', ''--abi'', ''--abi-contract'', ''--format''],
      cp_formats := PRETTY_JSON,
      cp_network := NetBoth,
      cp_evidence := VerifiedTestnet,
      cp_notes := Some ''An empty event list is a successful result, not an error.''\<rparr>"

definition cap_call :: capability where
  "cap_call = BASE
     \<lparr>cp_id := ''call'',
      cp_command := [''call''],
      cp_summary := ''Read-only contract invocation via simulation; never signs or submits.'',
      cp_required_args := [''<contract-id>'', ''<function>''],
      cp_optional_args := [''--rpc-url'', ''--network-passphrase'', ''--args'', ''--args-json'', ''--abi'', ''--abi-contract'', ''--format''],
      cp_formats := PRETTY_JSON,
      cp_network := NetBoth,
      cp_evidence := Unverified,
      cp_notes := Some ''Only the error path was observed this session (simulation errors exit 1 with the host error text). A successful decoded call was not executed; argument shape is function-specific.''\<rparr>"

definition cap_account :: capability where
  "cap_account = BASE
     \<lparr>cp_id := ''account'',
      cp_command := [''account''],
      cp_summary := ''Account balances and complete signer list (Horizon-enriched).'',
      cp_required_args := [''<address>''],
      cp_optional_args := [''--rpc-url'', ''--network-passphrase'', ''--network-profile'', ''--format''],
      cp_formats := PRETTY_JSON,
      cp_network := NetBoth,
      cp_evidence := VerifiedTestnet,
      cp_notes := Some ''A nonexistent account exits 1 with 'Account not found on network'.''\<rparr>"

subsection \<open>Network / diagnostics\<close>

definition cap_network_list :: capability where
  "cap_network_list = BASE
     \<lparr>cp_id := ''network.list'',
      cp_command := [''network'', ''list''],
      cp_summary := ''Saved network profiles (name, RPC URL, passphrase).'',
      cp_optional_args := [''--format''],
      cp_formats := PRETTY_JSON,
      cp_evidence := VerifiedLocal\<rparr>"

definition cap_network_show :: capability where
  "cap_network_show = BASE
     \<lparr>cp_id := ''network.show'',
      cp_command := [''network'', ''show''],
      cp_summary := ''One saved profile.'',
      cp_required_args := [''<name>''],
      cp_optional_args := [''--format''],
      cp_formats := PRETTY_JSON,
      cp_evidence := VerifiedLocal\<rparr>"

definition cap_network_check :: capability where
  "cap_network_check = BASE
     \<lparr>cp_id := ''network.check'',
      cp_command := [''network'', ''check''],
      cp_summary := ''Profile reachability + node health + protocol version; unreachable endpoint exits non-zero.'',
      cp_required_args := [''<name>''],
      cp_optional_args := [''--format''],
      cp_formats := PRETTY_JSON,
      cp_network := NetBoth,
      cp_evidence := VerifiedLocal,
      cp_notes := Some ''Resolves a SAVED profile by name and has no --rpc-url; verified against a saved profile on a reachable host.''\<rparr>"

definition cap_network_diagnose :: capability where
  "cap_network_diagnose = BASE
     \<lparr>cp_id := ''network.diagnose'',
      cp_command := [''network'', ''diagnose''],
      cp_summary := ''Read-only network diagnosis: passphrase identity, protocol agreement across RPC and Horizon, and the ledger resource limits Horizon actually observed.'',
      cp_optional_args := [''--network'', ''--rpc-url'', ''--network-passphrase'', ''--network-profile'', ''--format''],
      cp_formats := PRETTY_JSON,
      cp_exit := VERDICT_GATED,
      cp_network := NetBoth,
      cp_evidence := VerifiedTestnet,
      cp_notes := Some ''Exit 0 only when the diagnosis status is ok; identity mismatch, protocol inconsistency or an unreachable endpoint exit 1 with a valid report. Resource limits come solely from Horizon's ledger resource and are reported unavailable (never hardcoded) when Horizon does not answer. Read-only: getHealth/getNetwork/getLatestLedger plus Horizon GETs only.''\<rparr>"

definition cap_network_add :: capability where
  "cap_network_add = BASE
     \<lparr>cp_id := ''network.add'',
      cp_command := [''network'', ''add''],
      cp_summary := ''Save a named RPC endpoint + passphrase profile.'',
      cp_required_args := [''<name>'', ''--rpc-url <url>'', ''--passphrase <phrase>''],
      cp_optional_args := [''--friendbot'', ''--description'', ''--format''],
      cp_formats := PRETTY_JSON,
      cp_safety := LocalWrite,
      cp_evidence := VerifiedLocal,
      cp_notes := Some ''Writes user config under the sdkt network dir; reversible with network remove.''\<rparr>"

definition cap_network_remove :: capability where
  "cap_network_remove = BASE
     \<lparr>cp_id := ''network.remove'',
      cp_command := [''network'', ''remove''],
      cp_summary := ''Delete a saved network profile.'',
      cp_required_args := [''<name>''],
      cp_optional_args := [''--format''],
      cp_formats := PRETTY_JSON,
      cp_safety := LocalWrite,
      cp_evidence := VerifiedLocal\<rparr>"

definition cap_doctor :: capability where
  "cap_doctor = BASE
     \<lparr>cp_id := ''doctor'',
      cp_command := [''doctor''],
      cp_summary := ''Environment/toolchain/project diagnostics with a healthy flag.'',
      cp_optional_args := [''--format'', ''--json''],
      cp_formats := PRETTY_JSON,
      cp_evidence := VerifiedLocal\<rparr>"

subsection \<open>Keystore\<close>

definition cap_identity_list :: capability where
  "cap_identity_list = BASE
     \<lparr>cp_id := ''identity.list'',
      cp_command := [''identity'', ''list''],
      cp_summary := ''Local ED25519 identities (names + public keys; no secret material).'',
      cp_optional_args := [''--format''],
      cp_formats := PRETTY_JSON,
      cp_safety := ReadOnly,
      cp_evidence := VerifiedLocal,
      cp_notes := Some ''`--format json` emits a name-sorted array of {name, public_key, default}; an empty store prints `[]`.''\<rparr>"

definition cap_identity_generate :: capability where
  "cap_identity_generate = BASE
     \<lparr>cp_id := ''identity.generate'',
      cp_command := [''identity'', ''generate''],
      cp_summary := ''Create a new keypair in the local keystore.'',
      cp_required_args := [''<name>''],
      cp_optional_args := [''--format''],
      cp_formats := PRETTY_JSON,
      cp_safety := LocalWrite,
      cp_evidence := Unverified,
      cp_notes := Some ''Not executed by the audit; keystore write, no ledger interaction. Secret material must never be surfaced to an agent. `--format json` prints public fields only (name + public key).''\<rparr>"

definition cap_identity_import :: capability where
  "cap_identity_import = BASE
     \<lparr>cp_id := ''identity.import'',
      cp_command := [''identity'', ''import''],
      cp_summary := ''Store an existing secret key in the local keystore.'',
      cp_required_args := [''<name>'', ''<secret-key>''],
      cp_safety := LocalWrite,
      cp_evidence := Unverified,
      cp_notes := Some ''Not executed by the audit. Handles secret input; an agent must never receive the key material in either direction.''\<rparr>"

definition cap_identity_delete :: capability where
  "cap_identity_delete = BASE
     \<lparr>cp_id := ''identity.delete'',
      cp_command := [''identity'', ''delete''],
      cp_summary := ''Remove an identity from the local keystore.'',
      cp_required_args := [''<name>''],
      cp_safety := LocalWrite,
      cp_evidence := Unverified,
      cp_notes := Some (''Not executed by the audit; irreversible local key destruction '' @ em_dash @ '' confirmation required for the operator.''),
      cp_requires_confirmation := True\<rparr>"

definition cap_identity_default :: capability where
  "cap_identity_default = BASE
     \<lparr>cp_id := ''identity.default'',
      cp_command := [''identity'', ''default''],
      cp_summary := ''Show or set the default identity.'',
      cp_required_args := [''[name]''],
      cp_safety := LocalWrite,
      cp_evidence := Unverified,
      cp_notes := Some ''Not executed by the audit; read when called without a name, write when given one.''\<rparr>"

subsection \<open>Build / scaffold / package / lock\<close>

definition cap_build :: capability where
  "cap_build = BASE
     \<lparr>cp_id := ''build'',
      cp_command := [''build''],
      cp_summary := ''Compile workspace contracts to WASM artifacts; JSON reports success + artifact list.'',
      cp_optional_args := [''--format''],
      cp_formats := PRETTY_JSON,
      cp_safety := LocalWrite,
      cp_evidence := VerifiedLocal,
      cp_notes := Some ''Requires the wasm32v1-none target; the advisory sdkt.lock report goes to stderr so stdout stays pure JSON. Protocol 28 projects route through `stellar contract build`.''\<rparr>"

definition cap_init :: capability where
  "cap_init = BASE
     \<lparr>cp_id := ''init'',
      cp_command := [''init''],
      cp_summary := ''Scaffold a new Soroban contract project.'',
      cp_required_args := [''<name>''],
      cp_optional_args := [''--minimal'', ''--force'', ''--format''],
      cp_formats := PRETTY_JSON,
      cp_safety := LocalWrite,
      cp_evidence := VerifiedLocal\<rparr>"

definition cap_generate_client :: capability where
  "cap_generate_client = BASE
     \<lparr>cp_id := ''generate.client'',
      cp_command := [''generate'', ''client''],
      cp_summary := ''Generate typed client Rust from a contract WASM spec.'',
      cp_required_args := [''<file.wasm>''],
      cp_optional_args := [''--output <PATH>'', ''--skip-unsupported''],
      cp_safety := LocalWrite,
      cp_evidence := VerifiedLocal,
      cp_notes := Some ''No --format json; emits Rust source (stdout or --output).''\<rparr>"

definition cap_package_validate :: capability where
  "cap_package_validate = BASE
     \<lparr>cp_id := ''package.validate'',
      cp_command := [''package'', ''validate''],
      cp_summary := ''Offline validation of the local package manifest + dependencies.'',
      cp_optional_args := [''--format''],
      cp_formats := PRETTY_JSON,
      cp_evidence := VerifiedLocal,
      cp_notes := Some ''An invalid manifest is a valid JSON report ({valid:false,error}) and exits non-zero.''\<rparr>"

definition cap_package_update :: capability where
  "cap_package_update = BASE
     \<lparr>cp_id := ''package.update'',
      cp_command := [''package'', ''update''],
      cp_summary := ''Resolve/update git dependencies against semver constraints.'',
      cp_optional_args := [''--check'', ''--dry-run'', ''--format''],
      cp_formats := PRETTY_JSON,
      cp_safety := LocalWrite,
      cp_network := NetBoth,
      cp_evidence := Unverified,
      cp_notes := Some ''Not executed by the audit; --dry-run/--check are the safe modes an agent should start with.''\<rparr>"

definition cap_package_publish :: capability where
  "cap_package_publish = BASE
     \<lparr>cp_id := ''package.publish'',
      cp_command := [''package'', ''publish''],
      cp_summary := ''Publish-readiness check / publish of the package.'',
      cp_optional_args := [''--dry-run''],
      cp_safety := LocalWrite,
      cp_evidence := Unverified,
      cp_notes := Some ''Not executed by the audit; --dry-run is the non-mutating mode. Actual publication is external and must stay human-gated.'',
      cp_requires_confirmation := True\<rparr>"

definition cap_lock_verify :: capability where
  "cap_lock_verify = BASE
     \<lparr>cp_id := ''lock.verify'',
      cp_command := [''lock'', ''verify''],
      cp_summary := ''Verify sdkt.lock against on-disk artifacts and resolved dependencies.'',
      cp_optional_args := [''--format''],
      cp_formats := PRETTY_JSON,
      cp_evidence := VerifiedLocal,
      cp_notes := Some ''A missing/invalid lock exits 1 with an error line.''\<rparr>"

definition cap_lock_generate :: capability where
  "cap_lock_generate = BASE
     \<lparr>cp_id := ''lock.generate'',
      cp_command := [''lock'', ''generate''],
      cp_summary := ''Write sdkt.lock from current build artifacts (build first).'',
      cp_optional_args := [''--format''],
      cp_formats := PRETTY_JSON,
      cp_safety := LocalWrite,
      cp_evidence := VerifiedLocal\<rparr>"

subsection \<open>Plugins\<close>

definition cap_plugin_list :: capability where
  "cap_plugin_list = BASE
     \<lparr>cp_id := ''plugin.list'',
      cp_command := [''plugin'', ''list''],
      cp_summary := ''Installed audit plugins in the local store.'',
      cp_optional_args := [''--format''],
      cp_formats := PRETTY_JSON,
      cp_evidence := VerifiedLocal\<rparr>"

definition cap_plugin_doctor :: capability where
  "cap_plugin_doctor = BASE
     \<lparr>cp_id := ''plugin.doctor'',
      cp_command := [''plugin'', ''doctor''],
      cp_summary := ''Staged plugin self-check (metadata, integrity, ABI, dry-run).'',
      cp_required_args := [''[target]''],
      cp_optional_args := [''--all'', ''--format''],
      cp_formats := PRETTY_JSON,
      cp_exit := STANDARD\<lparr>ex_runtime_error := 1\<rparr>,
      cp_evidence := VerifiedLocal,
      cp_notes := Some ''Exit code encodes the failed stage (1..=6), not just pass/fail.''\<rparr>"

definition cap_plugin_verify_bundle :: capability where
  "cap_plugin_verify_bundle = BASE
     \<lparr>cp_id := ''plugin.verify_bundle'',
      cp_command := [''plugin'', ''verify-bundle''],
      cp_summary := ''Verify a .sdktplugin bundle's digests and signature without installing.'',
      cp_required_args := [''<bundle>''],
      cp_optional_args := [''--public-key <file>'', ''--format''],
      cp_formats := PRETTY_JSON,
      cp_evidence := VerifiedLocal\<rparr>"

definition cap_plugin_install :: capability where
  "cap_plugin_install = BASE
     \<lparr>cp_id := ''plugin.install'',
      cp_command := [''plugin'', ''install''],
      cp_summary := ''Install a plugin artifact or bundle into the local store.'',
      cp_required_args := [''<path>''],
      cp_optional_args := [''--id'', ''--force'', ''--public-key <file>'', ''--format''],
      cp_formats := PRETTY_JSON,
      cp_safety := LocalWrite,
      cp_evidence := Unverified,
      cp_notes := Some (''Not executed by the audit; third-party code entering the plugin store '' @ em_dash @ '' treat as supply-chain-sensitive and require confirmation.''),
      cp_requires_confirmation := True\<rparr>"

subsection \<open>Fee / tx\<close>

definition cap_fee_estimate :: capability where
  "cap_fee_estimate = BASE
     \<lparr>cp_id := ''fee.estimate'',
      cp_command := [''fee'', ''estimate''],
      cp_summary := ''Fee estimate from supplied base fees or live RPC ledger-fee statistics.'',
      cp_optional_args := [''--rpc-url'', ''--network-passphrase'', ''--network'', ''--base-fees'', ''--rpc'', ''--network-profile'', ''--format''],
      cp_formats := PRETTY_JSON,
      cp_network := NetBoth,
      cp_evidence := VerifiedLocal,
      cp_notes := Some ''--base-fees path is offline; --rpc fetches network statistics (read-only).''\<rparr>"

definition cap_tx_decode :: capability where
  "cap_tx_decode = BASE
     \<lparr>cp_id := ''tx.decode'',
      cp_command := [''tx'', ''decode''],
      cp_summary := ''Human/JSON breakdown of a transaction envelope: ops, footprint, resources, signatures.'',
      cp_required_args := [''<xdr|file>''],
      cp_optional_args := [''--format''],
      cp_formats := PRETTY_JSON,
      cp_evidence := VerifiedLocal,
      cp_notes := Some ''Fully offline. Malformed base64 or trailing bytes exit non-zero; the valid-envelope breakdown was not exercised this session.''\<rparr>"

definition cap_tx_validate :: capability where
  "cap_tx_validate = BASE
     \<lparr>cp_id := ''tx.validate'',
      cp_command := [''tx'', ''validate''],
      cp_summary := ''Validate an envelope offline (structure, missing file, input resolution).'',
      cp_required_args := [''--envelope <xdr|file>''],
      cp_optional_args := [''--format''],
      cp_formats := PRETTY_JSON,
      cp_evidence := Unverified,
      cp_notes := Some ''Only the invalid-input path was observed (exit non-zero with a shared error message); a passing validation was not executed.''\<rparr>"

definition cap_tx_simulate :: capability where
  "cap_tx_simulate = BASE
     \<lparr>cp_id := ''tx.simulate'',
      cp_command := [''tx'', ''simulate''],
      cp_summary := ''Simulate an envelope without submitting: resources, auth entries, diagnostics, stateChanges.'',
      cp_required_args := [''--envelope <xdr|file>''],
      cp_optional_args := [''--rpc-url'', ''--network-passphrase'', ''--abi'', ''--abi-contract'', ''--network-profile'', ''--format''],
      cp_formats := PRETTY_JSON,
      cp_network := NetBoth,
      cp_evidence := Unverified,
      cp_notes := Some ''Not executed by this audit; read-only against the network, never signs or submits.''\<rparr>"

definition cap_tx_build :: capability where
  "cap_tx_build = BASE
     \<lparr>cp_id := ''tx.build'',
      cp_command := [''tx'', ''build''],
      cp_summary := ''Build an invocation envelope (optionally simulating to adopt fee/footprint).'',
      cp_required_args := [''--source <S>'', ''--contract <C>'', ''--function <fn>''],
      cp_optional_args := [''--rpc-url'', ''--network-passphrase'', ''--arg'', ''--sequence'', ''--fee'', ''--memo-text'', ''--network-profile'', ''--format''],
      cp_formats := PRETTY_JSON,
      cp_network := NetBoth,
      cp_safety := ReadOnly,
      cp_evidence := Unverified,
      cp_notes := Some (''Produces bytes only '' @ em_dash @ '' it does not sign or submit '' @ em_dash @ '' but the output is submission-ready, so downstream intent matters.'')\<rparr>"

definition cap_project_status :: capability where
  "cap_project_status = BASE
     \<lparr>cp_id := ''project.status'',
      cp_command := [''project'', ''status''],
      cp_summary := ''Multi-contract project resolution + deployment status.'',
      cp_optional_args := [''--rpc-url'', ''--network-passphrase'', ''--format'', ''--network-profile''],
      cp_formats := PRETTY_JSON,
      cp_network := NetBoth,
      cp_evidence := Unverified,
      cp_notes := Some ''Not executed by this audit; read-only.''\<rparr>"

subsection \<open>Mutating capabilities: never agent-executable without confirmation\<close>

definition cap_deploy :: capability where
  "cap_deploy = BASE
     \<lparr>cp_id := ''deploy'',
      cp_command := [''deploy''],
      cp_summary := ''Upload WASM + instantiate a contract on a network (signs and submits).'',
      cp_required_args := [''--wasm <f>''],
      cp_optional_args := [''--arg'', ''--salt'', ''--wasm-hash'', ''--identity'', ''--network-profile'', ''--deny-breaking'', ''--format''],
      cp_formats := PRETTY_JSON,
      cp_safety := Mutating,
      cp_requires_confirmation := True,
      cp_network := NetBoth,
      cp_evidence := Unverified,
      cp_notes := Some (''NEVER agent-executable without explicit human confirmation: spends fees and writes ledger state. Mainnet requires an explicitly selected network (safety guard). Not exercised by the audit '' @ em_dash @ '' deploy/upload is out of read-only bounds.'')\<rparr>"

definition cap_invoke :: capability where
  "cap_invoke = BASE
     \<lparr>cp_id := ''invoke'',
      cp_command := [''invoke''],
      cp_summary := ''Signed, submitted state-changing invocation (sequence '' @ right_arrow @ '' simulate '' @ right_arrow @ '' sign '' @ right_arrow @ '' submit '' @ right_arrow @ '' poll).'',
      cp_required_args := [''<contract-id>'', ''<function>''],
      cp_optional_args := [''--args'', ''--identity'', ''--build-only'', ''--network-profile'', ''--format''],
      cp_formats := PRETTY_JSON,
      cp_safety := Mutating,
      cp_requires_confirmation := True,
      cp_network := NetBoth,
      cp_evidence := Unverified,
      cp_notes := Some ''NEVER agent-executable without explicit human confirmation. --build-only stops before submission and is the only acceptable agent path.''\<rparr>"

definition cap_tx_sign :: capability where
  "cap_tx_sign = BASE
     \<lparr>cp_id := ''tx.sign'',
      cp_command := [''tx'', ''sign''],
      cp_summary := ''Sign an envelope with a local ED25519 identity.'',
      cp_required_args := [''--input <xdr|file>''],
      cp_optional_args := [''--identity'', ''--network'', ''--output'', ''--network-profile'', ''--format''],
      cp_formats := PRETTY_JSON,
      cp_safety := Mutating,
      cp_requires_confirmation := True,
      cp_evidence := Unverified,
      cp_notes := Some ''Key-bearing operation. An agent must never see secret material; signing authority requires explicit human confirmation.''\<rparr>"

definition cap_tx_submit :: capability where
  "cap_tx_submit = BASE
     \<lparr>cp_id := ''tx.submit'',
      cp_command := [''tx'', ''submit''],
      cp_summary := ''Submit a signed envelope to the network.'',
      cp_required_args := [''--envelope <xdr|file>''],
      cp_optional_args := [''--wait'', ''--timeout'', ''--interval'', ''--network-profile'', ''--format''],
      cp_formats := PRETTY_JSON,
      cp_safety := Mutating,
      cp_requires_confirmation := True,
      cp_network := NetBoth,
      cp_evidence := Unverified,
      cp_notes := Some ''Broadcasts irreversible ledger state; mainnet guarded by explicit-network requirement.''\<rparr>"

definition cap_storage_extend :: capability where
  "cap_storage_extend = BASE
     \<lparr>cp_id := ''storage.extend'',
      cp_command := [''storage'', ''extend''],
      cp_summary := ''Extend TTL of a contract footprint via ExtendFootprintTtl.'',
      cp_required_args := [''<contract-id>''],
      cp_optional_args := [''--ledgers'', ''--identity'', ''--network-profile'', ''--format''],
      cp_formats := PRETTY_JSON,
      cp_safety := Mutating,
      cp_requires_confirmation := True,
      cp_network := NetBoth,
      cp_evidence := Unverified,
      cp_notes := Some ''Submits a transaction and spends fees. It has no dry-run mode, so an agent must never call it unattended.''\<rparr>"

definition cap_storage_restore :: capability where
  "cap_storage_restore = BASE
     \<lparr>cp_id := ''storage.restore'',
      cp_command := [''storage'', ''restore''],
      cp_summary := ''Restore archived storage by adopting a simulation's restorePreamble.'',
      cp_required_args := [''--envelope <xdr>''],
      cp_optional_args := [''--dry-run'', ''--identity'', ''--network-profile'', ''--format''],
      cp_formats := PRETTY_JSON,
      cp_safety := Mutating,
      cp_requires_confirmation := True,
      cp_network := NetBoth,
      cp_evidence := Unverified,
      cp_notes := Some ''Submits a RestoreFootprint transaction. --dry-run lists keys/fee without submitting.''\<rparr>"

definition cap_project_deploy :: capability where
  "cap_project_deploy = BASE
     \<lparr>cp_id := ''project.deploy'',
      cp_command := [''project'', ''deploy''],
      cp_summary := ''Deploy a whole multi-contract project in resolved dependency order.'',
      cp_optional_args := [''--identity'', ''--network-profile'', ''--format''],
      cp_formats := PRETTY_JSON,
      cp_safety := Mutating,
      cp_requires_confirmation := True,
      cp_network := NetBoth,
      cp_evidence := Unverified,
      cp_notes := Some ''Fan-out of deploy transactions; highest blast radius in the toolkit.''\<rparr>"

definition cap_identity_fund :: capability where
  "cap_identity_fund = BASE
     \<lparr>cp_id := ''identity.fund'',
      cp_command := [''identity'', ''fund''],
      cp_summary := ''Fund an account via Testnet Friendbot.'',
      cp_required_args := [''<name>''],
      cp_optional_args := [''--format''],
      cp_formats := PRETTY_JSON,
      cp_safety := Mutating,
      cp_requires_confirmation := True,
      cp_network := NetTestnet,
      cp_evidence := Unverified,
      cp_notes := Some ''Submits a funding transaction; testnet only.''\<rparr>"

subsection \<open>All entries\<close>

definition capabilities :: "capability list" where
  "capabilities =
     [cap_wasm_inspect, cap_wasm_metadata, cap_diff, cap_diff_upgrade_safety, cap_audit,
      cap_audit_list_rules, cap_verify, cap_deployment_verify, cap_health, cap_inspect,
      cap_release_assurance, cap_storage_analyze, cap_events, cap_call, cap_account,
      cap_network_list, cap_network_show, cap_network_check, cap_network_diagnose,
      cap_network_add, cap_network_remove, cap_doctor, cap_identity_list,
      cap_identity_generate, cap_identity_import, cap_identity_delete, cap_identity_default,
      cap_build, cap_init, cap_generate_client, cap_package_validate, cap_package_update,
      cap_package_publish, cap_lock_verify, cap_lock_generate, cap_plugin_list,
      cap_plugin_doctor, cap_plugin_verify_bundle, cap_plugin_install, cap_fee_estimate,
      cap_tx_decode, cap_tx_validate, cap_tx_simulate, cap_tx_build, cap_project_status,
      cap_deploy, cap_invoke, cap_tx_sign, cap_tx_submit, cap_storage_extend,
      cap_storage_restore, cap_project_deploy, cap_identity_fund]"

lemmas capability_defs =
  cap_wasm_inspect_def cap_wasm_metadata_def cap_diff_def cap_diff_upgrade_safety_def
  cap_audit_def cap_audit_list_rules_def cap_verify_def cap_deployment_verify_def
  cap_health_def cap_inspect_def cap_release_assurance_def cap_storage_analyze_def
  cap_events_def cap_call_def cap_account_def cap_network_list_def cap_network_show_def
  cap_network_check_def cap_network_diagnose_def cap_network_add_def cap_network_remove_def
  cap_doctor_def cap_identity_list_def cap_identity_generate_def cap_identity_import_def
  cap_identity_delete_def cap_identity_default_def cap_build_def cap_init_def
  cap_generate_client_def cap_package_validate_def cap_package_update_def
  cap_package_publish_def cap_lock_verify_def cap_lock_generate_def cap_plugin_list_def
  cap_plugin_doctor_def cap_plugin_verify_bundle_def cap_plugin_install_def
  cap_fee_estimate_def cap_tx_decode_def cap_tx_validate_def cap_tx_simulate_def
  cap_tx_build_def cap_project_status_def cap_deploy_def cap_invoke_def cap_tx_sign_def
  cap_tx_submit_def cap_storage_extend_def cap_storage_restore_def cap_project_deploy_def
  cap_identity_fund_def

section \<open>Lookup and export\<close>

definition find_capability :: "string \<Rightarrow> capability option" where
  "find_capability i = find (\<lambda>c. cp_id c = i) capabilities"

definition REGISTRY_SCHEMA_VERSION :: nat where
  "REGISTRY_SCHEMA_VERSION = 1"

definition CAP_COUNT :: nat where
  "CAP_COUNT = 53"

record registry_document =
  rd_schema_version :: nat
  rd_tool :: string
  rd_capabilities :: "capability list"

definition registry_document :: registry_document where
  "registry_document = \<lparr>rd_schema_version = REGISTRY_SCHEMA_VERSION, rd_tool = ''sdkt'',
     rd_capabilities = capabilities\<rparr>"

section \<open>The rules of the table\<close>

text \<open>
  What the module's documentation asks of an entry: something to run and to say about it, a name
  without spaces, confirmation for what changes a ledger and none for what only reads, no claim to have
  executed a mutation, a note when nothing was executed, and the exit convention of the CLI.
\<close>

definition well_formed_capability :: "capability \<Rightarrow> bool" where
  "well_formed_capability c \<longleftrightarrow>
     cp_id c \<noteq> [] \<and> CHR '' '' \<notin> set (cp_id c) \<and> cp_command c \<noteq> [] \<and> cp_summary c \<noteq> [] \<and>
     (cp_safety c = Mutating \<longrightarrow> cp_requires_confirmation c \<and> cp_evidence c = Unverified) \<and>
     (cp_safety c = ReadOnly \<longrightarrow> \<not> cp_requires_confirmation c) \<and>
     (cp_evidence c = Unverified \<longrightarrow> cp_notes c \<noteq> None) \<and>
     ex_success (cp_exit c) = 0 \<and> ex_runtime_error (cp_exit c) = 1 \<and> ex_usage_error (cp_exit c) = 2"

lemmas registry_entry_defs = capability_defs BASE_def PRETTY_def PRETTY_JSON_def STANDARD_def VERDICT_GATED_def

lemma capability_ids:
  "map cp_id capabilities =
     [''wasm.inspect'', ''wasm.metadata'', ''diff'', ''diff.upgrade_safety'', ''audit'',
      ''audit.list_rules'', ''verify'', ''deployment.verify'', ''health'', ''inspect'',
      ''release_assurance'', ''storage.analyze'', ''events'', ''call'', ''account'',
      ''network.list'', ''network.show'', ''network.check'', ''network.diagnose'',
      ''network.add'', ''network.remove'', ''doctor'', ''identity.list'', ''identity.generate'',
      ''identity.import'', ''identity.delete'', ''identity.default'', ''build'', ''init'',
      ''generate.client'', ''package.validate'', ''package.update'', ''package.publish'',
      ''lock.verify'', ''lock.generate'', ''plugin.list'', ''plugin.doctor'',
      ''plugin.verify_bundle'', ''plugin.install'', ''fee.estimate'', ''tx.decode'',
      ''tx.validate'', ''tx.simulate'', ''tx.build'', ''project.status'', ''deploy'', ''invoke'',
      ''tx.sign'', ''tx.submit'', ''storage.extend'', ''storage.restore'', ''project.deploy'',
      ''identity.fund'']"
  by (simp add: capabilities_def capability_defs)

lemma distinct_capability_ids: "distinct (map cp_id capabilities)"
  unfolding capability_ids by simp

lemma capabilities_well_formed: "list_all well_formed_capability capabilities"
  by (simp add: capabilities_def well_formed_capability_def registry_entry_defs)

lemma find_capability_Some: "find_capability i = Some c \<Longrightarrow> c \<in> set capabilities \<and> cp_id c = i"
  by (auto simp: find_capability_def find_Some_iff)

lemma find_capability_id: "c \<in> set capabilities \<Longrightarrow> find_capability (cp_id c) = Some c"
proof -
  assume c: "c \<in> set capabilities"
  then have "find_capability (cp_id c) \<noteq> None"
    by (auto simp: find_capability_def find_None_iff)
  then obtain d where d: "find_capability (cp_id c) = Some d" by auto
  with c show ?thesis
    using find_capability_Some [OF d] distinct_capability_ids by (auto simp: distinct_map dest: inj_onD)
qed

lemma well_formed_find: "find_capability i = Some c \<Longrightarrow> well_formed_capability c"
  using capabilities_well_formed by (auto simp: list_all_iff dest: find_capability_Some)

text \<open>
  Every one of the entries of the registry follows the rules of the module's documentation, there
  are as many as the source declares, and no two share an id: in particular a capability that changes
  a ledger always asks for confirmation.
\<close>

theorem registry_well_formed:
  "list_all well_formed_capability capabilities \<and> length capabilities = CAP_COUNT \<and>
   distinct (map cp_id capabilities)"
proof (intro conjI)
  show "list_all well_formed_capability capabilities" by (rule capabilities_well_formed)
  show "length capabilities = CAP_COUNT" by (simp add: capabilities_def CAP_COUNT_def)
qed (rule distinct_capability_ids)

end
