(* ===== verification/Agent_Intent.thy ===== *)
theory Agent_Intent
  imports Capability_Registry
begin

text \<open>
  The request parser of the agent, \<^verbatim>\<open>sdkt-agent/src/intent.rs\<close>: keywords select one capability,
  arguments are recognised by their shape, and anything ambiguous is an error. A string is the list of
  its bytes; the separators and the shapes are all ASCII, so a loop over characters is a loop over
  bytes. The Debug output of a string (\<^verbatim>\<open>{:?}\<close>), which escapes by Unicode tables, is the parameter
  \<open>dbg\<close>.
\<close>

section \<open>Arguments of a request\<close>

record intent_args =
  ia_contract :: "string option"
  ia_wasm :: "string option"
  ia_previous_wasm :: "string option"
  ia_artifact_paths :: "string list"
  ia_candidate_claims :: "string list"
  ia_baseline_claims :: "string list"
  ia_source_path :: "string option"
  ia_function :: "string option"
  ia_profile :: "string option"
  ia_network :: "string option"
  ia_rpc_url :: "string option"
  ia_network_passphrase :: "string option"
  ia_envelope :: "string option"
  ia_typed_args :: "string list"
  ia_use_rpc :: bool
  ia_base_fees :: "string option"
  ia_explicit_flags :: "(string \<times> string option) list"

definition default_intent_args :: intent_args where
  "default_intent_args =
     \<lparr>ia_contract = None, ia_wasm = None, ia_previous_wasm = None, ia_artifact_paths = [],
      ia_candidate_claims = [], ia_baseline_claims = [], ia_source_path = None, ia_function = None,
      ia_profile = None, ia_network = None, ia_rpc_url = None, ia_network_passphrase = None,
      ia_envelope = None, ia_typed_args = [], ia_use_rpc = False, ia_base_fees = None,
      ia_explicit_flags = []\<rparr>"

record intent =
  in_capability_id :: string
  in_args :: intent_args
  in_matched_keywords :: "string list"

definition flag_value :: "intent_args \<Rightarrow> string \<Rightarrow> string option" where
  "flag_value a flag = (case find (\<lambda>fv. fst fv = flag) (ia_explicit_flags a) of None \<Rightarrow> None | Some fv \<Rightarrow> snd fv)"

definition flag_values :: "intent_args \<Rightarrow> string \<Rightarrow> string list" where
  "flag_values a flag = List.map_filter snd (filter (\<lambda>fv. fst fv = flag) (ia_explicit_flags a))"

definition has_flag :: "intent_args \<Rightarrow> string \<Rightarrow> bool" where
  "has_flag a flag \<longleftrightarrow> list_ex (\<lambda>fv. fst fv = flag) (ia_explicit_flags a)"

definition roles_claimed :: "intent_args \<Rightarrow> bool" where
  "roles_claimed a \<longleftrightarrow> \<not> (ia_candidate_claims a = [] \<and> ia_baseline_claims a = [])"

definition TYPED_ARG_PREFIXES :: "string list" where
  "TYPED_ARG_PREFIXES =
     [''u32:'', ''i32:'', ''u64:'', ''i64:'', ''u128:'', ''i128:'', ''bool:'', ''string:'', ''symbol:'',
      ''bytes:'', ''address:'', ''duration:'', ''timepoint:'']"

definition CANDIDATE_MARKERS :: "string list" where
  "CANDIDATE_MARKERS = [''candidate'', ''new'', ''current'', ''to'']"

definition BASELINE_MARKERS :: "string list" where
  "BASELINE_MARKERS = [''previous'', ''baseline'', ''old'', ''from'']"

definition FORMAT_WORDS :: "string list" where
  "FORMAT_WORDS = [''json'', ''pretty'']"

section \<open>Why a request is not an intent\<close>

datatype parse_error =
    Unrecognised string
  | AmbiguousRequest "string list"
  | MutationRequested string
  | MissingArgument string string
  | AmbiguousArtifactRoles string
  | UnsupportedArgument string string

primrec parse_error_code :: "parse_error \<Rightarrow> string" where
  "parse_error_code (Unrecognised r) = ''unrecognised_request''"
| "parse_error_code (AmbiguousRequest cs) = ''ambiguous_request''"
| "parse_error_code (MutationRequested c) = ''mutation_requested''"
| "parse_error_code (MissingArgument c a) = ''missing_argument''"
| "parse_error_code (AmbiguousArtifactRoles c) = ''ambiguous_artifact_roles''"
| "parse_error_code (UnsupportedArgument c a) = ''unsupported_argument''"

primrec parse_error_message :: "(string \<Rightarrow> string) \<Rightarrow> parse_error \<Rightarrow> string" where
  "parse_error_message dbg (Unrecognised r) =
     ''could not map '' @ dbg r @
     '' to a known read-only capability; rephrase with an explicit operation''"
| "parse_error_message dbg (AmbiguousRequest cs) =
     ''request names more than one operation ('' @ join_strs '', '' cs @ '') '' @ em_dash @
     '' ask for one at a time''"
| "parse_error_message dbg (MutationRequested c) =
     c @ '' changes ledger or local state; the v0.1 agent is read-only and will not run it''"
| "parse_error_message dbg (MissingArgument c a) =
     c @ '' needs '' @ a @ '', which the request did not provide''"
| "parse_error_message dbg (AmbiguousArtifactRoles c) =
     c @ '' was given two WASM artifacts but nothing in the request says which is the candidate and which the baseline; guessing from path order could compare the upgrade backwards, so nothing was run. Mark the roles explicitly ('' @
     join_strs ''/'' CANDIDATE_MARKERS @ '' for --wasm, '' @ join_strs ''/'' BASELINE_MARKERS @
     '' for --previous-wasm).''"
| "parse_error_message dbg (UnsupportedArgument c a) =
     c @ '' cannot use '' @ a @
     ''; refusing to run a partial request. Remove the unsupported argument or rephrase.''"

section \<open>Keywords\<close>

definition INTENT_KEYWORDS :: "(string \<times> string list list) list" where
  "INTENT_KEYWORDS =
     [(''deploy'', [[''deploy'']]),
      (''invoke'', [[''invoke''], [''call'', ''and'', ''send'']]),
      (''tx.submit'', [[''submit'', ''transaction''], [''submit'', ''tx'']]),
      (''tx.sign'', [[''sign'', ''transaction''], [''sign'', ''envelope'']]),
      (''storage.extend'', [[''extend'', ''ttl''], [''extend'', ''storage'']]),
      (''storage.restore'', [[''restore'', ''storage''], [''restore'', ''archived'']]),
      (''project.deploy'', [[''deploy'', ''project'']]),
      (''identity.fund'', [[''fund'', ''account''], [''friendbot'']]),
      (''release_assurance'', [[''release'', ''assurance''], [''release'', ''check'']]),
      (''diff.upgrade_safety'', [[''upgrade'', ''safety''], [''safe'', ''to'', ''upgrade''], [''breaking'', ''change'']]),
      (''verify'', [[''verify'']]),
      (''health'', [[''health'']]),
      (''storage.analyze'', [[''storage'', ''analyze''], [''storage'', ''layout'']]),
      (''events'', [[''events'']]),
      (''audit'', [[''audit''], [''security'', ''scan'']]),
      (''network.check'', [[''network'', ''check''], [''network'', ''status'']]),
      (''network.list'', [[''networks''], [''network'', ''list'']]),
      (''plugin.doctor'', [[''plugin'', ''doctor''], [''plugin'', ''self-check'']]),
      (''doctor'', [[''doctor''], [''environment'', ''check'']]),
      (''wasm.metadata'', [[''metadata'']]),
      (''wasm.inspect'', [[''inspect'', ''wasm''], [''wasm'', ''inspect'']]),
      (''inspect'', [[''inspect'', ''contract''], [''inspect'']]),
      (''call'', [[''call'', ''function''], [''read'', ''function''], [''invoke'', ''read''], [''call'', ''on'', ''contract'']]),
      (''diff'', [[''diff'']]),
      (''project.status'', [[''project'', ''status''], [''project'', ''deployment'']]),
      (''fee.estimate'', [[''fee'', ''estimate''], [''estimate'', ''fee''], [''fee'', ''stats'']]),
      (''tx.simulate'', [[''simulate'', ''transaction''], [''simulate'', ''tx''], [''simulate'', ''envelope''], [''simulate'']])]"

definition is_word_char :: "char \<Rightarrow> bool" where
  "is_word_char c \<longleftrightarrow> is_ascii_alphanumeric c \<or> c = CHR ''.'' \<or> c = CHR ''/'' \<or> c = CHR ''-''"

definition request_words :: "string \<Rightarrow> string list" where
  "request_words request =
     filter (\<lambda>w. w \<noteq> []) (split_by (\<lambda>c. \<not> is_word_char c) (to_ascii_lowercase request))"

text \<open>One round of the matching loop: the first keyword set that is present counts, once per id.\<close>

definition match_entry ::
  "string list \<Rightarrow> (string \<times> string list) list \<Rightarrow> string \<times> string list list \<Rightarrow> (string \<times> string list) list" where
  "match_entry words matched entry =
     (case find (\<lambda>ks. list_all (\<lambda>kw. kw \<in> set words) ks) (snd entry) of
        None \<Rightarrow> matched
      | Some ks \<Rightarrow>
          if list_ex (\<lambda>m. fst m = fst entry) matched then matched else matched @ [(fst entry, ks)])"

definition matched_intents :: "string list \<Rightarrow> (string \<times> string list) list" where
  "matched_intents words = foldl (match_entry words) [] INTENT_KEYWORDS"

definition more_specific :: "(string \<times> string list) list \<Rightarrow> (string \<times> string list) list" where
  "more_specific matched =
     filter (\<lambda>(i, kws). \<not> list_ex (\<lambda>(other_id, other_kws).
         other_id \<noteq> i \<and> length kws < length other_kws \<and> list_all (\<lambda>k. k \<in> set other_kws) kws) matched)
       matched"

definition is_mutating :: "string \<Rightarrow> bool" where
  "is_mutating i = (case find_capability i of None \<Rightarrow> False | Some c \<Rightarrow> cp_safety c = Mutating)"

section \<open>Shapes of tokens\<close>

definition trim_punct :: "string \<Rightarrow> string" where
  "trim_punct t = trim_matches (\<lambda>c. c \<in> {CHR '','', CHR '';'', CHR 0x22, CHR 0x27, CHR ''('', CHR '')''}) t"

definition is_contract_id :: "string \<Rightarrow> bool" where
  "is_contract_id token \<longleftrightarrow>
     (let t = trim_end_matches (\<lambda>c. \<not> is_ascii_alphanumeric c) token in
      length t = 56 \<and> starts_with ''C'' t \<and>
      list_all (\<lambda>c. is_ascii_uppercase c \<or> (CHR ''2'' \<le> c \<and> c \<le> CHR ''7'')) (drop 1 t))"

definition looks_like_value :: "string \<Rightarrow> bool" where
  "looks_like_value token \<longleftrightarrow>
     (let t = trim_punct token in
      t \<noteq> [] \<and> \<not> starts_with [CHR 0x22] t \<and> \<not> starts_with [CHR 0x27] t \<and>
      (CHR ''/'' \<in> set t \<or> CHR ''.'' \<in> set t \<or> CHR '':'' \<in> set t \<or> CHR '','' \<in> set t \<or>
       is_ascii_digit (hd t) \<or> is_contract_id t))"

definition looks_like_url :: "string \<Rightarrow> bool" where
  "looks_like_url lower \<longleftrightarrow> starts_with ''http://'' lower \<or> starts_with ''https://'' lower"

definition is_base64_blob :: "string \<Rightarrow> bool" where
  "is_base64_blob token \<longleftrightarrow>
     64 \<le> length token \<and> CHR ''/'' \<notin> set token \<and>
     list_all (\<lambda>c. is_ascii_alphanumeric c \<or> c = CHR ''+'' \<or> c = CHR ''/'' \<or> c = CHR ''='') token"

definition is_fn_name :: "string \<Rightarrow> bool" where
  "is_fn_name t \<longleftrightarrow>
     t \<noteq> [] \<and> length t \<le> 64 \<and> \<not> is_contract_id t \<and>
     list_all (\<lambda>c. is_ascii_lowercase c \<or> is_ascii_digit c \<or> c = CHR ''_'') t \<and>
     is_ascii_alphabetic (hd t)"

definition is_typed_arg :: "string \<Rightarrow> bool" where
  "is_typed_arg lower =
     (case split_once '':'' lower of None \<Rightarrow> False | Some (t, v) \<Rightarrow> v \<noteq> [] \<and> t \<in> set TYPED_ARG_PREFIXES)"

text \<open>\<^verbatim>\<open>Some(true)\<close> is the baseline, \<^verbatim>\<open>Some(false)\<close> the candidate.\<close>

definition role_from_name :: "string \<Rightarrow> bool option" where
  "role_from_name lower_path =
     (let stem = (if ends_with ''.wasm'' lower_path then take (length lower_path - 5) lower_path else lower_path);
          file_name = last (split_by (\<lambda>c. c = CHR ''/'' \<or> c = CHR 0x5C) stem);
          parts = map to_ascii_lowercase (split_by (\<lambda>c. c = CHR ''-'' \<or> c = CHR ''_'' \<or> c = CHR '' '') file_name);
          base = list_ex (\<lambda>p. p \<in> set BASELINE_MARKERS) parts;
          cand = list_ex (\<lambda>p. p \<in> set CANDIDATE_MARKERS) parts in
      if base \<and> \<not> cand then Some True else if \<not> base \<and> cand then Some False else None)"

section \<open>Quoted values\<close>

text \<open>The loop over the tokens after the first; \<open>k\<close> is the index of the next token.\<close>

fun quoted_scan :: "char \<Rightarrow> string \<Rightarrow> nat \<Rightarrow> string list \<Rightarrow> string list \<Rightarrow> (string \<times> nat) option" where
  "quoted_scan quote rest k parts [] = None"
| "quoted_scan quote rest k parts (t # ts) =
     (case split_once [quote] t of
        Some (before, _) \<Rightarrow>
          let inner = trim (join_strs '' '' (parts @ [before])) in
          Some (if inner = [] then rest else rest @ '' '' @ inner, k + 1)
      | None \<Rightarrow> quoted_scan quote rest (k + 1) (parts @ [t]) ts)"

definition quoted_value :: "string list \<Rightarrow> (string \<times> nat) option" where
  "quoted_value tokens =
     (case tokens of
        [] \<Rightarrow> None
      | [] # _ \<Rightarrow> None
      | (quote # rest) # following \<Rightarrow>
          if quote \<noteq> CHR 0x22 \<and> quote \<noteq> CHR 0x27 then None
          else case split_once [quote] rest of
            Some (inside, _) \<Rightarrow> Some (inside, 1)
          | None \<Rightarrow> quoted_scan quote rest 1 [] (take 16 following))"

section \<open>Artifact roles\<close>

definition push_path :: "intent_args \<Rightarrow> string \<Rightarrow> intent_args" where
  "push_path a path =
     (if list_ex (\<lambda>p. eq_ignore_ascii_case p path) (ia_artifact_paths a) then a
      else a\<lparr>ia_artifact_paths := ia_artifact_paths a @ [path]\<rparr>)"

definition dedup_claims :: "string list \<Rightarrow> string list" where
  "dedup_claims claims = remdups_adj (sort claims)"

definition other_path :: "string list \<Rightarrow> string \<Rightarrow> string option" where
  "other_path paths claimed = find (\<lambda>p. \<not> eq_ignore_ascii_case p claimed) paths"

text \<open>The pair of two paths: candidate first.\<close>

definition resolve_pair :: "string list \<Rightarrow> string list \<Rightarrow> string list \<Rightarrow> (string \<times> string) option" where
  "resolve_pair paths candidates baselines =
     (case (candidates, baselines) of
        ([c], [b]) \<Rightarrow> if c \<noteq> b then Some (c, b) else None
      | ([c], []) \<Rightarrow> map_option (\<lambda>base. (c, base)) (other_path paths c)
      | ([], [b]) \<Rightarrow> map_option (\<lambda>cand. (cand, b)) (other_path paths b)
      | _ \<Rightarrow> None)"

definition assign_artifact_roles :: "intent_args \<Rightarrow> intent_args" where
  "assign_artifact_roles a0 =
     (let a = a0\<lparr>ia_candidate_claims := dedup_claims (ia_candidate_claims a0),
                 ia_baseline_claims := dedup_claims (ia_baseline_claims a0)\<rparr> in
      case ia_artifact_paths a of
        [] \<Rightarrow> a
      | [p] \<Rightarrow> a\<lparr>ia_wasm := Some p\<rparr>
      | [p, q] \<Rightarrow>
          (case resolve_pair [p, q] (ia_candidate_claims a) (ia_baseline_claims a) of
             Some (cand, base) \<Rightarrow> a\<lparr>ia_wasm := Some cand, ia_previous_wasm := Some base\<rparr>
           | None \<Rightarrow> a)
      | _ \<Rightarrow>
          (case (ia_candidate_claims a, ia_baseline_claims a) of
             ([c], [b]) \<Rightarrow>
               if c \<noteq> b then a\<lparr>ia_wasm := Some c, ia_previous_wasm := Some b\<rparr> else a
           | _ \<Rightarrow> a))"

section \<open>Function and profile names\<close>

definition FUNCTION_STOP :: "string list" where
  "FUNCTION_STOP =
     [''call'', ''read'', ''invoke'', ''function'', ''on'', ''of'', ''the'', ''a'', ''an'', ''to'', ''for'',
      ''in'', ''with'', ''and'', ''contract'', ''check'', ''show'', ''run'', ''please'', ''now'', ''right'',
      ''what'', ''list'', ''estimate'', ''simulate'', ''using'', ''from'', ''previous'', ''candidate'',
      ''baseline'']"

definition fn_word :: "string \<Rightarrow> string option" where
  "fn_word t =
     (let c = trim_punct t in
      if c \<noteq> [] \<and> to_ascii_lowercase c \<notin> set FUNCTION_STOP \<and> is_fn_name c then Some c else None)"

fun position :: "('a \<Rightarrow> bool) \<Rightarrow> 'a list \<Rightarrow> nat option" where
  "position P [] = None"
| "position P (x # xs) = (if P x then Some 0 else map_option Suc (position P xs))"

definition nth_opt :: "'a list \<Rightarrow> nat \<Rightarrow> 'a option" where
  "nth_opt xs i = (if i < length xs then Some (xs ! i) else None)"

definition extract_function :: "string list \<Rightarrow> string option" where
  "extract_function tokens =
     (let around_function =
        (case position (\<lambda>t. eq_ignore_ascii_case (trim_punct t) ''function'') tokens of
           None \<Rightarrow> None
         | Some i \<Rightarrow>
             or_else (if 0 < i then fn_word (tokens ! (i - 1)) else None)
                     (Option.bind (nth_opt tokens (i + 1)) fn_word));
          after_call =
        (case position (\<lambda>t. eq_ignore_ascii_case (trim_punct t) ''call'') tokens of
           None \<Rightarrow> None
         | Some i \<Rightarrow> Option.bind (nth_opt tokens (i + 1)) fn_word)
      in or_else around_function after_call)"

definition extract_profile :: "string list \<Rightarrow> string option" where
  "extract_profile tokens =
     (case position (\<lambda>t. eq_ignore_ascii_case t ''profile'') tokens of
        None \<Rightarrow> None
      | Some i \<Rightarrow>
          (case nth_opt tokens (i + 1) of
             None \<Rightarrow> None
           | Some w \<Rightarrow> if w = [] \<or> starts_with ''-'' w then None else Some (trim_punct w)))"

section \<open>Extraction of the arguments\<close>

text \<open>A flag token with the value that is spelled into it, if any.\<close>

definition split_flag :: "string \<Rightarrow> string \<times> string option" where
  "split_flag cleaned =
     (case split_once ''='' cleaned of
        Some (f, v) \<Rightarrow> if v \<noteq> [] then (f, Some v) else (cleaned, None)
      | None \<Rightarrow> (cleaned, None))"

text \<open>The value a flag takes from the tokens behind it, and how many of them it consumes.\<close>

definition following_value :: "string list \<Rightarrow> string option \<times> nat" where
  "following_value following =
     (case following of
        [] \<Rightarrow> (None, 0)
      | next_token # _ \<Rightarrow>
          (case quoted_value following of
             Some (quoted, used) \<Rightarrow> (Some quoted, used)
           | None \<Rightarrow>
               let n = trim_punct next_token in
               if n \<noteq> [] \<and> \<not> starts_with ''-'' n \<and>
                  (looks_like_value n \<or> to_ascii_lowercase n \<in> set FORMAT_WORDS)
               then (Some n, 1) else (None, 0)))"

definition take_flag ::
  "bool option \<Rightarrow> intent_args \<Rightarrow> string \<Rightarrow> string list \<Rightarrow> bool option \<times> intent_args \<times> nat" where
  "take_flag role a cleaned following =
     (let (flag, eq_value) = split_flag cleaned;
          (val, used) = (case eq_value of None \<Rightarrow> following_value following | Some v \<Rightarrow> (Some v, 0));
          (role', a') =
            (if flag \<in> {''--wasm'', ''--new-wasm''} then
               (case val of
                  Some v \<Rightarrow> (None, push_path (a\<lparr>ia_candidate_claims := ia_candidate_claims a @ [v]\<rparr>) v)
                | None \<Rightarrow> (role, a))
             else if flag \<in> {''--previous-wasm'', ''--old-wasm''} then
               (case val of
                  Some v \<Rightarrow> (None, push_path (a\<lparr>ia_baseline_claims := ia_baseline_claims a @ [v]\<rparr>) v)
                | None \<Rightarrow> (role, a))
             else (role, a))
      in (role', a'\<lparr>ia_explicit_flags := ia_explicit_flags a' @ [(flag, val)]\<rparr>, used))"

text \<open>A bare artifact path: the marker before it claims its role, or else its own name.\<close>

definition take_artifact :: "bool option \<Rightarrow> intent_args \<Rightarrow> string \<Rightarrow> string \<Rightarrow> intent_args" where
  "take_artifact role a cleaned lower =
     (let a' = push_path a cleaned in
      case or_else role (role_from_name lower) of
        Some True \<Rightarrow> a'\<lparr>ia_baseline_claims := ia_baseline_claims a' @ [cleaned]\<rparr>
      | Some False \<Rightarrow> a'\<lparr>ia_candidate_claims := ia_candidate_claims a' @ [cleaned]\<rparr>
      | None \<Rightarrow> a')"

text \<open>
  One round of the token loop: the pending role, the arguments and the number of tokens consumed
  beyond the current one.
\<close>

definition take_token ::
  "bool option \<Rightarrow> intent_args \<Rightarrow> string \<Rightarrow> string list \<Rightarrow> bool option \<times> intent_args \<times> nat" where
  "take_token role a token following =
     (let cleaned = trim_punct token; lower = to_ascii_lowercase cleaned in
      if starts_with ''--'' cleaned \<and> 2 < length cleaned then take_flag role a cleaned following
      else if is_contract_id cleaned then (role, a\<lparr>ia_contract := Some cleaned\<rparr>, 0)
      else if ends_with ''.wasm'' lower then (None, take_artifact role a cleaned lower, 0)
      else if ends_with ''.rs'' lower then (role, a\<lparr>ia_source_path := Some cleaned\<rparr>, 0)
      else if ends_with ''.xdr'' lower \<or> is_base64_blob cleaned then
        (role, a\<lparr>ia_envelope := or_else (ia_envelope a) (Some cleaned)\<rparr>, 0)
      else if looks_like_url lower then
        (role, a\<lparr>ia_rpc_url := or_else (ia_rpc_url a) (Some cleaned)\<rparr>, 0)
      else if is_typed_arg lower then (role, a\<lparr>ia_typed_args := ia_typed_args a @ [cleaned]\<rparr>, 0)
      else if lower \<in> {''testnet'', ''mainnet'', ''futurenet''} then
        (role, a\<lparr>ia_network := Some lower\<rparr>, 0)
      else if lower \<in> set BASELINE_MARKERS then (Some True, a, 0)
      else if lower \<in> set CANDIDATE_MARKERS then (Some False, a, 0)
      else (role, a, 0))"

function extract_loop :: "bool option \<Rightarrow> intent_args \<Rightarrow> string list \<Rightarrow> intent_args" where
  "extract_loop role a [] = a"
| "extract_loop role a (t # ts) =
     (case take_token role a t ts of (role', a', used) \<Rightarrow> extract_loop role' a' (drop used ts))"
  by pat_completeness auto
termination by (relation "measure (\<lambda>(role, a, ts). length ts)") auto

text \<open>The values the flags carry, after the loop.\<close>

definition take_flag_values :: "string list \<Rightarrow> intent_args \<Rightarrow> intent_args" where
  "take_flag_values raw_tokens a =
     a\<lparr>ia_base_fees := flag_value a ''--base-fees'',
       ia_use_rpc := has_flag a ''--rpc'' \<or>
         list_ex (\<lambda>t. eq_ignore_ascii_case (trim_punct t) ''rpc'') raw_tokens,
       ia_rpc_url := or_else (flag_value a ''--rpc-url'') (ia_rpc_url a),
       ia_network_passphrase := flag_value a ''--network-passphrase'',
       ia_envelope := or_else (flag_value a ''--envelope'') (ia_envelope a),
       ia_typed_args :=
         foldl (\<lambda>ts v. if v \<in> set ts then ts else ts @ [v]) (ia_typed_args a) (flag_values a ''--args'')\<rparr>"

definition collect_args :: "string list \<Rightarrow> intent_args" where
  "collect_args raw_tokens = take_flag_values raw_tokens (extract_loop None default_intent_args raw_tokens)"

definition wants_function :: "string list \<Rightarrow> bool" where
  "wants_function raw_tokens =
     list_ex (\<lambda>t. to_ascii_lowercase (trim_punct t) \<in> {''function'', ''call''}) raw_tokens"

definition extract_args :: "string \<Rightarrow> intent_args" where
  "extract_args request =
     (let raw_tokens = split_whitespace request;
          a = assign_artifact_roles (collect_args raw_tokens)
      in a\<lparr>ia_profile := extract_profile raw_tokens,
           ia_function := (if wants_function raw_tokens then extract_function raw_tokens else ia_function a)\<rparr>)"

section \<open>Requirements of a capability\<close>

definition needs_contract :: "string \<Rightarrow> bool" where
  "needs_contract i \<longleftrightarrow>
     i \<in> {''inspect'', ''health'', ''verify'', ''wasm.metadata'', ''storage.analyze'', ''events'', ''call''}"

definition validate_diff :: "string \<Rightarrow> intent_args \<Rightarrow> (unit, parse_error) result" where
  "validate_diff i a =
     (if ia_previous_wasm a \<noteq> None \<and> ia_wasm a \<noteq> None then Ok ()
      else if ia_previous_wasm a = None \<and> length (ia_artifact_paths a) = 2 \<and> \<not> roles_claimed a then
        Err (AmbiguousArtifactRoles i)
      else if ia_previous_wasm a = None then
        Err (MissingArgument i ''baseline wasm (the 'from' artifact)'')
      else Err (MissingArgument i ''candidate wasm (the 'to' artifact)''))"

definition validate_args :: "string \<Rightarrow> intent_args \<Rightarrow> (unit, parse_error) result" where
  "validate_args i a =
     (if needs_contract i \<and> ia_contract a = None then Err (MissingArgument i ''contract id (C...)'')
      else if i = ''verify'' \<and> ia_wasm a = None then Err (MissingArgument i ''local wasm path'')
      else if i = ''diff.upgrade_safety'' \<or> i = ''diff'' then validate_diff i a
      else if i = ''audit'' \<and> ia_source_path a = None then Err (MissingArgument i ''a .rs source path'')
      else if i = ''release_assurance'' \<and> ia_wasm a = None then
        (if 1 < length (ia_artifact_paths a) \<and> \<not> roles_claimed a then Err (AmbiguousArtifactRoles i)
         else Err (MissingArgument i ''candidate wasm path''))
      else if i = ''call'' \<and> ia_function a = None then Err (MissingArgument i ''function name'')
      else if i = ''fee.estimate'' \<and> ia_base_fees a = None \<and> \<not> ia_use_rpc a \<and> ia_rpc_url a = None then
        Err (MissingArgument i ''--base-fees <f1,f2,f3> or an RPC endpoint (--rpc-url) to query'')
      else if i = ''tx.simulate'' \<and> ia_envelope a = None then
        Err (MissingArgument i ''transaction envelope (base64 XDR or a .xdr file path)'')
      else if i = ''network.check'' \<and> ia_profile a = None then
        Err (MissingArgument i ''a saved profile name'')
      else Ok ())"

section \<open>The parser\<close>

definition parse_words :: "string \<Rightarrow> string list \<Rightarrow> intent_args \<Rightarrow> (intent, parse_error) result" where
  "parse_words request words a =
     (let all_matched = matched_intents words in
      if all_matched = [] then Err (Unrecognised (trim request))
      else
        let matched = more_specific all_matched;
            mutating = filter is_mutating (map fst matched);
            readonly = filter (\<lambda>i. \<not> is_mutating i) (map fst matched) in
        case readonly of
          [i] \<Rightarrow>
            and_then (validate_args i a) (\<lambda>_.
              Ok \<lparr>in_capability_id = i, in_args = a,
                  in_matched_keywords = unwrap_or [] (map_option snd (find (\<lambda>m. fst m = i) matched))\<rparr>)
        | _ # _ # _ \<Rightarrow> Err (AmbiguousRequest readonly)
        | [] \<Rightarrow>
            (case mutating of
               [m] \<Rightarrow> Err (MutationRequested m)
             | _ \<Rightarrow> Err (AmbiguousRequest mutating)))"

definition parse_request :: "string \<Rightarrow> (intent, parse_error) result" where
  "parse_request request = parse_words request (request_words request) (extract_args request)"

definition capability_for :: "intent \<Rightarrow> capability option" where
  "capability_for i = find_capability (in_capability_id i)"

end
