(* ===== verification/Agent_Plan.thy ===== *)
theory Agent_Plan
  imports Agent_Intent
begin

text \<open>
  The planner of the agent, \<^verbatim>\<open>sdkt-agent/src/plan.rs\<close>: the safety gate between a parsed request and a
  command line. A capability that is not read-only is refused, a named production network is refused,
  and the arguments of the request are mapped into the words of a command or the request is refused.
\<close>

section \<open>Plans and refusals\<close>

definition TESTNET_RPC :: string where
  "TESTNET_RPC = ''https://soroban-testnet.stellar.org''"

definition TESTNET_PASSPHRASE :: string where
  "TESTNET_PASSPHRASE = ''Test SDF Network ; September 2015''"

record agent_plan =
  pl_capability_id :: string
  pl_argv :: "string list"
  pl_network :: "string option"
  pl_safety :: safety
  pl_wants_json :: bool
  pl_matched_keywords :: "string list"

definition plan_display :: "agent_plan \<Rightarrow> string" where
  "plan_display p = ''sdkt '' @ join_strs '' '' (pl_argv p)"

datatype plan_error =
    ParseRefused parse_error
  | UnknownCapability string
  | BlockedCapability string safety bool
  | RefusedNetwork string
  | UnmappableArgument string string

primrec plan_error_code :: "plan_error \<Rightarrow> string" where
  "plan_error_code (ParseRefused e) = parse_error_code e"
| "plan_error_code (UnknownCapability i) = ''unknown_capability''"
| "plan_error_code (BlockedCapability i s b) = ''blocked_unsafe''"
| "plan_error_code (RefusedNetwork n) = ''refused_network''"
| "plan_error_code (UnmappableArgument i a) = ''unmappable_argument''"

primrec safety_debug :: "safety \<Rightarrow> string" where
  "safety_debug ReadOnly = ''ReadOnly''"
| "safety_debug LocalWrite = ''LocalWrite''"
| "safety_debug Mutating = ''Mutating''"

primrec plan_error_message :: "(string \<Rightarrow> string) \<Rightarrow> plan_error \<Rightarrow> string" where
  "plan_error_message dbg (ParseRefused e) = parse_error_message dbg e"
| "plan_error_message dbg (UnknownCapability i) = i @ '' is not in the capability registry''"
| "plan_error_message dbg (BlockedCapability i s b) =
     i @ '' is classified '' @ safety_debug s @ (if b then '' and requires confirmation'' else []) @
     ''; the v0.1 agent only runs read-only capabilities''"
| "plan_error_message dbg (RefusedNetwork n) =
     ''refusing to target '' @ n @
     '': the v0.1 agent runs read-only checks and will not select a production network implicitly; name a saved network profile instead''"
| "plan_error_message dbg (UnmappableArgument i a) =
     i @ '' has no argument for the '' @ a @
     ''; refusing to build a command line the CLI would reject. Ask for one artifact at a time.''"

text \<open>A panic is a third outcome, which the theorems show to be unreachable.\<close>

datatype planned = RunPlan agent_plan | Refuse plan_error | PlanPanic

section \<open>What the registry declares\<close>

definition BASELINE_FLAGS :: "string list" where
  "BASELINE_FLAGS = [''--previous-wasm'', ''--old-wasm'']"

definition CANDIDATE_FLAGS :: "string list" where
  "CANDIDATE_FLAGS = [''--wasm'', ''--new-wasm'']"

definition PLANNER_MANAGED_FLAGS :: "string list" where
  "PLANNER_MANAGED_FLAGS =
     [''--rpc-url'', ''--network-passphrase'', ''--format'', ''--wasm'', ''--previous-wasm'', ''--old-wasm'',
      ''--new-wasm'', ''--envelope'', ''--args'', ''--base-fees'', ''--rpc'']"

definition flag_for :: "capability \<Rightarrow> string \<Rightarrow> bool" where
  "flag_for cap flag \<longleftrightarrow>
     list_ex (str_contains flag) (cp_required_args cap) \<or> list_ex (str_contains flag) (cp_optional_args cap)"

text \<open>The flag of an entry such as \<^verbatim>\<open>--wasm <f>\<close> is its first word.\<close>

definition leading_word :: "string \<Rightarrow> string" where
  "leading_word a = (case split_whitespace a of [] \<Rightarrow> [] | w # _ \<Rightarrow> w)"

definition declares_arg :: "capability \<Rightarrow> string \<Rightarrow> bool" where
  "declares_arg cap flag \<longleftrightarrow>
     list_ex (\<lambda>a. leading_word a = flag) (cp_required_args cap) \<or>
     list_ex (\<lambda>a. leading_word a = flag) (cp_optional_args cap)"

definition flag_for_any :: "capability \<Rightarrow> string list \<Rightarrow> string option" where
  "flag_for_any cap candidates = find (declares_arg cap) candidates"

definition USIZE_MAX :: nat where
  "USIZE_MAX = 2 ^ 64 - 1"

definition arg_position :: "capability \<Rightarrow> string \<Rightarrow> nat" where
  "arg_position cap flag =
     (case position (\<lambda>a. leading_word a = flag) (cp_required_args cap @ cp_optional_args cap) of
        Some i \<Rightarrow> i
      | None \<Rightarrow> USIZE_MAX)"

definition artifact_capacity :: "capability \<Rightarrow> nat" where
  "artifact_capacity cap =
     (if list_ex (declares_arg cap) BASELINE_FLAGS then 2
      else if list_ex (declares_arg cap) CANDIDATE_FLAGS \<or> declares_arg cap ''<file.wasm>'' then 1
      else 0)"

section \<open>The checks before a word is written\<close>

definition unsupported :: "capability \<Rightarrow> string \<Rightarrow> ('a, plan_error) result" where
  "unsupported cap what = Err (ParseRefused (UnsupportedArgument (cp_id cap) what))"

definition missing_value :: "capability \<Rightarrow> string \<Rightarrow> ('a, plan_error) result" where
  "missing_value cap what = Err (ParseRefused (MissingArgument (cp_id cap) what))"

definition check_artifacts :: "capability \<Rightarrow> intent_args \<Rightarrow> (unit, plan_error) result" where
  "check_artifacts cap a =
     (if ia_artifact_paths a \<noteq> [] \<and> artifact_capacity cap < length (ia_artifact_paths a) then
        unsupported cap
          (''artifact path(s) '' @ join_strs '', '' (ia_artifact_paths a) @ '' '' @ em_dash @ '' '' @ cp_id cap @
           '' accepts at most '' @ show_nat (artifact_capacity cap))
      else Ok ())"

definition accepted_flag :: "capability \<Rightarrow> string \<Rightarrow> bool" where
  "accepted_flag cap flag \<longleftrightarrow>
     flag \<in> set PLANNER_MANAGED_FLAGS \<and> flag_for cap flag \<or> declares_arg cap flag"

definition check_flags :: "capability \<Rightarrow> intent_args \<Rightarrow> (unit, plan_error) result" where
  "check_flags cap a =
     try_fold (\<lambda>_ fv. if accepted_flag cap (fst fv) then Ok () else unsupported cap (fst fv)) ()
       (ia_explicit_flags a)"

definition check_network :: "capability \<Rightarrow> intent_args \<Rightarrow> (unit, plan_error) result" where
  "check_network cap a =
     (if cp_network cap \<noteq> NetNone then
        (case ia_network a of
           None \<Rightarrow> Ok ()
         | Some n \<Rightarrow> if n = ''testnet'' then Ok () else Err (RefusedNetwork n))
      else Ok ())"

definition check_endpoint :: "capability \<Rightarrow> intent_args \<Rightarrow> (unit, plan_error) result" where
  "check_endpoint cap a =
     (if ia_rpc_url a \<noteq> None \<and> (cp_network cap = NetNone \<or> \<not> flag_for cap ''--rpc-url'') then
        unsupported cap (''--rpc-url '' @ unwrap_or [] (ia_rpc_url a))
      else if ia_network_passphrase a \<noteq> None \<and>
              (cp_network cap = NetNone \<or> \<not> flag_for cap ''--network-passphrase'') then
        unsupported cap ''--network-passphrase''
      else if cp_network cap \<noteq> NetNone \<and> flag_for cap ''--rpc-url'' \<and> ia_rpc_url a \<noteq> None \<and>
              ia_rpc_url a \<noteq> Some TESTNET_RPC \<and> ia_network_passphrase a = None then
        missing_value cap ''network passphrase (--network-passphrase) for a non-testnet RPC url''
      else Ok ())"

section \<open>The words of the command line\<close>

text \<open>Each definition gives the words one part of \<^verbatim>\<open>build_argv\<close> appends, or its refusal.\<close>

definition passed_flag :: "capability \<Rightarrow> string list \<Rightarrow> string \<times> string option \<Rightarrow> (string list, plan_error) result" where
  "passed_flag cap argv fv =
     (if fst fv \<in> set PLANNER_MANAGED_FLAGS \<or> \<not> declares_arg cap (fst fv) then Ok argv
      else case snd fv of
        Some v \<Rightarrow> Ok (argv @ [fst fv, v])
      | None \<Rightarrow> missing_value cap (fst fv @ '' <value>''))"

definition flag_words :: "capability \<Rightarrow> intent_args \<Rightarrow> (string list, plan_error) result" where
  "flag_words cap a = try_fold (passed_flag cap) [] (ia_explicit_flags a)"

definition contract_words :: "capability \<Rightarrow> intent_args \<Rightarrow> string list" where
  "contract_words cap a =
     (case ia_contract a of
        None \<Rightarrow> []
      | Some c \<Rightarrow> (if flag_for cap ''--contract'' then [''--contract''] else []) @ [c])"

definition baseline_part :: "capability \<Rightarrow> intent_args \<Rightarrow> ((nat \<times> string list) list, plan_error) result" where
  "baseline_part cap a =
     (case ia_previous_wasm a of
        None \<Rightarrow> Ok []
      | Some w \<Rightarrow>
          (case flag_for_any cap BASELINE_FLAGS of
             Some flag \<Rightarrow> Ok [(arg_position cap flag, [flag, w])]
           | None \<Rightarrow> Err (UnmappableArgument (cp_id cap) ''baseline artifact'')))"

definition candidate_part :: "capability \<Rightarrow> intent_args \<Rightarrow> (nat \<times> string list) list" where
  "candidate_part cap a =
     (case ia_wasm a of
        None \<Rightarrow> []
      | Some w \<Rightarrow>
          (case flag_for_any cap CANDIDATE_FLAGS of
             Some flag \<Rightarrow> [(arg_position cap flag, [flag, w])]
           | None \<Rightarrow> [(arg_position cap ''<file.wasm>'', [w])]))"

definition artifact_words :: "capability \<Rightarrow> intent_args \<Rightarrow> (string list, plan_error) result" where
  "artifact_words cap a =
     map_ok (\<lambda>base. concat (map snd (sort_key fst (base @ candidate_part cap a)))) (baseline_part cap a)"

definition opt_word :: "string option \<Rightarrow> string list" where
  "opt_word x = (case x of None \<Rightarrow> [] | Some w \<Rightarrow> [w])"

definition positional_words :: "intent_args \<Rightarrow> string list" where
  "positional_words a = opt_word (ia_source_path a) @ opt_word (ia_function a) @ opt_word (ia_profile a)"

definition envelope_words :: "capability \<Rightarrow> intent_args \<Rightarrow> (string list, plan_error) result" where
  "envelope_words cap a =
     (case ia_envelope a of
        None \<Rightarrow> Ok []
      | Some e \<Rightarrow>
          if \<not> flag_for cap ''--envelope'' then Err (UnmappableArgument (cp_id cap) ''transaction envelope'')
          else Ok [''--envelope'', e])"

definition typed_arg_words :: "capability \<Rightarrow> intent_args \<Rightarrow> (string list, plan_error) result" where
  "typed_arg_words cap a =
     (if ia_typed_args a \<noteq> [] then
        (if \<not> flag_for cap ''--args'' then Err (UnmappableArgument (cp_id cap) ''typed call arguments'')
         else Ok (concat (map (\<lambda>t. [''--args'', t]) (ia_typed_args a))))
      else Ok [])"

definition base_fee_words :: "capability \<Rightarrow> intent_args \<Rightarrow> (string list, plan_error) result" where
  "base_fee_words cap a =
     (case ia_base_fees a of
        None \<Rightarrow> Ok []
      | Some bf \<Rightarrow>
          if \<not> flag_for cap ''--base-fees'' then Err (UnmappableArgument (cp_id cap) ''--base-fees'')
          else Ok [''--base-fees'', bf])"

definition live_fee :: "capability \<Rightarrow> intent_args \<Rightarrow> bool" where
  "live_fee cap a \<longleftrightarrow>
     cp_id cap = ''fee.estimate'' \<and> ia_rpc_url a \<noteq> None \<and> ia_base_fees a = None \<and> \<not> ia_use_rpc a"

definition rpc_words :: "capability \<Rightarrow> intent_args \<Rightarrow> (string list, plan_error) result" where
  "rpc_words cap a =
     (if ia_use_rpc a \<or> live_fee cap a then
        (if \<not> flag_for cap ''--rpc'' then Err (UnmappableArgument (cp_id cap) ''--rpc'') else Ok [''--rpc''])
      else Ok [])"

definition offline_fee :: "capability \<Rightarrow> intent_args \<Rightarrow> bool" where
  "offline_fee cap a \<longleftrightarrow> cp_id cap = ''fee.estimate'' \<and> ia_base_fees a \<noteq> None \<and> \<not> ia_use_rpc a"

definition endpoint_words :: "capability \<Rightarrow> intent_args \<Rightarrow> string list" where
  "endpoint_words cap a =
     (if cp_network cap \<noteq> NetNone \<and> flag_for cap ''--rpc-url'' \<and> \<not> offline_fee cap a then
        [''--rpc-url'', unwrap_or TESTNET_RPC (ia_rpc_url a),
         ''--network-passphrase'', unwrap_or TESTNET_PASSPHRASE (ia_network_passphrase a)]
      else [])"

definition format_words :: "capability \<Rightarrow> intent_args \<Rightarrow> (string list, plan_error) result" where
  "format_words cap a =
     (if has_flag a ''--format'' \<and> flag_value a ''--format'' = None then unsupported cap ''--format <json|pretty>''
      else
        let asked = flag_value a ''--format'' in
        case asked of
          Some v \<Rightarrow>
            if \<not> (v = ''json'' \<and> fm_json (cp_formats cap) \<or> v = ''pretty'' \<and> fm_pretty (cp_formats cap)) then
              unsupported cap (''--format '' @ v)
            else Ok (if fm_json (cp_formats cap) \<and> asked \<noteq> Some ''pretty'' then [''--format'', ''json''] else [])
        | None \<Rightarrow> Ok (if fm_json (cp_formats cap) \<and> asked \<noteq> Some ''pretty'' then [''--format'', ''json''] else []))"

definition check_request :: "capability \<Rightarrow> intent_args \<Rightarrow> (unit, plan_error) result" where
  "check_request cap a =
     and_then (check_artifacts cap a) (\<lambda>_.
     and_then (check_flags cap a) (\<lambda>_.
     and_then (check_network cap a) (\<lambda>_. check_endpoint cap a)))"

definition build_argv :: "capability \<Rightarrow> intent_args \<Rightarrow> (string list, plan_error) result" where
  "build_argv cap a =
     and_then (check_request cap a) (\<lambda>_.
     and_then (flag_words cap a) (\<lambda>flags.
     and_then (artifact_words cap a) (\<lambda>artifacts.
     and_then (envelope_words cap a) (\<lambda>envelope.
     and_then (typed_arg_words cap a) (\<lambda>typed.
     and_then (base_fee_words cap a) (\<lambda>fees.
     and_then (rpc_words cap a) (\<lambda>rpc.
     and_then (format_words cap a) (\<lambda>fmt.
       Ok (cp_command cap @ flags @ contract_words cap a @ artifacts @ positional_words a @ envelope @
           typed @ fees @ rpc @ endpoint_words cap a @ fmt)))))))))"

section \<open>The planner\<close>

definition plan_intent :: "intent \<Rightarrow> planned" where
  "plan_intent i =
     (case find_capability (in_capability_id i) of
        None \<Rightarrow> Refuse (UnknownCapability (in_capability_id i))
      | Some cap \<Rightarrow>
          if cp_safety cap \<noteq> ReadOnly \<or> cp_requires_confirmation cap then
            Refuse (BlockedCapability (cp_id cap) (cp_safety cap) (cp_requires_confirmation cap))
          else
            (case build_argv cap (in_args i) of
               Ok argv \<Rightarrow>
                 RunPlan \<lparr>pl_capability_id = cp_id cap, pl_argv = argv, pl_network = ia_network (in_args i),
                   pl_safety = cp_safety cap, pl_wants_json = fm_json (cp_formats cap),
                   pl_matched_keywords = in_matched_keywords i\<rparr>
             | Err e \<Rightarrow> Refuse e
             | Panic \<Rightarrow> PlanPanic))"

definition plan_request :: "string \<Rightarrow> planned" where
  "plan_request request =
     (case parse_request request of
        Ok i \<Rightarrow> plan_intent i
      | Err (MutationRequested c) \<Rightarrow>
          (case find_capability c of
             None \<Rightarrow> Refuse (BlockedCapability c Mutating False)
           | Some cap \<Rightarrow> Refuse (BlockedCapability c (cp_safety cap) (cp_requires_confirmation cap)))
      | Err e \<Rightarrow> Refuse (ParseRefused e)
      | Panic \<Rightarrow> PlanPanic)"

end
