(* ===== verification/Agent_Safety.thy ===== *)
theory Agent_Safety
  imports Agent_Plan "HOL-Library.Sublist"
begin

text \<open>
  What the agent guarantees between a request and a command line: only read-only capabilities of the
  registry are planned, a production network that was recognised is refused, the test passphrase is
  never sent to another endpoint, every recognised argument reaches the command line, and
  artifact roles do not depend on the order of the paths. The last section holds the requests for
  which the parser loses what was asked before the planner can see it.
\<close>

section \<open>From words to a capability\<close>

lemma match_entry_ids: "fst ` set (match_entry ws m e) \<subseteq> insert (fst e) (fst ` set m)"
  by (auto simp: match_entry_def split: option.splits if_splits)

lemma matched_intents_ids: "fst ` set (matched_intents ws) \<subseteq> fst ` set INTENT_KEYWORDS"
proof -
  have "fst ` set (foldl (match_entry ws) m es) \<subseteq> fst ` set m \<union> fst ` set es" for m es
  proof (induction es arbitrary: m)
    case (Cons e es)
    show ?case using Cons.IH [of "match_entry ws m e"] match_entry_ids [of ws m e] by auto
  qed simp
  from this [of "[]" INTENT_KEYWORDS] show ?thesis by (simp add: matched_intents_def)
qed

text \<open>What the words select is in the request: every keyword of a matched set is one of its words.\<close>

lemma matched_intents_words:
  assumes "(i, ks) \<in> set (matched_intents ws)"
  shows "set ks \<subseteq> set ws \<and> (\<exists>sets. (i, sets) \<in> set INTENT_KEYWORDS \<and> ks \<in> set sets)"
proof -
  have "\<forall>(i, ks) \<in> set (foldl (match_entry ws) m es).
      (i, ks) \<in> set m \<or> set ks \<subseteq> set ws \<and> (\<exists>sets. (i, sets) \<in> set es \<and> ks \<in> set sets)" for m es
  proof (induction es arbitrary: m)
    case (Cons e es)
    have step: "(i, ks) \<in> set m \<or> set ks \<subseteq> set ws \<and> (\<exists>sets. (i, sets) = e \<and> ks \<in> set sets)"
      if "(i, ks) \<in> set (match_entry ws m e)" for i ks
      using that
      by (cases e) (auto simp: match_entry_def list_all_iff find_Some_iff split: option.splits if_splits)
    show ?case using Cons.IH [of "match_entry ws m e"] step by fastforce
  qed simp
  from this [of "[]" INTENT_KEYWORDS] assms show ?thesis by (auto simp: matched_intents_def)
qed

lemma more_specific_subset: "set (more_specific m) \<subseteq> set m"
  by (auto simp: more_specific_def)

text \<open>Every id of the keyword table is in the registry, and none of them writes local state.\<close>

definition answerable :: "string \<Rightarrow> bool" where
  "answerable i = (case find_capability i of None \<Rightarrow> False | Some c \<Rightarrow> cp_safety c \<noteq> LocalWrite)"

lemma find_capability_in:
  "\<lbrakk>c \<in> set capabilities; cp_id c = i\<rbrakk> \<Longrightarrow> find_capability i = Some c"
  using find_capability_id by blast

lemma answerable_in: "\<lbrakk>c \<in> set capabilities; cp_id c = i; cp_safety c \<noteq> LocalWrite\<rbrakk> \<Longrightarrow> answerable i"
  by (simp add: answerable_def find_capability_in)

lemma not_local_write_ids:
  "map cp_id (filter (\<lambda>c. cp_safety c \<noteq> LocalWrite) capabilities) =
     [''wasm.inspect'', ''wasm.metadata'', ''diff'', ''diff.upgrade_safety'', ''audit'',
      ''audit.list_rules'', ''verify'', ''deployment.verify'', ''health'', ''inspect'',
      ''release_assurance'', ''storage.analyze'', ''events'', ''call'', ''account'',
      ''network.list'', ''network.show'', ''network.check'', ''network.diagnose'', ''doctor'',
      ''identity.list'', ''package.validate'', ''lock.verify'', ''plugin.list'',
      ''plugin.doctor'', ''plugin.verify_bundle'', ''fee.estimate'', ''tx.decode'',
      ''tx.validate'', ''tx.simulate'', ''tx.build'', ''project.status'', ''deploy'', ''invoke'',
      ''tx.sign'', ''tx.submit'', ''storage.extend'', ''storage.restore'', ''project.deploy'',
      ''identity.fund'']"
  by (simp add: capabilities_def registry_entry_defs)

lemma answerable_listed:
  assumes "i \<in> set (map cp_id (filter (\<lambda>c. cp_safety c \<noteq> LocalWrite) capabilities))"
  shows "answerable i"
  using assms by (auto intro: answerable_in)

lemma intent_ids_answerable: "list_all (\<lambda>e. answerable (fst e)) INTENT_KEYWORDS"
proof -
  have "list_all (\<lambda>i. i \<in> set (map cp_id (filter (\<lambda>c. cp_safety c \<noteq> LocalWrite) capabilities)))
      (map fst INTENT_KEYWORDS)"
    unfolding not_local_write_ids by (simp add: INTENT_KEYWORDS_def)
  then have "list_all answerable (map fst INTENT_KEYWORDS)"
    by (auto simp only: list_all_iff intro: answerable_listed)
  then show ?thesis by (simp add: list.pred_map comp_def)
qed


lemma parse_words_Ok:
  assumes "parse_words request ws a = Ok i"
  shows "in_args i = a" and "validate_args (in_capability_id i) a = Ok ()"
    and "\<not> is_mutating (in_capability_id i)"
    and "(in_capability_id i, in_matched_keywords i) \<in> set (matched_intents ws)"
proof -
  define m where "m = more_specific (matched_intents ws)"
  obtain j where r: "filter (\<lambda>i. \<not> is_mutating i) (map fst m) = [j]"
    and v: "validate_args j a = Ok ()"
    and i: "i = \<lparr>in_capability_id = j, in_args = a,
      in_matched_keywords = unwrap_or [] (map_option snd (find (\<lambda>x. fst x = j) m))\<rparr>"
    using assms unfolding parse_words_def Let_def m_def [symmetric]
    by (auto split: if_splits list.splits)
  have "j \<in> set (filter (\<lambda>i. \<not> is_mutating i) (map fst m))" using r by simp
  then have j: "\<not> is_mutating j" "j \<in> fst ` set m" by auto
  then obtain x where x: "find (\<lambda>x. fst x = j) m = Some x"
    by (cases "find (\<lambda>x. fst x = j) m") (auto simp: find_None_iff)
  then have "x \<in> set m" and "fst x = j" by (auto simp: find_Some_iff)
  then have "(j, snd x) \<in> set (matched_intents ws)"
    using more_specific_subset [of "matched_intents ws"] by (auto simp: m_def)
  with x i j v show "in_args i = a" "validate_args (in_capability_id i) a = Ok ()"
    "\<not> is_mutating (in_capability_id i)"
    "(in_capability_id i, in_matched_keywords i) \<in> set (matched_intents ws)"
    by simp_all
qed

lemma parse_words_mutation:
  assumes "parse_words request ws a = Err (MutationRequested m)"
  shows "is_mutating m"
proof -
  define ms where "ms = filter is_mutating (map fst (more_specific (matched_intents ws)))"
  have "ms = [m]"
    using assms unfolding parse_words_def Let_def ms_def [symmetric]
    by (auto simp: and_then_Err_iff validate_args_def validate_diff_def split: if_splits list.splits)
  then have "m \<in> set ms" by simp
  then show ?thesis by (simp add: ms_def)
qed

lemma validate_args_no_panic: "validate_args i a \<noteq> Panic"
  by (simp add: validate_args_def validate_diff_def)

lemma parse_words_no_panic: "parse_words request ws a \<noteq> Panic"
  by (auto simp: parse_words_def Let_def and_then_Panic_iff validate_args_no_panic split: list.splits)

text \<open>A recognised request names a capability that only reads.\<close>

lemma answerable_read_only:
  assumes "answerable i" and "\<not> is_mutating i"
  obtains c where "find_capability i = Some c" and "cp_safety c = ReadOnly" and "\<not> cp_requires_confirmation c"
proof -
  obtain c where c: "find_capability i = Some c" and "cp_safety c \<noteq> LocalWrite"
    using assms(1) by (auto simp: answerable_def split: option.splits)
  moreover have "cp_safety c \<noteq> Mutating" using assms(2) c by (simp add: is_mutating_def)
  ultimately have "cp_safety c = ReadOnly" by (cases "cp_safety c") auto
  with c show thesis using that well_formed_find [OF c] by (simp add: well_formed_capability_def)
qed

lemma parsed_read_only:
  assumes "parse_request request = Ok i"
  obtains c where "find_capability (in_capability_id i) = Some c" and "cp_safety c = ReadOnly"
    and "\<not> cp_requires_confirmation c"
proof -
  note ok = parse_words_Ok [OF assms [unfolded parse_request_def]]
  have "in_capability_id i \<in> fst ` set INTENT_KEYWORDS"
    using ok(4) matched_intents_ids by force
  then have "answerable (in_capability_id i)" using intent_ids_answerable by (auto simp: list_all_iff)
  then show thesis using ok(3) that by (rule answerable_read_only)
qed

section \<open>From arguments to words\<close>

lemma check_flags_iff:
  "check_flags cap a = Ok u \<longleftrightarrow> list_all (\<lambda>fv. accepted_flag cap (fst fv)) (ia_explicit_flags a)"
proof -
  have "try_fold (\<lambda>_ fv. if accepted_flag cap (fst fv) then Ok () else unsupported cap (fst fv)) () fs = Ok u
      \<longleftrightarrow> list_all (\<lambda>fv. accepted_flag cap (fst fv)) fs" for fs
    by (induction fs) (auto simp: unsupported_def)
  then show ?thesis by (simp add: check_flags_def)
qed

lemma no_panic_steps:
  "check_request cap a \<noteq> Panic" "flag_words cap a \<noteq> Panic" "artifact_words cap a \<noteq> Panic"
  "envelope_words cap a \<noteq> Panic" "typed_arg_words cap a \<noteq> Panic" "base_fee_words cap a \<noteq> Panic"
  "rpc_words cap a \<noteq> Panic" "format_words cap a \<noteq> Panic"
proof -
  have "check_flags cap a \<noteq> Panic"
    unfolding check_flags_def by (rule try_fold_no_panic) (simp add: unsupported_def)
  then show "check_request cap a \<noteq> Panic"
    by (auto simp: check_request_def and_then_Panic_iff check_artifacts_def check_network_def
        check_endpoint_def unsupported_def missing_value_def split: option.splits)
  show "flag_words cap a \<noteq> Panic"
    unfolding flag_words_def
    by (rule try_fold_no_panic) (simp add: passed_flag_def missing_value_def split: option.splits)
qed (auto simp: artifact_words_def baseline_part_def envelope_words_def typed_arg_words_def
    base_fee_words_def rpc_words_def format_words_def unsupported_def Let_def split: option.splits)

lemma build_argv_no_panic: "build_argv cap a \<noteq> Panic"
  by (simp add: build_argv_def and_then_Panic_iff no_panic_steps)

lemma plan_request_no_panic: "plan_request request \<noteq> PlanPanic"
  using parse_words_no_panic build_argv_no_panic
  by (auto simp: plan_request_def parse_request_def plan_intent_def
      split: result.splits parse_error.splits option.splits)

lemma build_argv_OkE:
  assumes "build_argv cap a = Ok argv"
  obtains flags artifacts envelope typed fees rpc fmt where
    "check_request cap a = Ok ()" and "flag_words cap a = Ok flags" and "artifact_words cap a = Ok artifacts"
    and "envelope_words cap a = Ok envelope" and "typed_arg_words cap a = Ok typed"
    and "base_fee_words cap a = Ok fees" and "rpc_words cap a = Ok rpc" and "format_words cap a = Ok fmt"
    and "argv = cp_command cap @ flags @ contract_words cap a @ artifacts @ positional_words a @ envelope @
           typed @ fees @ rpc @ endpoint_words cap a @ fmt"
  using assms by (auto simp: build_argv_def)

text \<open>A command line is refused for its arguments, never for its capability.\<close>

primrec capability_refusal :: "plan_error \<Rightarrow> bool" where
  "capability_refusal (ParseRefused e) = False"
| "capability_refusal (UnknownCapability i) = True"
| "capability_refusal (BlockedCapability i s b) = True"
| "capability_refusal (RefusedNetwork n) = False"
| "capability_refusal (UnmappableArgument i a) = False"

definition argument_result :: "('a, plan_error) result \<Rightarrow> bool" where
  "argument_result r \<longleftrightarrow> (\<forall>e. r = Err e \<longrightarrow> \<not> capability_refusal e)"

named_theorems argument_results

lemma argument_result_and_then [argument_results]:
  "\<lbrakk>argument_result r; \<And>x. argument_result (f x)\<rbrakk> \<Longrightarrow> argument_result (and_then r f)"
  by (cases r) (auto simp: argument_result_def)

lemma argument_result_simps [argument_results]:
  "argument_result (Ok x)" "argument_result (unsupported cap w)" "argument_result (missing_value cap w)"
  "argument_result (Err (RefusedNetwork n))" "argument_result (Err (UnmappableArgument i w))"
  by (simp_all add: argument_result_def unsupported_def missing_value_def)

lemma argument_result_try_fold [argument_results]:
  "(\<And>s x. argument_result (f s x)) \<Longrightarrow> argument_result (try_fold f s xs)"
  unfolding argument_result_def by (blast dest: try_fold_Err_body)

lemma argument_result_map_ok [argument_results]: "argument_result r \<Longrightarrow> argument_result (map_ok f r)"
  by (cases r) (auto simp: argument_result_def)

lemma argument_result_steps [argument_results]:
  "argument_result (check_artifacts cap a)" "argument_result (check_flags cap a)"
  "argument_result (check_network cap a)" "argument_result (check_endpoint cap a)"
  "argument_result (flag_words cap a)" "argument_result (artifact_words cap a)"
  "argument_result (envelope_words cap a)" "argument_result (typed_arg_words cap a)"
  "argument_result (base_fee_words cap a)" "argument_result (rpc_words cap a)"
  "argument_result (format_words cap a)"
  unfolding check_artifacts_def check_flags_def check_network_def check_endpoint_def flag_words_def
    artifact_words_def baseline_part_def envelope_words_def typed_arg_words_def base_fee_words_def
    rpc_words_def format_words_def Let_def
  by (auto simp: passed_flag_def intro!: argument_results split: option.split)

lemma build_argv_refusal: "build_argv cap a = Err e \<Longrightarrow> \<not> capability_refusal e"
proof -
  have "argument_result (build_argv cap a)"
    unfolding build_argv_def check_request_def by (intro argument_results)
  then show "build_argv cap a = Err e \<Longrightarrow> \<not> capability_refusal e" by (simp add: argument_result_def)
qed

lemma plan_intent_refusal:
  assumes "find_capability (in_capability_id i) = Some cap" and "cp_safety cap = ReadOnly"
    and "\<not> cp_requires_confirmation cap" and "plan_intent i = Refuse e"
  shows "\<not> capability_refusal e"
  using assms build_argv_refusal [of cap "in_args i" e] by (auto simp: plan_intent_def split: result.splits)

lemma plan_intent_RunE:
  assumes "plan_intent i = RunPlan p"
  obtains cap where "find_capability (in_capability_id i) = Some cap" and "cp_safety cap = ReadOnly"
    and "\<not> cp_requires_confirmation cap" and "build_argv cap (in_args i) = Ok (pl_argv p)"
    and "pl_capability_id p = cp_id cap" and "pl_safety p = ReadOnly" and "pl_network p = ia_network (in_args i)"
    and "pl_wants_json p = fm_json (cp_formats cap)" and "pl_matched_keywords p = in_matched_keywords i"
  using assms by (auto simp: plan_intent_def split: option.splits if_splits result.splits)

lemma plan_request_RunE:
  assumes "plan_request request = RunPlan p"
  obtains i where "parse_request request = Ok i" and "plan_intent i = RunPlan p"
  using assms by (auto simp: plan_request_def split: result.splits parse_error.splits option.splits)


section \<open>Only what reads is planned\<close>

text \<open>A request that is planned, for the witnesses.\<close>

definition status_plan :: agent_plan where
  "status_plan = \<lparr>pl_capability_id = ''project.status'',
     pl_argv = [''project'', ''status'', ''--rpc-url'', TESTNET_RPC, ''--network-passphrase'', TESTNET_PASSPHRASE,
       ''--format'', ''json''],
     pl_network = None, pl_safety = ReadOnly, pl_wants_json = True,
     pl_matched_keywords = [''project'', ''status'']\<rparr>"

lemma status_planned: "plan_request ''show project status'' = RunPlan status_plan"
  by code_simp

lemma find_project_status: "find_capability ''project.status'' = Some cap_project_status"
  by (rule find_capability_in) (simp_all add: capabilities_def cap_project_status_def)

lemma status_declares: "flag_for cap_project_status ''--rpc-url''"
  by code_simp

text \<open>
  C27. The agent plans nothing but read-only commands of the registry: when a request becomes a plan, its
  capability is an entry of the table that is classified read-only and needs no confirmation, the
  command line starts with the command of that entry, and the keywords that selected it are words of
  the request.
\<close>

theorem only_read_only_planned:
  assumes "plan_request request = RunPlan p"
  shows "\<exists>cap \<in> set capabilities. cp_id cap = pl_capability_id p \<and> cp_safety cap = ReadOnly \<and>
    \<not> cp_requires_confirmation cap \<and> pl_safety p = ReadOnly \<and> prefix (cp_command cap) (pl_argv p) \<and>
    set (pl_matched_keywords p) \<subseteq> set (request_words request)"
proof -
  obtain i where i: "parse_request request = Ok i" "plan_intent i = RunPlan p"
    using assms by (rule plan_request_RunE)
  obtain cap where cap: "find_capability (in_capability_id i) = Some cap" "cp_safety cap = ReadOnly"
    "\<not> cp_requires_confirmation cap" "build_argv cap (in_args i) = Ok (pl_argv p)"
    "pl_capability_id p = cp_id cap" "pl_safety p = ReadOnly" "pl_matched_keywords p = in_matched_keywords i"
    using i(2) by (rule plan_intent_RunE)
  have "prefix (cp_command cap) (pl_argv p)" using cap(4) by (rule build_argv_OkE) simp
  moreover have "set (in_matched_keywords i) \<subseteq> set (request_words request)"
    using matched_intents_words [OF parse_words_Ok(4) [OF i(1) [unfolded parse_request_def]]] by simp
  ultimately show ?thesis using cap find_capability_Some [OF cap(1)] by auto
qed

theorem only_read_only_planned_witness:
  "\<exists>cap \<in> set capabilities. cp_id cap = ''project.status'' \<and> cp_safety cap = ReadOnly \<and>
     prefix (cp_command cap) (pl_argv status_plan)"
  using only_read_only_planned [OF status_planned] by (auto simp: status_plan_def)

text \<open>
  C28. Refusals for safety are exactly the requests for a mutation: planning always ends without a panic,
  never with a capability the registry does not know, and it blocks a capability exactly when the
  parser recognised nothing but that one mutating operation, which is then reported with its class
  and its need for confirmation.
\<close>

theorem blocked_iff_mutation_requested:
  "plan_request request \<noteq> PlanPanic \<and> plan_request request \<noteq> Refuse (UnknownCapability unknown) \<and>
   (plan_request request = Refuse (BlockedCapability c s confirm) \<longleftrightarrow>
      parse_request request = Err (MutationRequested c) \<and> s = Mutating \<and> confirm)"
proof -
  show ?thesis
  proof (cases "parse_request request")
    case (Ok i)
    then have "plan_request request = plan_intent i" by (simp add: plan_request_def)
    moreover have refusal: "\<not> capability_refusal e" if "plan_intent i = Refuse e" for e
      using parsed_read_only [OF Ok] plan_intent_refusal [OF _ _ _ that] by blast
    ultimately show ?thesis
      using Ok plan_request_no_panic [of request] refusal [of "UnknownCapability unknown"]
        refusal [of "BlockedCapability c s confirm"] by auto
  next
    case (Err e)
    show ?thesis
    proof (cases "\<exists>m. e = MutationRequested m")
      case True
      then obtain m where m: "e = MutationRequested m" ..
      then have "is_mutating m" using parse_words_mutation Err by (auto simp: parse_request_def)
      then obtain cap where cap: "find_capability m = Some cap" "cp_safety cap = Mutating"
        by (auto simp: is_mutating_def split: option.splits)
      then have "cp_requires_confirmation cap"
        using well_formed_find [OF cap(1)] by (simp add: well_formed_capability_def)
      with cap m Err show ?thesis by (auto simp: plan_request_def)
    next
      case False
      with Err have "plan_request request = Refuse (ParseRefused e)"
        by (cases e) (auto simp: plan_request_def)
      with False Err show ?thesis by auto
    qed
  next
    case Panic
    with parse_words_no_panic show ?thesis by (auto simp: parse_request_def)
  qed
qed


section \<open>Where a plan points to\<close>

lemma check_artifacts_iff:
  "check_artifacts cap a = Ok u \<longleftrightarrow>
     ia_artifact_paths a = [] \<or> length (ia_artifact_paths a) \<le> artifact_capacity cap"
  by (auto simp: check_artifacts_def unsupported_def)

lemma check_network_iff:
  "check_network cap a = Ok u \<longleftrightarrow> cp_network cap = NetNone \<or> ia_network a \<in> {None, Some ''testnet''}"
  by (auto simp: check_network_def split: option.splits)

lemma check_endpoint_iff:
  "check_endpoint cap a = Ok u \<longleftrightarrow>
     (ia_rpc_url a = None \<or> cp_network cap \<noteq> NetNone \<and> flag_for cap ''--rpc-url'') \<and>
     (ia_network_passphrase a = None \<or> cp_network cap \<noteq> NetNone \<and> flag_for cap ''--network-passphrase'') \<and>
     (ia_rpc_url a \<in> {None, Some TESTNET_RPC} \<or> ia_network_passphrase a \<noteq> None)"
  by (auto simp: check_endpoint_def unsupported_def missing_value_def)

lemma check_request_iff:
  "check_request cap a = Ok u \<longleftrightarrow> check_artifacts cap a = Ok () \<and> check_flags cap a = Ok () \<and>
     check_network cap a = Ok () \<and> check_endpoint cap a = Ok ()"
  by (auto simp: check_request_def)

lemmas check_iffs = check_request_iff check_artifacts_iff check_flags_iff check_network_iff check_endpoint_iff

lemma endpoint_words_sublist:
  assumes "build_argv cap a = Ok argv" and "cp_network cap \<noteq> NetNone" and "flag_for cap ''--rpc-url''"
    and "\<not> offline_fee cap a"
  shows "sublist [''--rpc-url'', unwrap_or TESTNET_RPC (ia_rpc_url a),
    ''--network-passphrase'', unwrap_or TESTNET_PASSPHRASE (ia_network_passphrase a)] argv"
  using assms(1)
proof (rule build_argv_OkE)
  fix flags artifacts envelope typed fees rpc fmt
  assume "argv = cp_command cap @ flags @ contract_words cap a @ artifacts @ positional_words a @ envelope @
           typed @ fees @ rpc @ endpoint_words cap a @ fmt"
  moreover have "endpoint_words cap a = [''--rpc-url'', unwrap_or TESTNET_RPC (ia_rpc_url a),
      ''--network-passphrase'', unwrap_or TESTNET_PASSPHRASE (ia_network_passphrase a)]"
    using assms by (simp add: endpoint_words_def)
  ultimately have "argv = (cp_command cap @ flags @ contract_words cap a @ artifacts @ positional_words a @
      envelope @ typed @ fees @ rpc) @ [''--rpc-url'', unwrap_or TESTNET_RPC (ia_rpc_url a),
      ''--network-passphrase'', unwrap_or TESTNET_PASSPHRASE (ia_network_passphrase a)] @ fmt"
    by simp
  then show ?thesis using sublist_appendI by metis
qed



section \<open>Nothing recognised is dropped\<close>

lemma passed_flags_sublist:
  assumes "try_fold (passed_flag cap) acc fs = Ok argv"
  shows "prefix acc argv \<and> (\<forall>(f, v) \<in> set fs. f \<notin> set PLANNER_MANAGED_FLAGS \<and> declares_arg cap f \<longrightarrow>
    (\<exists>x. v = Some x \<and> sublist [f, x] argv))"
  using assms
proof (induction fs arbitrary: acc)
  case (Cons fv fs)
  obtain f v where fv: "fv = (f, v)" by (cases fv)
  from Cons.prems obtain acc' where step: "passed_flag cap acc fv = Ok acc'"
    and rest: "try_fold (passed_flag cap) acc' fs = Ok argv" by auto
  have here: "prefix acc acc' \<and> (f \<notin> set PLANNER_MANAGED_FLAGS \<and> declares_arg cap f \<longrightarrow>
      (\<exists>x. v = Some x \<and> suffix [f, x] acc'))"
    using step by (auto simp: passed_flag_def fv missing_value_def suffix_def split: if_splits option.splits)
  have later: "prefix acc' argv" "\<forall>(f, v) \<in> set fs. f \<notin> set PLANNER_MANAGED_FLAGS \<and> declares_arg cap f \<longrightarrow>
      (\<exists>x. v = Some x \<and> sublist [f, x] argv)"
    using Cons.IH [OF rest] by simp_all
  have "sublist [f, x] argv" if tail: "suffix [f, x] acc'" for x
  proof -
    obtain ps where "acc' = ps @ [f, x]" using tail unfolding suffix_def by blast
    moreover obtain ss where "argv = acc' @ ss" using later(1) unfolding prefix_def by blast
    ultimately have "argv = ps @ [f, x] @ ss" by simp
    then show ?thesis using sublist_appendI by metis
  qed
  moreover have "prefix acc argv" using here later(1) by auto
  ultimately show ?case using here later(2) by (auto simp: fv)
qed simp

lemma sublist_concat: "ws \<in> set wss \<Longrightarrow> sublist ws (concat wss)"
proof -
  assume "ws \<in> set wss"
  then obtain ys zs where "wss = ys @ ws # zs" by (auto dest: split_list)
  then have "concat wss = concat ys @ ws @ concat zs" by simp
  then show ?thesis using sublist_appendI by metis
qed

lemma artifact_words_sublist:
  assumes "artifact_words cap a = Ok ws"
  shows "ia_wasm a = Some w \<Longrightarrow> w \<in> set ws"
    and "ia_previous_wasm a = Some b \<Longrightarrow> \<exists>flag \<in> set BASELINE_FLAGS. sublist [flag, b] ws"
proof -
  obtain base where base: "baseline_part cap a = Ok base"
    and ws: "ws = concat (map snd (sort_key fst (base @ candidate_part cap a)))"
    using assms by (auto simp: artifact_words_def)
  show "ia_wasm a = Some w \<Longrightarrow> w \<in> set ws"
    by (auto simp: ws candidate_part_def split: option.split)
  assume b: "ia_previous_wasm a = Some b"
  then obtain flag where flag: "flag_for_any cap BASELINE_FLAGS = Some flag"
    "base = [(arg_position cap flag, [flag, b])]"
    using base by (auto simp: baseline_part_def split: option.splits)
  then have "[flag, b] \<in> set (map snd (sort_key fst (base @ candidate_part cap a)))"
    by (simp add: set_insort_key)
  then have "sublist [flag, b] ws" unfolding ws by (rule sublist_concat)
  moreover have "flag \<in> set BASELINE_FLAGS" using flag(1) by (auto simp: flag_for_any_def find_Some_iff)
  ultimately show "\<exists>flag \<in> set BASELINE_FLAGS. sublist [flag, b] ws" by blast
qed


text \<open>The values a request names one by one: each of them is one word of the command line.\<close>

definition single_values :: "intent_args \<Rightarrow> string list" where
  "single_values a = concat (map opt_word
     [ia_contract a, ia_wasm a, ia_source_path a, ia_function a, ia_profile a])"

text \<open>
  C30. Nothing that was recognised is dropped: when the words of a command line can be built, every
  contract, artifact, source, function and profile of the arguments is one of them; the baseline
  artifact, the envelope, each typed argument and the fee samples stand behind their flags; every flag
  the planner does not interpret has a value, which follows it; and the endpoint of the request is
  there unless the fee estimate is offline.
\<close>

theorem recognised_arguments_emitted:
  assumes "build_argv cap a = Ok argv"
  shows "set (single_values a) \<subseteq> set argv \<and>
    (\<forall>b. ia_previous_wasm a = Some b \<longrightarrow> (\<exists>flag \<in> set BASELINE_FLAGS. sublist [flag, b] argv)) \<and>
    (\<forall>e. ia_envelope a = Some e \<longrightarrow> sublist [''--envelope'', e] argv) \<and>
    (\<forall>t \<in> set (ia_typed_args a). sublist [''--args'', t] argv) \<and>
    (\<forall>fees. ia_base_fees a = Some fees \<longrightarrow> sublist [''--base-fees'', fees] argv) \<and>
    (\<forall>(f, v) \<in> set (ia_explicit_flags a). f \<notin> set PLANNER_MANAGED_FLAGS \<longrightarrow>
       (\<exists>x. v = Some x \<and> sublist [f, x] argv)) \<and>
    (\<forall>u. ia_rpc_url a = Some u \<and> \<not> offline_fee cap a \<longrightarrow> sublist [''--rpc-url'', u] argv)"
  using assms
proof (rule build_argv_OkE)
  fix flags artifacts envelope typed fees rpc fmt
  assume request: "check_request cap a = Ok ()" and flags: "flag_words cap a = Ok flags"
    and artifacts: "artifact_words cap a = Ok artifacts" and envelope: "envelope_words cap a = Ok envelope"
    and typed: "typed_arg_words cap a = Ok typed" and fees: "base_fee_words cap a = Ok fees"
    and argv: "argv = cp_command cap @ flags @ contract_words cap a @ artifacts @ positional_words a @ envelope @
           typed @ fees @ rpc @ endpoint_words cap a @ fmt"
  have concat: "argv = concat [cp_command cap, flags, contract_words cap a, artifacts, positional_words a,
      envelope, typed, fees, rpc, endpoint_words cap a, fmt]"
    by (simp add: argv)
  have in_argv: "sublist ws argv"
    if "sublist ws part" and "part \<in> {flags, artifacts, envelope, typed, fees}" for ws part
  proof -
    have "sublist part argv" unfolding concat using that(2) by (intro sublist_concat) auto
    with that(1) show ?thesis by (rule sublist_order.order_trans)
  qed
  have "set (single_values a) \<subseteq> set argv"
    using artifact_words_sublist(1) [OF artifacts]
    by (auto simp: argv single_values_def positional_words_def contract_words_def opt_word_def split: option.splits)
  moreover have "\<exists>flag \<in> set BASELINE_FLAGS. sublist [flag, b] argv" if "ia_previous_wasm a = Some b" for b
    using artifact_words_sublist(2) [OF artifacts that] in_argv [of _ artifacts] by blast
  moreover have "sublist [''--envelope'', e] argv" if "ia_envelope a = Some e" for e
    using envelope that in_argv [of "[''--envelope'', e]" envelope]
    by (auto simp: envelope_words_def split: if_splits)
  moreover have "sublist [''--args'', t] argv" if "t \<in> set (ia_typed_args a)" for t
  proof -
    have "typed = concat (map (\<lambda>t. [''--args'', t]) (ia_typed_args a))"
      using typed that by (auto simp: typed_arg_words_def split: if_splits)
    then have "sublist [''--args'', t] typed" using that by (auto intro: sublist_concat)
    then show ?thesis by (rule in_argv) simp
  qed
  moreover have "sublist [''--base-fees'', x] argv" if "ia_base_fees a = Some x" for x
    using fees that in_argv [of "[''--base-fees'', x]" fees] by (auto simp: base_fee_words_def split: if_splits)
  moreover have "\<exists>x. v = Some x \<and> sublist [f, x] argv"
    if fv: "(f, v) \<in> set (ia_explicit_flags a)" and f: "f \<notin> set PLANNER_MANAGED_FLAGS" for f v
  proof -
    have "declares_arg cap f"
      using request fv f by (auto simp: check_iffs list_all_iff accepted_flag_def)
    then obtain x where "v = Some x" "sublist [f, x] flags"
      using passed_flags_sublist [OF flags [unfolded flag_words_def]] fv f by blast
    then show ?thesis using in_argv [of "[f, x]" flags] by simp
  qed
  moreover have "sublist [''--rpc-url'', u] argv"
    if url: "ia_rpc_url a = Some u" and online: "\<not> offline_fee cap a" for u
  proof -
    have "cp_network cap \<noteq> NetNone" "flag_for cap ''--rpc-url''"
      using request url by (auto simp: check_request_iff check_endpoint_iff)
    from endpoint_words_sublist [OF assms this online] obtain ps ss where
      "argv = ps @ [''--rpc-url'', u] @ ([''--network-passphrase'',
         unwrap_or TESTNET_PASSPHRASE (ia_network_passphrase a)] @ ss)"
      using url by (auto simp: sublist_def)
    then show ?thesis using sublist_appendI by metis
  qed
  ultimately show ?thesis by (auto split: prod.split)
qed


theorem recognised_arguments_emitted_witness:
  "\<exists>argv. build_argv cap_project_status (default_intent_args\<lparr>ia_rpc_url := Some TESTNET_RPC\<rparr>) = Ok argv \<and>
     sublist [''--rpc-url'', TESTNET_RPC] argv"
proof -
  have ok: "build_argv cap_project_status (default_intent_args\<lparr>ia_rpc_url := Some TESTNET_RPC\<rparr>) = Ok
      [''project'', ''status'', ''--rpc-url'', TESTNET_RPC, ''--network-passphrase'', TESTNET_PASSPHRASE,
       ''--format'', ''json'']"
    by code_simp
  moreover have "\<not> offline_fee cap_project_status a" for a
    by (simp add: offline_fee_def cap_project_status_def)
  ultimately show ?thesis using recognised_arguments_emitted [OF ok] by simp
qed

section \<open>Artifact roles\<close>

text \<open>
  Of the collected arguments no two paths are the same file name up to case, every claim is about one of
  the paths, and no role is assigned yet.
\<close>

definition paths_wf :: "intent_args \<Rightarrow> bool" where
  "paths_wf a \<longleftrightarrow>
     sorted_wrt (\<lambda>p q. \<not> eq_ignore_ascii_case p q) (ia_artifact_paths a) \<and>
     (\<forall>c \<in> set (ia_candidate_claims a) \<union> set (ia_baseline_claims a).
        \<exists>p \<in> set (ia_artifact_paths a). eq_ignore_ascii_case p c) \<and>
     ia_wasm a = None \<and> ia_previous_wasm a = None"

lemma eq_ignore_ascii_case_refl [simp]: "eq_ignore_ascii_case p p"
  by (simp add: eq_ignore_ascii_case_def)

lemma push_path_paths:
  "set (ia_artifact_paths a) \<subseteq> set (ia_artifact_paths (push_path a p))"
  "\<exists>q \<in> set (ia_artifact_paths (push_path a p)). eq_ignore_ascii_case q p"
  by (auto simp: push_path_def list_ex_iff)

lemma push_path_wf: "paths_wf a \<Longrightarrow> paths_wf (push_path a p)"
  by (auto simp: paths_wf_def push_path_def sorted_wrt_append list_ex_iff)

lemma claim_wf:
  assumes "paths_wf (push_path a p)"
  shows "paths_wf ((push_path a p)\<lparr>ia_baseline_claims := ia_baseline_claims (push_path a p) @ [p]\<rparr>)"
    and "paths_wf ((push_path a p)\<lparr>ia_candidate_claims := ia_candidate_claims (push_path a p) @ [p]\<rparr>)"
  using assms push_path_paths(2) [of a p] by (auto simp: paths_wf_def)

lemma push_path_claims [simp]:
  "push_path (a\<lparr>ia_baseline_claims := cs\<rparr>) p = (push_path a p)\<lparr>ia_baseline_claims := cs\<rparr>"
  "push_path (a\<lparr>ia_candidate_claims := cs\<rparr>) p = (push_path a p)\<lparr>ia_candidate_claims := cs\<rparr>"
  "ia_baseline_claims (push_path a p) = ia_baseline_claims a"
  "ia_candidate_claims (push_path a p) = ia_candidate_claims a"
  by (simp_all add: push_path_def)

lemma paths_wf_other_fields [simp]:
  "paths_wf (a\<lparr>ia_contract := x\<rparr>) = paths_wf a" "paths_wf (a\<lparr>ia_source_path := x\<rparr>) = paths_wf a"
  "paths_wf (a\<lparr>ia_envelope := x\<rparr>) = paths_wf a" "paths_wf (a\<lparr>ia_rpc_url := x\<rparr>) = paths_wf a"
  "paths_wf (a\<lparr>ia_typed_args := ts\<rparr>) = paths_wf a" "paths_wf (a\<lparr>ia_network := x\<rparr>) = paths_wf a"
  "paths_wf (a\<lparr>ia_explicit_flags := fs\<rparr>) = paths_wf a" "paths_wf (a\<lparr>ia_base_fees := x\<rparr>) = paths_wf a"
  "paths_wf (a\<lparr>ia_use_rpc := b\<rparr>) = paths_wf a" "paths_wf (a\<lparr>ia_network_passphrase := x\<rparr>) = paths_wf a"
  by (simp_all add: paths_wf_def)

lemma take_artifact_wf: "paths_wf a \<Longrightarrow> paths_wf (take_artifact role a cleaned lower)"
  using push_path_wf [of a cleaned] claim_wf [of a cleaned]
  by (auto simp: take_artifact_def Let_def split: option.splits bool.splits)

lemma take_flag_wf: "paths_wf a \<Longrightarrow> paths_wf (fst (snd (take_flag role a cleaned following)))"
  using claim_wf [OF push_path_wf, of a]
  by (simp add: take_flag_def Let_def split_beta split: option.split)

lemma take_token_wf: "paths_wf a \<Longrightarrow> paths_wf (fst (snd (take_token role a token following)))"
  by (simp add: take_token_def Let_def take_flag_wf take_artifact_wf)

lemma extract_loop_wf: "paths_wf a \<Longrightarrow> paths_wf (extract_loop role a tokens)"
proof (induction role a tokens rule: extract_loop.induct)
  case (2 role a t ts)
  then show ?case
    using take_token_wf [of a role t ts] by (cases "take_token role a t ts") simp
qed simp

lemma collect_args_wf: "paths_wf (collect_args tokens)"
proof -
  have "paths_wf default_intent_args" by (simp add: paths_wf_def default_intent_args_def)
  then show ?thesis by (simp add: collect_args_def take_flag_values_def extract_loop_wf)
qed

lemma set_dedup_claims [simp]: "set (dedup_claims cs) = set cs"
  by (simp add: dedup_claims_def)

lemma resolve_pair_swap:
  assumes "\<not> eq_ignore_ascii_case p q"
    and "\<forall>c \<in> set cs \<union> set bs. eq_ignore_ascii_case p c \<or> eq_ignore_ascii_case q c"
  shows "resolve_pair [q, p] cs bs = resolve_pair [p, q] cs bs"
proof -
  have "other_path [q, p] c = other_path [p, q] c" if "c \<in> set cs \<union> set bs" for c
    using assms(1) bspec [OF assms(2) that] by (auto simp: other_path_def eq_ignore_ascii_case_def)
  then show ?thesis by (auto simp: resolve_pair_def split: list.split)
qed

text \<open>
  C31. The role of an artifact does not depend on the order in which the paths are listed: for the two
  artifact paths a request names, listing them the other way round assigns the same candidate and the
  same baseline, and without a flag, a marker word or a file name that claims a role neither is
  assigned.
\<close>

theorem artifact_roles_ignore_order:
  assumes "a = collect_args (split_whitespace request)" and "ia_artifact_paths a = [p, q]"
  shows "assign_artifact_roles (a\<lparr>ia_artifact_paths := [q, p]\<rparr>) =
      (assign_artifact_roles a)\<lparr>ia_artifact_paths := [q, p]\<rparr> \<and>
    (\<not> roles_claimed a \<longrightarrow>
      ia_wasm (assign_artifact_roles a) = None \<and> ia_previous_wasm (assign_artifact_roles a) = None)"
proof -
  have wf: "paths_wf a" using assms(1) collect_args_wf by simp
  have swap: "resolve_pair [q, p] (dedup_claims (ia_candidate_claims a)) (dedup_claims (ia_baseline_claims a)) =
      resolve_pair [p, q] (dedup_claims (ia_candidate_claims a)) (dedup_claims (ia_baseline_claims a))"
    using wf assms(2) by (intro resolve_pair_swap) (auto simp: paths_wf_def)
  have "assign_artifact_roles (a\<lparr>ia_artifact_paths := [q, p]\<rparr>) =
      (assign_artifact_roles a)\<lparr>ia_artifact_paths := [q, p]\<rparr>"
    using assms(2) by (simp add: assign_artifact_roles_def Let_def swap split: option.split)
  moreover have "ia_wasm (assign_artifact_roles a) = None \<and> ia_previous_wasm (assign_artifact_roles a) = None"
    if "\<not> roles_claimed a"
    using assms(2) wf that
    by (simp add: assign_artifact_roles_def roles_claimed_def resolve_pair_def paths_wf_def dedup_claims_def)
  ultimately show ?thesis by blast
qed

theorem artifact_roles_ignore_order_witness:
  "assign_artifact_roles ((collect_args [''diff'', ''old'', ''a.wasm'', ''b.wasm''])\<lparr>ia_artifact_paths := [''b.wasm'', ''a.wasm'']\<rparr>) =
   (assign_artifact_roles (collect_args [''diff'', ''old'', ''a.wasm'', ''b.wasm'']))\<lparr>ia_artifact_paths := [''b.wasm'', ''a.wasm'']\<rparr>"
proof -
  have words: "split_whitespace ''diff old a.wasm b.wasm'' = [''diff'', ''old'', ''a.wasm'', ''b.wasm'']" by code_simp
  have "ia_artifact_paths (collect_args (split_whitespace ''diff old a.wasm b.wasm'')) = [''a.wasm'', ''b.wasm'']"
    by code_simp
  from artifact_roles_ignore_order [OF refl this] show ?thesis by (simp add: words)
qed

section \<open>What the parser loses\<close>

definition planned_words :: "string \<Rightarrow> string list option" where
  "planned_words request = (case plan_request request of RunPlan p \<Rightarrow> Some (pl_argv p) | _ \<Rightarrow> None)"

lemma endpoint_without_shape_replaced:
  "planned_words ''show project status --rpc-url localhost'' =
     Some [''project'', ''status'', ''--rpc-url'', TESTNET_RPC, ''--network-passphrase'', TESTNET_PASSPHRASE,
       ''--format'', ''json'']"
  by code_simp

lemma network_flag_not_gated:
  "planned_words ''estimate fee --rpc --network=mainnet'' =
     Some [''fee'', ''estimate'', ''--network'', ''mainnet'', ''--rpc'', ''--rpc-url'', TESTNET_RPC,
       ''--network-passphrase'', TESTNET_PASSPHRASE, ''--format'', ''json'']"
  by code_simp

lemma lone_baseline_becomes_candidate:
  "planned_words ''release check --previous-wasm old.wasm'' =
     Some [''release-assurance'', ''--wasm'', ''old.wasm'', ''--rpc-url'', TESTNET_RPC, ''--network-passphrase'',
       TESTNET_PASSPHRASE, ''--format'', ''json'']"
  by code_simp

lemma foreign_passphrase_paired:
  "planned_words ''show project status --network-passphrase=Mine'' =
     Some [''project'', ''status'', ''--rpc-url'', TESTNET_RPC, ''--network-passphrase'', ''Mine'',
       ''--format'', ''json'']"
  by code_simp


text \<open>The prefixes of the typed arguments end in a colon, which the text before the first colon has not.\<close>

lemma is_typed_arg_never: "\<not> is_typed_arg s"
proof
  assume "is_typed_arg s"
  then obtain t v where tv: "split_once '':'' s = Some (t, v)" and t: "t \<in> set TYPED_ARG_PREFIXES"
    by (auto simp: is_typed_arg_def split: option.splits)
  have "CHR '':'' \<notin> set t" using tv by (simp add: split_once_char_iff)
  moreover have "list_all (\<lambda>p. CHR '':'' \<in> set p) TYPED_ARG_PREFIXES" by (simp add: TYPED_ARG_PREFIXES_def)
  ultimately show False using t by (auto simp: list_all_iff)
qed

lemma typed_args_push_path [simp]: "ia_typed_args (push_path a p) = ia_typed_args a"
  by (simp add: push_path_def)

lemma typed_args_take_flag: "ia_typed_args (fst (snd (take_flag role a cleaned following))) = ia_typed_args a"
  by (simp add: take_flag_def Let_def split_beta split: option.split)

lemma typed_args_take_artifact: "ia_typed_args (take_artifact role a cleaned lower) = ia_typed_args a"
  by (simp add: take_artifact_def Let_def split: option.split bool.split)

lemma typed_args_take_token: "ia_typed_args (fst (snd (take_token role a token following))) = ia_typed_args a"
  by (simp add: take_token_def Let_def is_typed_arg_never typed_args_take_flag typed_args_take_artifact)

lemma typed_args_extract_loop: "ia_typed_args (extract_loop role a tokens) = ia_typed_args a"
proof (induction role a tokens rule: extract_loop.induct)
  case (2 role a t ts)
  then show ?case
    using typed_args_take_token [of role a t ts] by (cases "take_token role a t ts") simp
qed simp

lemma typed_args_assign: "ia_typed_args (assign_artifact_roles a) = ia_typed_args a"
  by (simp add: assign_artifact_roles_def Let_def split: list.split option.split)

lemma foldl_keep_new:
  "distinct acc \<Longrightarrow> distinct (foldl (\<lambda>ts v. if v \<in> set ts then ts else ts @ [v]) acc vs) \<and>
     set (foldl (\<lambda>ts v. if v \<in> set ts then ts else ts @ [v]) acc vs) = set acc \<union> set vs"
  by (induction vs arbitrary: acc) auto

text \<open>
  A typed argument that stands bare in a request, such as \<^verbatim>\<open>u32:100\<close>, is never recognised: the typed
  arguments of a request are, each once, the values of its \<^verbatim>\<open>--args\<close> flags and nothing else, so a call
  whose arguments are spelled without the flag is planned without them.
\<close>

theorem bare_typed_arguments_dropped:
  "distinct (ia_typed_args (extract_args request)) \<and>
   set (ia_typed_args (extract_args request)) =
     set (flag_values (extract_loop None default_intent_args (split_whitespace request)) ''--args'')"
proof -
  let ?a = "extract_loop None default_intent_args (split_whitespace request)"
  have "ia_typed_args (extract_args request) =
      foldl (\<lambda>ts v. if v \<in> set ts then ts else ts @ [v]) [] (flag_values ?a ''--args'')"
    by (simp add: extract_args_def Let_def typed_args_assign collect_args_def take_flag_values_def
        typed_args_extract_loop default_intent_args_def)
  then show ?thesis using foldl_keep_new [of "[]"] by simp
qed

end
