(* ===== verification/Agent_Result.thy ===== *)
theory Agent_Result
  imports Agent_Plan
begin

text \<open>
  Running a plan and reporting it, \<^verbatim>\<open>sdkt-agent/src/executor.rs\<close>, \<^verbatim>\<open>result.rs\<close> and \<^verbatim>\<open>main.rs\<close>. The
  operating system is a parameter: starting a process gives a child or an error text, and a child is
  the sequence of answers to \<^verbatim>\<open>try_wait\<close>, the time at which each round looks at the clock, and what its
  two streams hold. Parsing JSON and the serialised document are parameters too.
\<close>

section \<open>Running a process\<close>

record raw_execution =
  rx_exit_code :: "int option"
  rx_stdout :: string
  rx_stderr :: string
  rx_timed_out :: bool
  rx_spawn_failed :: bool

definition spawned :: "int option \<Rightarrow> string \<Rightarrow> string \<Rightarrow> bool \<Rightarrow> raw_execution" where
  "spawned code out err timed_out =
     \<lparr>rx_exit_code = code, rx_stdout = out, rx_stderr = err, rx_timed_out = timed_out, rx_spawn_failed = False\<rparr>"

definition spawn_error :: "string \<Rightarrow> raw_execution" where
  "spawn_error message =
     \<lparr>rx_exit_code = None, rx_stdout = [], rx_stderr = message, rx_timed_out = False, rx_spawn_failed = True\<rparr>"

text \<open>An answer of \<^verbatim>\<open>try_wait\<close>; a process killed by a signal has exited without a code.\<close>

datatype poll = Exited "int option" | StillRunning | PollFailed string

record child =
  ch_poll :: "nat \<Rightarrow> poll"
  ch_clock :: "nat \<Rightarrow> nat"
  ch_stdout :: string
  ch_stderr :: string

datatype wait_end = WaitDone "int option" | WaitTimedOut | WaitBroken string

text \<open>The polling loop with fuel, from round \<open>k\<close> on; times are milliseconds.\<close>

fun wait_loop :: "nat \<Rightarrow> child \<Rightarrow> nat \<Rightarrow> nat \<Rightarrow> wait_end option" where
  "wait_loop 0 c deadline k = None"
| "wait_loop (Suc fuel) c deadline k =
     (case ch_poll c k of
        Exited code \<Rightarrow> Some (WaitDone code)
      | StillRunning \<Rightarrow>
          if deadline \<le> ch_clock c k then Some WaitTimedOut else wait_loop fuel c deadline (k + 1)
      | PollFailed e \<Rightarrow> Some (WaitBroken e))"

record process_executor =
  pe_program :: string
  pe_timeout :: nat

definition DEFAULT_TIMEOUT :: nat where
  "DEFAULT_TIMEOUT = 20 * 1000"

definition DEFAULT_BIN :: string where
  "DEFAULT_BIN = ''sdkt''"

definition for_sdkt :: "string option \<Rightarrow> process_executor" where
  "for_sdkt bin_env = \<lparr>pe_program = unwrap_or DEFAULT_BIN bin_env, pe_timeout = DEFAULT_TIMEOUT\<rparr>"

definition prefix_args :: "string option \<Rightarrow> string list" where
  "prefix_args bin_args_env = filter (\<lambda>s. s \<noteq> []) (split_on (CHR ''|'') (unwrap_or [] bin_args_env))"

definition process_end :: "child \<Rightarrow> wait_end \<Rightarrow> raw_execution" where
  "process_end c w =
     (case w of
        WaitDone code \<Rightarrow> spawned code (ch_stdout c) (ch_stderr c) False
      | WaitTimedOut \<Rightarrow> spawned None (ch_stdout c) (ch_stderr c) True
      | WaitBroken e \<Rightarrow> spawn_error (''wait failed: '' @ e))"

text \<open>A run; the clock of the child starts when the deadline is set.\<close>

definition run_process ::
  "(string \<Rightarrow> string list \<Rightarrow> string + child) \<Rightarrow> nat \<Rightarrow> process_executor \<Rightarrow> string list \<Rightarrow> raw_execution option" where
  "run_process spawn fuel ex args =
     (case spawn (pe_program ex) args of
        Inl e \<Rightarrow> Some (spawn_error (''could not run '' @ pe_program ex @ '': '' @ e))
      | Inr c \<Rightarrow>
          map_option (process_end c) (wait_loop fuel c (pe_timeout ex) 0))"

definition execute_argv ::
  "(string \<Rightarrow> string list \<Rightarrow> string + child) \<Rightarrow> nat \<Rightarrow> string option \<Rightarrow> string option \<Rightarrow> string list \<Rightarrow> raw_execution option" where
  "execute_argv spawn fuel bin_env bin_args_env args =
     run_process spawn fuel (for_sdkt bin_env) (prefix_args bin_args_env @ args)"

section \<open>The result document\<close>

definition AGENT_SCHEMA_VERSION :: nat where
  "AGENT_SCHEMA_VERSION = 1"

datatype agent_status = StatusSuccess | StatusFailed | StatusNeedsClarification | StatusBlocked

primrec status_debug :: "agent_status \<Rightarrow> string" where
  "status_debug StatusSuccess = ''Success''"
| "status_debug StatusFailed = ''Failed''"
| "status_debug StatusNeedsClarification = ''NeedsClarification''"
| "status_debug StatusBlocked = ''Blocked''"

record agent_evidence =
  ev_command :: string
  ev_exit_code :: "int option"
  ev_command_executed :: bool
  ev_timed_out :: bool
  ev_parsed_sdkt_result :: bool
  ev_stderr :: string

definition default_agent_evidence :: agent_evidence where
  "default_agent_evidence =
     \<lparr>ev_command = [], ev_exit_code = None, ev_command_executed = False, ev_timed_out = False,
      ev_parsed_sdkt_result = False, ev_stderr = []\<rparr>"

record 'j execution_result =
  er_schema_version :: nat
  er_request :: string
  er_capability_id :: "string option"
  er_command :: string
  er_argv :: "string list"
  er_network :: "string option"
  er_safety :: "string option"
  er_json_requested :: bool
  er_status :: agent_status
  er_exit_code :: "int option"
  er_stdout_json :: "'j option"
  er_stdout_text :: "string option"
  er_evidence :: agent_evidence
  er_explanation :: string
  er_error_code :: "string option"

definition MAX_TEXT :: nat where
  "MAX_TEXT = 8 * 1024"

fun boundary_below :: "string \<Rightarrow> nat \<Rightarrow> nat" where
  "boundary_below s 0 = 0"
| "boundary_below s (Suc n) = (if \<not> is_char_boundary s (Suc n) then boundary_below s n else Suc n)"

definition ellipsis :: string where
  "ellipsis = [CHR 0xE2, CHR 0x80, CHR 0xA6]"

definition truncate_text :: "string \<Rightarrow> string" where
  "truncate_text s =
     (if length s \<le> MAX_TEXT then s
      else take (boundary_below s MAX_TEXT) s @ [CHR 0x0A] @ ellipsis @ ''[truncated]'')"

definition refused_status :: "plan_error \<Rightarrow> agent_status" where
  "refused_status e =
     (case e of
        BlockedCapability _ _ _ \<Rightarrow> StatusBlocked
      | RefusedNetwork _ \<Rightarrow> StatusBlocked
      | _ \<Rightarrow> StatusNeedsClarification)"

definition refused_capability :: "plan_error \<Rightarrow> string option" where
  "refused_capability e =
     (case e of
        BlockedCapability i _ _ \<Rightarrow> Some i
      | UnmappableArgument i _ \<Rightarrow> Some i
      | ParseRefused (MutationRequested i) \<Rightarrow> Some i
      | _ \<Rightarrow> None)"

definition refused_result :: "(string \<Rightarrow> string) \<Rightarrow> string \<Rightarrow> plan_error \<Rightarrow> 'j execution_result" where
  "refused_result dbg request e =
     \<lparr>er_schema_version = AGENT_SCHEMA_VERSION, er_request = request, er_capability_id = refused_capability e,
      er_command = [], er_argv = [], er_network = None, er_safety = None, er_json_requested = False,
      er_status = refused_status e, er_exit_code = None, er_stdout_json = None, er_stdout_text = None,
      er_evidence = default_agent_evidence, er_explanation = plan_error_message dbg e,
      er_error_code = Some (plan_error_code e)\<rparr>"

definition explain_run :: "agent_status \<Rightarrow> raw_execution \<Rightarrow> bool \<Rightarrow> bool \<Rightarrow> string" where
  "explain_run st raw has_json verdict_gated =
     (if rx_spawn_failed raw then ''the sdkt binary could not be started''
      else if rx_timed_out raw then ''the command exceeded the agent's timeout and was killed''
      else case (st, rx_exit_code raw) of
        (StatusSuccess, Some c) \<Rightarrow>
          if c = 0 then
            (if has_json then ''the read-only check completed and sdkt returned a structured result''
             else ''the read-only check completed successfully'')
          else ''the command did not complete''
      | (StatusFailed, Some c) \<Rightarrow>
          if c = 2 then
            ''sdkt rejected the command line (usage error, exit 2); no check ran and no report exists '' @
            em_dash @ '' see stderr for the rejected argument''
          else if verdict_gated \<and> has_json then
            ''sdkt ran to completion but the verdict failed (exit '' @ show_int c @
            ''); the report above is the evidence''
          else if verdict_gated then
            ''sdkt ran to completion but the verdict failed (exit '' @ show_int c @
            ''); no report was produced (empty stdout) '' @ em_dash @ '' see stderr for the diagnostic''
          else ''the command failed (exit '' @ show_int c @ ''); see stderr for the diagnostic''
      | _ \<Rightarrow> ''the command did not complete'')"

definition status_of_code :: "int option \<Rightarrow> agent_status" where
  "status_of_code code =
     (case code of None \<Rightarrow> StatusFailed | Some c \<Rightarrow> if c = 0 then StatusSuccess else StatusFailed)"

definition execution_result ::
  "(string \<Rightarrow> 'j option) \<Rightarrow> agent_plan \<Rightarrow> raw_execution \<Rightarrow> 'j execution_result" where
  "execution_result parse_json p raw =
     (let command_executed = (rx_exit_code raw \<noteq> None \<or> rx_timed_out raw);
          verdict_gated = (case find_capability (pl_capability_id p) of
            None \<Rightarrow> False | Some c \<Rightarrow> ex_verdict_can_fail (cp_exit c));
          st = status_of_code (rx_exit_code raw);
          stdout_json = (if pl_wants_json p \<and> \<not> rx_timed_out raw \<and> \<not> rx_spawn_failed raw
            then parse_json (rx_stdout raw) else None)
      in \<lparr>er_schema_version = AGENT_SCHEMA_VERSION, er_request = [],
          er_capability_id = Some (pl_capability_id p), er_command = plan_display p, er_argv = pl_argv p,
          er_network = pl_network p, er_safety = Some (safety_debug (pl_safety p)),
          er_json_requested = pl_wants_json p, er_status = st, er_exit_code = rx_exit_code raw,
          er_stdout_json = stdout_json, er_stdout_text = Some (truncate_text (rx_stdout raw)),
          er_evidence =
            \<lparr>ev_command = plan_display p, ev_exit_code = rx_exit_code raw,
             ev_command_executed = command_executed, ev_timed_out = rx_timed_out raw,
             ev_parsed_sdkt_result = (stdout_json \<noteq> None), ev_stderr = truncate_text (rx_stderr raw)\<rparr>,
          er_explanation = explain_run st raw (stdout_json \<noteq> None) verdict_gated,
          er_error_code = None\<rparr>)"

definition bool_debug :: "bool \<Rightarrow> string" where
  "bool_debug b = (if b then ''true'' else ''false'')"

definition result_pretty :: "'j execution_result \<Rightarrow> string" where
  "result_pretty r =
     ''REQUEST     '' @ er_request r @ [CHR 0x0A] @
     ''CAPABILITY  '' @ unwrap_or ''(none)'' (er_capability_id r) @ [CHR 0x0A] @
     ''COMMAND     '' @ (if er_command r = [] then ''(not executed)'' else er_command r) @ [CHR 0x0A] @
     ''RESULT      '' @ status_debug (er_status r) @ '' (exit '' @
       unwrap_or ''n/a'' (map_option show_int (er_exit_code r)) @ '')'' @ [CHR 0x0A] @
     ''EVIDENCE    executed='' @ bool_debug (ev_command_executed (er_evidence r)) @ '' json='' @
       bool_debug (ev_parsed_sdkt_result (er_evidence r)) @ '' stderr='' @
       show_nat (length (ev_stderr (er_evidence r))) @ ''B'' @ [CHR 0x0A] @
     ''EXPLANATION  '' @ er_explanation r"

section \<open>The program\<close>

text \<open>
  What \<^verbatim>\<open>main\<close> does: the exit code and what it writes to standard output. A usage error of the argument
  parser itself is clap's; nothing here is the value of a run whose process never ends.
\<close>

record 'j agent_world =
  aw_execute :: "string list \<Rightarrow> raw_execution option"
  aw_parse_json :: "string \<Rightarrow> 'j option"
  aw_to_json :: "'j execution_result \<Rightarrow> string"
  aw_debug :: "string \<Rightarrow> string"

definition agent_result :: "'j agent_world \<Rightarrow> string \<Rightarrow> 'j execution_result option" where
  "agent_result W request =
     map_option (\<lambda>r. r\<lparr>er_request := request\<rparr>)
       (case plan_request request of
          RunPlan p \<Rightarrow> map_option (execution_result (aw_parse_json W) p) (aw_execute W (pl_argv p))
        | Refuse e \<Rightarrow> Some (refused_result (aw_debug W) request e)
        | PlanPanic \<Rightarrow> None)"

definition output_format :: "string \<Rightarrow> bool option" where
  "output_format fmt =
     (let f = to_ascii_lowercase fmt in
      if f = ''json'' then Some True else if f = ''pretty'' then Some False else None)"

definition agent_main :: "'j agent_world \<Rightarrow> string \<Rightarrow> string \<Rightarrow> (int \<times> string) option" where
  "agent_main W fmt request =
     (case output_format fmt of
        None \<Rightarrow> Some (2, [])
      | Some json \<Rightarrow>
          map_option (\<lambda>r.
            (case er_status r of StatusSuccess \<Rightarrow> 0 | _ \<Rightarrow> 1,
             (if json then aw_to_json W r else result_pretty r) @ [CHR 0x0A]))
          (agent_result W request))"

section \<open>The polling loop ends\<close>

text \<open>Every round that goes on sleeps ten milliseconds, so the clock of round \<open>k\<close> shows at least \<open>10 k\<close>.\<close>

definition sleeps :: "child \<Rightarrow> bool" where
  "sleeps c \<longleftrightarrow> (\<forall>k. 10 * k \<le> ch_clock c k)"

lemma wait_loop_returns:
  "\<lbrakk>sleeps c; deadline \<le> 10 * (k + fuel)\<rbrakk> \<Longrightarrow> \<exists>w. wait_loop (Suc fuel) c deadline k = Some w"
proof (induction fuel arbitrary: k)
  case 0
  have "10 * k \<le> ch_clock c k" using 0(1) by (simp add: sleeps_def)
  with 0(2) show ?case by (auto split: poll.split)
next
  case (Suc fuel)
  show ?case using Suc.IH [of "k + 1"] Suc.prems by (auto split: poll.split)
qed

text \<open>What the loop returns was observed in some round, and all rounds before it saw a running process.\<close>

definition observed_end :: "child \<Rightarrow> nat \<Rightarrow> nat \<Rightarrow> wait_end \<Rightarrow> bool" where
  "observed_end c deadline n w \<longleftrightarrow>
     (case w of
        WaitDone code \<Rightarrow> ch_poll c n = Exited code
      | WaitTimedOut \<Rightarrow> ch_poll c n = StillRunning \<and> deadline \<le> ch_clock c n
      | WaitBroken e \<Rightarrow> ch_poll c n = PollFailed e)"

lemma wait_loop_observed:
  "wait_loop fuel c deadline k = Some w \<Longrightarrow>
     \<exists>n \<ge> k. observed_end c deadline n w \<and>
       (\<forall>m. k \<le> m \<and> m < n \<longrightarrow> ch_poll c m = StillRunning \<and> ch_clock c m < deadline)"
proof (induction fuel arbitrary: k)
  case (Suc fuel)
  show ?case
  proof (cases "ch_poll c k = StillRunning \<and> ch_clock c k < deadline")
    case True
    then have "wait_loop fuel c deadline (k + 1) = Some w" using Suc.prems by simp
    then obtain n where n: "n \<ge> k + 1" "observed_end c deadline n w"
      "\<forall>m. k + 1 \<le> m \<and> m < n \<longrightarrow> ch_poll c m = StillRunning \<and> ch_clock c m < deadline"
      using Suc.IH by blast
    with True have "\<forall>m. k \<le> m \<and> m < n \<longrightarrow> ch_poll c m = StillRunning \<and> ch_clock c m < deadline"
      by (metis Suc_eq_plus1 le_antisym not_less_eq_eq)
    with n show ?thesis by (intro exI [of _ n]) simp
  next
    case False
    then have "observed_end c deadline k w"
      using Suc.prems by (auto simp: observed_end_def split: poll.splits if_splits)
    then show ?thesis by (intro exI [of _ k]) auto
  qed
qed simp


definition quick_child :: child where
  "quick_child = \<lparr>ch_poll = (\<lambda>k. if k < 2 then StillRunning else Exited (Some 3)), ch_clock = (\<lambda>k. 10 * k),
     ch_stdout = ''ok'', ch_stderr = []\<rparr>"


section \<open>What the result says\<close>

lemma status_success_iff: "status_of_code code = StatusSuccess \<longleftrightarrow> code = Some 0"
  by (auto simp: status_of_code_def split: option.splits)

lemma refused_not_success: "refused_status e \<noteq> StatusSuccess"
  by (simp add: refused_status_def split: plan_error.split)

lemma execution_result_fields [simp]:
  "er_status (execution_result parse_json p raw) = status_of_code (rx_exit_code raw)"
  "ev_command_executed (er_evidence (execution_result parse_json p raw)) \<longleftrightarrow> rx_exit_code raw \<noteq> None \<or> rx_timed_out raw"
  by (simp_all add: execution_result_def Let_def)

lemma result_success_iff:
  "(\<exists>r. agent_result W request = Some r \<and> er_status r = StatusSuccess) \<longleftrightarrow>
     (\<exists>p raw. plan_request request = RunPlan p \<and> aw_execute W (pl_argv p) = Some raw \<and> rx_exit_code raw = Some 0)"
proof (cases "plan_request request")
  case (RunPlan p)
  then show ?thesis by (cases "aw_execute W (pl_argv p)") (simp_all add: agent_result_def status_success_iff)
next
  case (Refuse e)
  then show ?thesis by (simp add: agent_result_def refused_result_def refused_not_success)
qed (simp add: agent_result_def)

text \<open>
  C34. The exit status of the agent is zero exactly when the output format is one it knows, the request was
  planned, the planned command was run and that command exited with code zero: a refusal, a timeout, a
  process that could not be started and a failed verdict all give another status.
\<close>

theorem agent_exit_zero_iff:
  "(\<exists>out. agent_main W fmt request = Some (0, out)) \<longleftrightarrow>
     output_format fmt \<noteq> None \<and>
     (\<exists>p raw. plan_request request = RunPlan p \<and> aw_execute W (pl_argv p) = Some raw \<and> rx_exit_code raw = Some 0)"
proof -
  have "(case st of StatusSuccess \<Rightarrow> 0 | _ \<Rightarrow> 1) = (0 :: int) \<longleftrightarrow> st = StatusSuccess" for st
    by (cases st) simp_all
  then have "(\<exists>out. agent_main W fmt request = Some (0, out)) \<longleftrightarrow>
      output_format fmt \<noteq> None \<and> (\<exists>r. agent_result W request = Some r \<and> er_status r = StatusSuccess)"
    by (cases "output_format fmt"; cases "agent_result W request") (simp_all add: agent_main_def)
  then show ?thesis by (simp only: result_success_iff)
qed

text \<open>Parsed JSON is only reported for a run that ended by itself and whose command was asked for JSON.\<close>

lemma stdout_json_reported:
  "er_stdout_json (execution_result parse_json p raw) = Some j \<Longrightarrow>
     pl_wants_json p \<and> \<not> rx_timed_out raw \<and> \<not> rx_spawn_failed raw \<and> parse_json (rx_stdout raw) = Some j"
  by (auto simp: execution_result_def Let_def split: if_splits)

text \<open>A process that a signal ended has run, but the evidence says that nothing was executed.\<close>

lemma signalled_run_not_executed:
  "\<not> ev_command_executed (er_evidence (execution_result parse_json p (spawned None out err False)))"
  by (simp add: spawned_def)

section \<open>Truncation\<close>

lemma boundary_below:
  "boundary_below s n \<le> n"
  "boundary_below s n = 0 \<or> is_char_boundary s (boundary_below s n)"
  by (induction n) auto

lemma boundary_below_greatest: "\<lbrakk>boundary_below s n < m; m \<le> n\<rbrakk> \<Longrightarrow> \<not> is_char_boundary s m"
  by (induction n) (auto simp: le_Suc_eq split: if_splits)

text \<open>The text kept of a long stream is its longest prefix of at most eight kibibytes that ends between characters.\<close>

lemma truncate_text_longest:
  assumes "MAX_TEXT < length s"
  obtains n where "n \<le> MAX_TEXT" and "n = 0 \<or> is_char_boundary s n"
    and "\<And>m. \<lbrakk>n < m; m \<le> MAX_TEXT\<rbrakk> \<Longrightarrow> \<not> is_char_boundary s m"
    and "truncate_text s = take n s @ [CHR 0x0A] @ ellipsis @ ''[truncated]''"
  using assms that [of "boundary_below s MAX_TEXT"] boundary_below [of s MAX_TEXT]
    boundary_below_greatest [of s MAX_TEXT]
  by (simp add: truncate_text_def)

lemma truncate_text_bound: "length (truncate_text s) \<le> MAX_TEXT + 15"
  using boundary_below(1) [of s MAX_TEXT] by (simp add: truncate_text_def ellipsis_def)

end
